(* ===== verification/Hsm_Prelude.thy ===== *)
theory Hsm_Prelude
  imports Main "HOL-Library.Word" "HOL-Library.Sublist"
begin

text \<open>
  Shared vocabulary of the development: machine words and byte strings, Rust's
  \<^verbatim>\<open>Result\<close> with its \<^verbatim>\<open>?\<close> operator, saturating and checked arithmetic, the fixed-width
  big- and little-endian encodings of integers, and the generic lemmas on lists and
  association lists that the component theories use.
\<close>

named_theorems res_elims \<open>inversion of a successful Result chain\<close>
named_theorems be_simps \<open>round trips of the integer encodings\<close>

type_synonym byte = "8 word"
type_synonym bytes = "byte list"
type_synonym u32 = "32 word"
type_synonym u64 = "64 word"
type_synonym u128 = "128 word"

text \<open>Rust's \<^verbatim>\<open>Result<T, E>\<close> is the sum \<open>'e + 'a\<close>: \<open>Inl\<close> is \<^verbatim>\<open>Err\<close>, \<open>Inr\<close> is \<^verbatim>\<open>Ok\<close>.\<close>

type_synonym ('e, 'a) res = "'e + 'a"

section \<open>Result\<close>

definition bind_res :: "('e, 'a) res \<Rightarrow> ('a \<Rightarrow> ('e, 'b) res) \<Rightarrow> ('e, 'b) res" where
  "bind_res m f = (case m of Inl e \<Rightarrow> Inl e | Inr x \<Rightarrow> f x)"

definition map_err :: "('e \<Rightarrow> 'f) \<Rightarrow> ('e, 'a) res \<Rightarrow> ('f, 'a) res" where
  "map_err h m = (case m of Inl e \<Rightarrow> Inl (h e) | Inr x \<Rightarrow> Inr x)"

definition ok_or :: "'e \<Rightarrow> 'a option \<Rightarrow> ('e, 'a) res" where
  "ok_or e m = (case m of None \<Rightarrow> Inl e | Some x \<Rightarrow> Inr x)"

lemma bind_res_simps [simp]:
  "bind_res (Inl e) f = Inl e"
  "bind_res (Inr x) f = f x"
  by (simp_all add: bind_res_def)

lemma map_err_simps [simp]:
  "map_err h (Inl e) = Inl (h e)"
  "map_err h (Inr x) = Inr x"
  by (simp_all add: map_err_def)

lemma ok_or_simps [simp]:
  "ok_or e None = Inl e"
  "ok_or e (Some x) = Inr x"
  by (simp_all add: ok_or_def)

lemma bind_res_InrE [res_elims]:
  assumes "bind_res m f = Inr y"
  obtains x where "m = Inr x" and "f x = Inr y"
  using assms by (cases m) auto

lemma map_err_InrD: "map_err h m = Inr x \<Longrightarrow> m = Inr x"
  by (cases m) auto

lemma map_err_Inr_iff [simp]: "map_err h m = Inr x \<longleftrightarrow> m = Inr x"
  by (cases m) auto

lemma ok_or_Inr_iff [simp]: "ok_or e m = Inr x \<longleftrightarrow> m = Some x"
  by (cases m) auto

text \<open>Mapping a fallible function over a list and stopping at the first error, as
  \<^verbatim>\<open>collect::<Result<Vec<_>, _>>()\<close> and a \<^verbatim>\<open>for\<close> loop with \<^verbatim>\<open>?\<close> do.\<close>

fun map_res :: "('a \<Rightarrow> ('e, 'b) res) \<Rightarrow> 'a list \<Rightarrow> ('e, 'b list) res" where
  "map_res f [] = Inr []"
| "map_res f (x # xs) = bind_res (f x) (\<lambda>y. bind_res (map_res f xs) (\<lambda>ys. Inr (y # ys)))"

lemma map_res_Inr_iff:
  "map_res f xs = Inr ys \<longleftrightarrow> list_all2 (\<lambda>x y. f x = Inr y) xs ys"
proof (induction xs arbitrary: ys)
  case Nil
  then show ?case by auto
next
  case (Cons x xs)
  show ?case
  proof (cases "f x")
    case (Inl e)
    then show ?thesis by (auto simp: list_all2_Cons1)
  next
    case (Inr y)
    show ?thesis
      using Cons.IH Inr by (cases "map_res f xs") (auto simp: list_all2_Cons1)
  qed
qed

section \<open>Arithmetic of Rust's integer types\<close>

definition sat_add :: "'w::len word \<Rightarrow> 'w word \<Rightarrow> 'w word" where
  "sat_add a b = (if unat a + unat b < 2 ^ LENGTH('w) then a + b else - 1)"

lemma unat_sat_add:
  fixes a b :: "'w::len word"
  shows "unat (sat_add a b) = min (unat a + unat b) (2 ^ LENGTH('w) - 1)"
proof (cases "unat a + unat b < 2 ^ LENGTH('w)")
  case True
  then have "unat (a + b) = unat a + unat b"
    by (simp add: unat_word_ariths)
  with True show ?thesis by (simp add: sat_add_def)
next
  case False
  have "unat (- 1 :: 'w word) = 2 ^ LENGTH('w) - 1"
    by (simp add: unsigned_minus_1_eq_mask mask_eq_exp_minus_1)
  moreover have "2 ^ LENGTH('w) - 1 \<le> unat a + unat b"
    using False by linarith
  ultimately show ?thesis
    using False by (simp only: sat_add_def if_False min.absorb2)
qed

lemma sat_add_mono_iff:
  fixes a b m :: "'w::len word"
  shows "m < sat_add a b \<Longrightarrow> unat m < unat a + unat b"
  by (auto simp: word_less_nat_alt unat_sat_add)

section \<open>Fixed-width encodings of integers\<close>

text \<open>\<open>be_digits n x\<close> is the \<open>n\<close>-byte big-endian encoding of \<open>x\<close>, \<open>be_value\<close> reads it back.\<close>

fun be_digits :: "nat \<Rightarrow> nat \<Rightarrow> bytes" where
  "be_digits 0 x = []"
| "be_digits (Suc n) x = be_digits n (x div 256) @ [word_of_nat x]"

definition be_value :: "bytes \<Rightarrow> nat" where
  "be_value bs = foldl (\<lambda>acc b. acc * 256 + unat b) 0 bs"

lemma length_be_digits [simp]: "length (be_digits n x) = n"
  by (induction n arbitrary: x) auto

lemma be_value_snoc: "be_value (bs @ [b]) = be_value bs * 256 + unat b"
  by (simp add: be_value_def)

lemma be_value_Nil [simp]: "be_value [] = 0"
  by (simp add: be_value_def)

lemma unat_byte_of_nat: "unat (word_of_nat x :: byte) = x mod 256"
  by (simp add: unsigned_of_nat take_bit_eq_mod)

lemma be_value_digits_mod: "be_value (be_digits n x) = x mod 256 ^ n"
proof (induction n arbitrary: x)
  case 0
  then show ?case by simp
next
  case (Suc n)
  have "x mod 256 ^ Suc n = (x div 256) mod 256 ^ n * 256 + x mod 256"
    using mod_mult2_eq [of x 256 "256 ^ n"] by (simp add: mult.commute)
  then show ?case
    by (simp add: be_value_snoc Suc unat_byte_of_nat)
qed

lemma be_value_digits [be_simps]: "x < 256 ^ n \<Longrightarrow> be_value (be_digits n x) = x"
  by (simp add: be_value_digits_mod)

lemma be_digits_inject:
  "x < 256 ^ n \<Longrightarrow> y < 256 ^ n \<Longrightarrow> be_digits n x = be_digits n y \<longleftrightarrow> x = y"
  by (metis be_value_digits)

lemma be_value_bound: "be_value bs < 256 ^ length bs"
proof (induction bs rule: rev_induct)
  case Nil
  then show ?case by simp
next
  case (snoc b bs)
  have "unat b < 256"
    using unsigned_less [where ?'a = nat, of b] by simp
  with snoc show ?case
    by (simp add: be_value_snoc)
qed

definition to_be_bytes :: "u64 \<Rightarrow> bytes" where
  "to_be_bytes w = be_digits 8 (unat w)"

definition from_be_bytes :: "bytes \<Rightarrow> u64" where
  "from_be_bytes bs = word_of_nat (be_value bs)"

definition to_le_bytes :: "u64 \<Rightarrow> bytes" where
  "to_le_bytes w = rev (to_be_bytes w)"

lemma unat_u64_bound: "unat (w :: u64) < 256 ^ 8"
  using unsigned_less [where ?'a = nat, of w] by simp

lemma length_to_be_bytes [simp]: "length (to_be_bytes w) = 8"
  by (simp add: to_be_bytes_def)

lemma length_to_le_bytes [simp]: "length (to_le_bytes w) = 8"
  by (simp add: to_le_bytes_def)

lemma from_to_be_bytes [simp]: "from_be_bytes (to_be_bytes w) = w"
  by (simp add: from_be_bytes_def to_be_bytes_def be_value_digits [OF unat_u64_bound])

lemma be_digits_value: "be_digits (length bs) (be_value bs) = bs"
proof (induction bs rule: rev_induct)
  case Nil
  then show ?case by simp
next
  case (snoc b bs)
  have "unat b < 256"
    using unsigned_less [where ?'a = nat, of b] by simp
  then have "(be_value bs * 256 + unat b) div 256 = be_value bs" by simp
  moreover have "(word_of_nat (be_value bs * 256 + unat b) :: byte) = b"
    unfolding word_unat_eq_iff unat_byte_of_nat using \<open>unat b < 256\<close> by simp
  ultimately show ?case
    using snoc by (simp add: be_value_snoc)
qed

lemma to_from_be_bytes: "length bs = 8 \<Longrightarrow> to_be_bytes (from_be_bytes bs) = bs"
  using be_value_bound [of bs] be_digits_value [of bs]
  by (simp add: to_be_bytes_def from_be_bytes_def unsigned_of_nat take_bit_eq_mod)

lemma to_be_bytes_inject [simp]: "to_be_bytes a = to_be_bytes b \<longleftrightarrow> a = b"
  by (metis from_to_be_bytes)

lemma to_le_bytes_inject [simp]: "to_le_bytes a = to_le_bytes b \<longleftrightarrow> a = b"
  by (simp add: to_le_bytes_def)

section \<open>Decimal numbers as text\<close>

text \<open>\<^verbatim>\<open>to_string\<close> of an unsigned integer, and \<^verbatim>\<open>parse\<close> into an unsigned type of \<open>w\<close> bits: an
  optional plus sign, at least one digit, only digits, no overflow.\<close>

definition digit_char :: "nat \<Rightarrow> char" where
  "digit_char d = char_of (48 + d)"

fun show_nat :: "nat \<Rightarrow> string" where
  "show_nat n = (if n < 10 then [digit_char n] else show_nat (n div 10) @ [digit_char (n mod 10)])"

declare show_nat.simps [simp del]

definition digit_val :: "char \<Rightarrow> nat option" where
  "digit_val c = (let v = of_char c :: nat in if 48 \<le> v \<and> v \<le> 57 then Some (v - 48) else None)"

fun parse_digits :: "nat \<Rightarrow> nat \<Rightarrow> string \<Rightarrow> nat option" where
  "parse_digits w acc [] = Some acc"
| "parse_digits w acc (c # cs) =
     (case digit_val c of
        None \<Rightarrow> None
      | Some d \<Rightarrow> if acc * 10 + d < 2 ^ w then parse_digits w (acc * 10 + d) cs else None)"

definition strip_plus :: "string \<Rightarrow> string" where
  "strip_plus s = (case s of [] \<Rightarrow> [] | c # cs \<Rightarrow> if c = CHR ''+'' then cs else s)"

definition parse_uint :: "nat \<Rightarrow> string \<Rightarrow> nat option" where
  "parse_uint w s = (if strip_plus s = [] then None else parse_digits w 0 (strip_plus s))"

lemma digit_val_char [simp]: "d < 10 \<Longrightarrow> digit_val (digit_char d) = Some d"
  by (simp add: digit_val_def digit_char_def)

lemma digit_char_not_plus: "d < 10 \<Longrightarrow> digit_char d \<noteq> CHR ''+''"
proof
  assume "d < 10" and "digit_char d = CHR ''+''"
  then have "(of_char (digit_char d) :: nat) = of_char (CHR ''+'')" by simp
  with \<open>d < 10\<close> show False by (simp add: digit_char_def)
qed

lemma parse_digits_append:
  "parse_digits w acc xs = Some n \<Longrightarrow> parse_digits w acc (xs @ ys) = parse_digits w n ys"
  by (induction w acc xs arbitrary: n rule: parse_digits.induct)
    (auto split: option.splits if_splits)

lemma parse_digits_show: "n < 2 ^ w \<Longrightarrow> parse_digits w 0 (show_nat n) = Some n"
proof (induction n rule: show_nat.induct)
  case (1 n)
  show ?case
  proof (cases "n < 10")
    case True
    with "1.prems" show ?thesis by (simp add: show_nat.simps [of n])
  next
    case False
    from "1.prems" have "n div 10 < 2 ^ w" by linarith
    with False "1.IH" have "parse_digits w 0 (show_nat (n div 10)) = Some (n div 10)" by simp
    then have "parse_digits w 0 (show_nat n) = parse_digits w (n div 10) [digit_char (n mod 10)]"
      using False by (simp add: show_nat.simps [of n] parse_digits_append)
    then show ?thesis using "1.prems" by simp
  qed
qed

lemma show_nat_not_Nil: "show_nat n \<noteq> []"
  by (subst show_nat.simps) simp

lemma hd_show_nat: "\<exists>d < 10. hd (show_nat n) = digit_char d"
proof (induction n rule: show_nat.induct)
  case (1 n)
  then show ?case
    by (cases "n < 10") (auto simp: show_nat.simps [of n] show_nat_not_Nil hd_append)
qed

lemma strip_plus_show: "strip_plus (show_nat n) = show_nat n"
proof -
  obtain d cs where "d < 10" "show_nat n = digit_char d # cs"
    using hd_show_nat [of n] show_nat_not_Nil [of n] by (metis list.collapse)
  with digit_char_not_plus [of d] show ?thesis by (simp add: strip_plus_def)
qed

lemma parse_show_nat: "n < 2 ^ w \<Longrightarrow> parse_uint w (show_nat n) = Some n"
  by (simp add: parse_uint_def strip_plus_show show_nat_not_Nil parse_digits_show)

lemma parse_digits_bound: "acc < 2 ^ w \<Longrightarrow> parse_digits w acc s = Some n \<Longrightarrow> n < 2 ^ w"
  by (induction w acc s rule: parse_digits.induct) (auto split: option.splits if_splits)

lemma parse_uint_bound: "parse_uint w s = Some n \<Longrightarrow> n < 2 ^ w"
  by (auto simp: parse_uint_def split: if_splits intro: parse_digits_bound [of 0])

section \<open>Generic facts on lists and maps\<close>

text \<open>Strings are sequences of 8-bit characters, the UTF-8 bytes of the Rust string.\<close>

definition str_bytes :: "string \<Rightarrow> bytes" where
  "str_bytes s = map (\<lambda>c. word_of_nat (of_char c)) s"

lemma char_byte_inject: "(word_of_nat (of_char c) :: byte) = word_of_nat (of_char d) \<longleftrightarrow> c = d"
  by (metis unat_byte_of_nat of_char_mod_256 of_char_eq_iff)

lemma str_bytes_inject [simp]: "str_bytes s = str_bytes t \<longleftrightarrow> s = t"
  unfolding str_bytes_def by (rule inj_map_eq_map) (simp add: inj_def char_byte_inject)

lemma str_bytes_append [simp]: "str_bytes (s @ t) = str_bytes s @ str_bytes t"
  by (simp add: str_bytes_def)

lemma length_str_bytes [simp]: "length (str_bytes s) = length s"
  by (simp add: str_bytes_def)

lemma append_same_suffix_length:
  "length ys = length zs \<Longrightarrow> xs @ ys = ws @ zs \<longleftrightarrow> xs = ws \<and> ys = zs"
  by auto

text \<open>\<open>pairwise_apart P xs\<close>: the elements at any two positions of \<open>xs\<close> satisfy \<open>P\<close>,
  the earlier one as its first argument.\<close>

abbreviation pairwise_apart :: "('a \<Rightarrow> 'a \<Rightarrow> bool) \<Rightarrow> 'a list \<Rightarrow> bool" where
  "pairwise_apart P xs \<equiv> sorted_wrt P xs"

lemma map_le_SomeD: "m \<subseteq>\<^sub>m m' \<Longrightarrow> m k = Some v \<Longrightarrow> m' k = Some v"
  by (metis map_le_def domI)

lemma pairwise_apart_snoc:
  "pairwise_apart P (xs @ [x]) \<longleftrightarrow> pairwise_apart P xs \<and> (\<forall>y \<in> set xs. P y x)"
  by (auto simp: sorted_wrt_append)

section \<open>Upper and lower case of ASCII text\<close>

definition ascii_upper :: "char \<Rightarrow> char" where
  "ascii_upper c = (let n = of_char c :: nat in if 97 \<le> n \<and> n \<le> 122 then char_of (n - 32) else c)"

definition ascii_lower :: "char \<Rightarrow> char" where
  "ascii_lower c = (let n = of_char c :: nat in if 65 \<le> n \<and> n \<le> 90 then char_of (n + 32) else c)"

lemma ascii_upper_idem [simp]: "ascii_upper (ascii_upper c) = ascii_upper c"
proof -
  have "of_char (char_of (n - 32) :: char) = n - 32" if "n \<le> 122" for n :: nat using that by (simp add: of_char_of take_bit_eq_mod)
  then show ?thesis by (auto simp: ascii_upper_def Let_def)
qed

lemma ascii_upper_lower [simp]: "ascii_upper (ascii_lower c) = ascii_upper c"
proof (cases "65 \<le> (of_char c :: nat) \<and> (of_char c :: nat) \<le> 90")
  case True
  have "of_char (char_of (of_char c + 32 :: nat) :: char) = (of_char c + 32 :: nat)"
    using True by (simp add: of_char_of take_bit_eq_mod)
  with True show ?thesis by (simp add: ascii_upper_def ascii_lower_def Let_def)
qed (auto simp: ascii_lower_def Let_def)

lemma ascii_lower_idem [simp]: "ascii_lower (ascii_lower c) = ascii_lower c"
proof -
  have "of_char (char_of (n + 32) :: char) = n + 32" if "n \<le> 90" for n :: nat using that by (simp add: of_char_of take_bit_eq_mod)
  then show ?thesis by (auto simp: ascii_lower_def Let_def)
qed

end
