(* ===== verification/Sled_Store.thy ===== *)
theory Sled_Store
  imports Hsm_Prelude
begin

text \<open>
  The embedded key-value store (the third-party crate \<^verbatim>\<open>sled\<close>) that the slashing
  protection databases of \<^verbatim>\<open>crates/validator\<close> keep their records in. The store is a
  parameter of the model: a record of the operations the code calls, on an abstract
  database type. What the code relies on is the predicate \<open>sled_laws\<close>, stated over two
  views of a database, the content a reader sees and the content that survives a crash.
  \<open>mem_sled\<close> is one store that satisfies the laws; it serves to evaluate the model on
  concrete inputs.
\<close>

section \<open>The operations and what the code relies on\<close>

text \<open>Trees are named by strings, keys and values are byte strings, an error is its message.
  Reads leave the database unchanged; \<^verbatim>\<open>insert\<close> and \<^verbatim>\<open>flush\<close> return the new one.\<close>

record 'db sled =
  s_get :: "'db \<Rightarrow> string \<Rightarrow> bytes \<Rightarrow> (string, bytes option) res"
  s_contains_key :: "'db \<Rightarrow> string \<Rightarrow> bytes \<Rightarrow> (string, bool) res"
  s_insert :: "'db \<Rightarrow> string \<Rightarrow> bytes \<Rightarrow> bytes \<Rightarrow> 'db \<times> (string, unit) res"
  s_scan_prefix :: "'db \<Rightarrow> string \<Rightarrow> bytes \<Rightarrow> (string, bytes \<times> bytes) res list"
  s_flush :: "'db \<Rightarrow> 'db \<times> (string, unit) res"
  s_remove :: "'db \<Rightarrow> string \<Rightarrow> bytes \<Rightarrow> 'db \<times> (string, unit) res"

type_synonym content = "string \<Rightarrow> bytes \<Rightarrow> bytes option"

definition upd_content :: "content \<Rightarrow> string \<Rightarrow> bytes \<Rightarrow> bytes \<Rightarrow> content" where
  "upd_content c t k v = c(t := (c t)(k \<mapsto> v))"

definition read_laws :: "'db sled \<Rightarrow> ('db \<Rightarrow> content) \<Rightarrow> bool" where
  "read_laws S V \<longleftrightarrow>
     (\<forall>db t k r. s_get S db t k = Inr r \<longrightarrow> r = V db t k) \<and>
     (\<forall>db t k b. s_contains_key S db t k = Inr b \<longrightarrow> b = (V db t k \<noteq> None)) \<and>
     (\<forall>db t p. (\<forall>x \<in> set (s_scan_prefix S db t p). \<exists>kv. x = Inr kv) \<longrightarrow>
        set (s_scan_prefix S db t p) = Inr ` {(k, v). V db t k = Some v \<and> prefix p k})"

definition insert_laws :: "'db sled \<Rightarrow> ('db \<Rightarrow> content) \<Rightarrow> ('db \<Rightarrow> content) \<Rightarrow> bool" where
  "insert_laws S V D \<longleftrightarrow>
     (\<forall>db t k v db' r. s_insert S db t k v = (db', r) \<longrightarrow>
        (r = Inr () \<longrightarrow> V db' = upd_content (V db) t k v) \<and>
        (V db' = V db \<or> V db' = upd_content (V db) t k v) \<and>
        (\<forall>t' k'. D db' t' k' \<in> {D db t' k', V db t' k', V db' t' k'}))"

definition flush_laws :: "'db sled \<Rightarrow> ('db \<Rightarrow> content) \<Rightarrow> ('db \<Rightarrow> content) \<Rightarrow> bool" where
  "flush_laws S V D \<longleftrightarrow>
     (\<forall>db db' r. s_flush S db = (db', r) \<longrightarrow>
        V db' = V db \<and> (r = Inr () \<longrightarrow> D db' = V db) \<and>
        (\<forall>t k. D db' t k \<in> {D db t k, V db t k}))"

definition sled_laws :: "'db sled \<Rightarrow> ('db \<Rightarrow> content) \<Rightarrow> ('db \<Rightarrow> content) \<Rightarrow> bool" where
  "sled_laws S V D \<longleftrightarrow> read_laws S V \<and> insert_laws S V D \<and> flush_laws S V D"

text \<open>Removal, and the scan that lists every key once. Only the replicated log needs them.\<close>

definition remove_laws :: "'db sled \<Rightarrow> ('db \<Rightarrow> content) \<Rightarrow> bool" where
  "remove_laws S V \<longleftrightarrow>
     (\<forall>db t k db'. s_remove S db t k = (db', Inr ()) \<longrightarrow> V db' = (V db)(t := (V db t)(k := None))) \<and>
     (\<forall>db t p. distinct (s_scan_prefix S db t p))"

text \<open>A store whose calls all succeed, for the results that claim success.\<close>

definition fault_free :: "'db sled \<Rightarrow> bool" where
  "fault_free S \<longleftrightarrow>
     (\<forall>db t k. \<exists>r. s_get S db t k = Inr r) \<and>
     (\<forall>db t k. \<exists>b. s_contains_key S db t k = Inr b) \<and>
     (\<forall>db t k v. snd (s_insert S db t k v) = Inr ()) \<and>
     (\<forall>db t p. \<forall>x \<in> set (s_scan_prefix S db t p). \<exists>kv. x = Inr kv) \<and>
     (\<forall>db. snd (s_flush S db) = Inr ()) \<and>
     (\<forall>db t k. snd (s_remove S db t k) = Inr ())"

text \<open>Restart after a crash: the reopened database shows exactly what was durable.\<close>

definition recovered :: "('db \<Rightarrow> content) \<Rightarrow> ('db \<Rightarrow> content) \<Rightarrow> 'db \<Rightarrow> 'db \<Rightarrow> bool" where
  "recovered V D db db' \<longleftrightarrow> V db' = D db \<and> D db' = D db"

section \<open>Consequences of the laws\<close>

lemma upd_content_same [simp]: "upd_content c t k v t k = Some v"
  by (simp add: upd_content_def)

lemma upd_content_other [simp]: "t' \<noteq> t \<or> k' \<noteq> k \<Longrightarrow> upd_content c t k v t' k' = c t' k'"
  by (auto simp: upd_content_def)

lemma sled_get: "sled_laws S V D \<Longrightarrow> s_get S db t k = Inr r \<Longrightarrow> r = V db t k"
  by (simp add: sled_laws_def read_laws_def)

lemma sled_contains:
  "sled_laws S V D \<Longrightarrow> s_contains_key S db t k = Inr b \<Longrightarrow> b \<longleftrightarrow> V db t k \<noteq> None"
  by (simp add: sled_laws_def read_laws_def)

lemma sled_scan:
  assumes "sled_laws S V D" and "\<And>x. x \<in> set (s_scan_prefix S db t p) \<Longrightarrow> \<exists>kv. x = Inr kv"
    and "V db t k = Some v" and "prefix p k"
  shows "Inr (k, v) \<in> set (s_scan_prefix S db t p)"
proof -
  have "set (s_scan_prefix S db t p) = Inr ` {(k, v). V db t k = Some v \<and> prefix p k}"
    using assms(1,2) unfolding sled_laws_def read_laws_def by blast
  with assms(3,4) show ?thesis by auto
qed

lemma sled_scan_sound:
  assumes "sled_laws S V D" and "\<And>x. x \<in> set (s_scan_prefix S db t p) \<Longrightarrow> \<exists>kv. x = Inr kv"
    and "Inr (k, v) \<in> set (s_scan_prefix S db t p)"
  shows "V db t k = Some v \<and> prefix p k"
proof -
  have "set (s_scan_prefix S db t p) = Inr ` {(k, v). V db t k = Some v \<and> prefix p k}"
    using assms(1,2) unfolding sled_laws_def read_laws_def by blast
  with assms(3) show ?thesis by auto
qed

lemma sled_insert_ok:
  "sled_laws S V D \<Longrightarrow> s_insert S db t k v = (db', Inr ()) \<Longrightarrow> V db' = upd_content (V db) t k v"
  by (simp add: sled_laws_def insert_laws_def)

lemma sled_insert_any:
  "sled_laws S V D \<Longrightarrow> s_insert S db t k v = (db', r) \<Longrightarrow>
     V db' = V db \<or> V db' = upd_content (V db) t k v"
  by (simp add: sled_laws_def insert_laws_def)

lemma sled_insert_dur:
  "sled_laws S V D \<Longrightarrow> s_insert S db t k v = (db', r) \<Longrightarrow>
     D db' t' k' \<in> {D db t' k', V db t' k', V db' t' k'}"
  unfolding sled_laws_def insert_laws_def by blast

lemma sled_flush_view: "sled_laws S V D \<Longrightarrow> s_flush S db = (db', r) \<Longrightarrow> V db' = V db"
  unfolding sled_laws_def flush_laws_def by blast

lemma sled_flush_ok: "sled_laws S V D \<Longrightarrow> s_flush S db = (db', Inr ()) \<Longrightarrow> D db' = V db"
  unfolding sled_laws_def flush_laws_def by blast

lemma sled_flush_dur: "sled_laws S V D \<Longrightarrow> s_flush S db = (db', r) \<Longrightarrow> D db' t k \<in> {D db t k, V db t k}"
  unfolding sled_laws_def flush_laws_def by blast

text \<open>
  One tree of the store only grows: \<open>tree_grows V D t db db'\<close> says that going from \<open>db\<close> to
  \<open>db'\<close> loses no key of tree \<open>t\<close>, neither from what readers see nor from what is durable.
  \<open>dur_le\<close> says that what is durable in a tree is also visible.
\<close>

definition dur_le :: "('db \<Rightarrow> content) \<Rightarrow> ('db \<Rightarrow> content) \<Rightarrow> string \<Rightarrow> 'db \<Rightarrow> bool" where
  "dur_le V D t db \<longleftrightarrow> D db t \<subseteq>\<^sub>m V db t"

definition tree_grows :: "('db \<Rightarrow> content) \<Rightarrow> ('db \<Rightarrow> content) \<Rightarrow> string \<Rightarrow> 'db \<Rightarrow> 'db \<Rightarrow> bool" where
  "tree_grows V D t db db' \<longleftrightarrow>
     V db t \<subseteq>\<^sub>m V db' t \<and> D db t \<subseteq>\<^sub>m D db' t \<and> D db' t \<subseteq>\<^sub>m V db' t"

lemma tree_grows_refl: "dur_le V D t db \<Longrightarrow> tree_grows V D t db db"
  by (simp add: tree_grows_def dur_le_def)

lemma tree_grows_trans:
  "tree_grows V D t a b \<Longrightarrow> tree_grows V D t b c \<Longrightarrow> tree_grows V D t a c"
  by (auto simp: tree_grows_def intro: map_le_trans)

lemma tree_grows_dur_le: "tree_grows V D t a b \<Longrightarrow> dur_le V D t b"
  by (simp add: tree_grows_def dur_le_def)

text \<open>Inserting a key that is new in the tree, or inserting into another tree, loses nothing.\<close>

lemma insert_tree_grows:
  assumes laws: "sled_laws S V D" and le: "dur_le V D t db"
    and ins: "s_insert S db t' k v = (db', r)" and new: "t' = t \<Longrightarrow> V db t k = None"
  shows "tree_grows V D t db db'"
proof -
  have view: "V db t \<subseteq>\<^sub>m V db' t"
    using sled_insert_any [OF laws ins] new
    by (cases "t' = t") (auto simp: upd_content_def map_le_def)
  have dur: "D db t \<subseteq>\<^sub>m D db' t"
    unfolding map_le_def
  proof
    fix k' assume "k' \<in> dom (D db t)"
    then have "D db t k' = V db t k'" "V db' t k' = V db t k'"
      using le view unfolding dur_le_def map_le_def by (metis domIff)+
    then show "D db t k' = D db' t k'"
      using sled_insert_dur [OF laws ins, of t k'] by auto
  qed
  have "D db' t \<subseteq>\<^sub>m V db' t"
    unfolding map_le_def
  proof
    fix k' assume k': "k' \<in> dom (D db' t)"
    have "D db' t k' \<in> {D db t k', V db t k', V db' t k'}"
      by (rule sled_insert_dur [OF laws ins])
    then show "D db' t k' = V db' t k'"
      using k' le view unfolding dur_le_def map_le_def
      by (metis domIff insert_iff singletonD)
  qed
  with view dur show ?thesis by (simp add: tree_grows_def)
qed

lemma flush_tree_grows:
  assumes laws: "sled_laws S V D" and le: "dur_le V D t db" and fl: "s_flush S db = (db', r)"
  shows "tree_grows V D t db db'"
proof -
  have v: "V db' = V db" by (rule sled_flush_view [OF laws fl])
  have d: "D db' t k \<in> {D db t k, V db t k}" for k
    by (rule sled_flush_dur [OF laws fl])
  have "D db t \<subseteq>\<^sub>m D db' t"
    using d le unfolding dur_le_def map_le_def by (metis domIff insert_iff singletonD)
  moreover have "D db' t \<subseteq>\<^sub>m V db' t"
    using d le v unfolding dur_le_def map_le_def by (metis domIff insert_iff singletonD)
  ultimately show ?thesis by (simp add: tree_grows_def v)
qed

text \<open>\<open>tree_same\<close>: a step that writes another tree, or none.\<close>

definition tree_same :: "('db \<Rightarrow> content) \<Rightarrow> ('db \<Rightarrow> content) \<Rightarrow> string \<Rightarrow> 'db \<Rightarrow> 'db \<Rightarrow> bool" where
  "tree_same V D t db db' \<longleftrightarrow> V db' t = V db t \<and> tree_grows V D t db db'"

lemma tree_same_refl: "dur_le V D t db \<Longrightarrow> tree_same V D t db db"
  by (simp add: tree_same_def tree_grows_refl)

lemma tree_same_trans: "tree_same V D t a b \<Longrightarrow> tree_same V D t b c \<Longrightarrow> tree_same V D t a c"
  by (auto simp: tree_same_def intro: tree_grows_trans)

lemma tree_same_le: "tree_same V D t a b \<Longrightarrow> dur_le V D t b"
  by (auto simp: tree_same_def intro: tree_grows_dur_le)

lemma insert_other_tree:
  assumes "sled_laws S V D" "dur_le V D t db" "s_insert S db t' k v = (db', r)" "t' \<noteq> t"
  shows "tree_same V D t db db'"
  using assms sled_insert_any [OF assms(1,3)] insert_tree_grows [OF assms(1-3)]
  by (auto simp: tree_same_def upd_content_def)

lemma flush_tree_same:
  assumes "sled_laws S V D" "dur_le V D t db" "s_flush S db = (db', r)"
  shows "tree_same V D t db db'"
  using flush_tree_grows [OF assms] sled_flush_view [OF assms(1,3)] by (simp add: tree_same_def)

lemma insert_fresh_view:
  assumes "sled_laws S V D" "s_insert S db t k b = (db1, r)"
  shows "V db1 t = V db t \<or> V db1 t = (V db t)(k \<mapsto> b)"
  using sled_insert_any [OF assms] by (auto simp: upd_content_def)

lemma insert_ok_view:
  "sled_laws S V D \<Longrightarrow> s_insert S db t k b = (db1, Inr u) \<Longrightarrow> V db1 t = (V db t)(k \<mapsto> b)"
  using sled_insert_ok [of S V D db t k b db1] by (simp add: upd_content_def)

section \<open>A store in memory\<close>

text \<open>An association list of the visible entries and one of the durable entries. No call fails.\<close>

type_synonym mem_db = "((string \<times> bytes) \<times> bytes) list \<times> ((string \<times> bytes) \<times> bytes) list"

definition mem_view :: "mem_db \<Rightarrow> content" where
  "mem_view db t k = map_of (fst db) (t, k)"

definition mem_durable :: "mem_db \<Rightarrow> content" where
  "mem_durable db t k = map_of (snd db) (t, k)"

definition mem_scan :: "mem_db \<Rightarrow> string \<Rightarrow> bytes \<Rightarrow> (string, bytes \<times> bytes) res list" where
  "mem_scan db t p =
     map (\<lambda>e. Inr (snd (fst e), the (map_of (fst db) (fst e))))
       (filter (\<lambda>e. fst (fst e) = t \<and> prefix p (snd (fst e))) (fst db))"

definition mem_sled :: "mem_db sled" where
  "mem_sled = \<lparr>
     s_get = (\<lambda>db t k. Inr (map_of (fst db) (t, k))),
     s_contains_key = (\<lambda>db t k. Inr (map_of (fst db) (t, k) \<noteq> None)),
     s_insert = (\<lambda>db t k v. ((((t, k), v) # fst db, snd db), Inr ())),
     s_scan_prefix = mem_scan,
     s_flush = (\<lambda>db. ((fst db, fst db), Inr ())),
     s_remove = (\<lambda>db t k. ((filter (\<lambda>e. fst e \<noteq> (t, k)) (fst db), snd db), Inr ())) \<rparr>"

lemma mem_scan_set:
  "set (mem_scan db t p) = Inr ` {(k, v). mem_view db t k = Some v \<and> prefix p k}"
proof (intro set_eqI iffI)
  fix x assume "x \<in> set (mem_scan db t p)"
  then obtain k v where x: "x = Inr (k, the (map_of (fst db) (t, k)))"
    and "((t, k), v) \<in> set (fst db)" "prefix p k"
    by (auto simp: mem_scan_def)
  moreover from this(2) obtain w where "map_of (fst db) (t, k) = Some w"
    by (metis map_of_eq_None_iff not_None_eq image_eqI fst_conv)
  ultimately show "x \<in> Inr ` {(k, v). mem_view db t k = Some v \<and> prefix p k}"
    by (auto simp: mem_view_def)
next
  fix x :: "(string, bytes \<times> bytes) res"
  assume "x \<in> Inr ` {(k, v). mem_view db t k = Some v \<and> prefix p k}"
  then obtain k v where x: "x = Inr (k, v)" and m: "map_of (fst db) (t, k) = Some v" "prefix p k"
    by (auto simp: mem_view_def)
  from m(1) have "((t, k), v) \<in> set (fst db)" by (rule map_of_SomeD)
  with m have "((t, k), v) \<in> set (filter (\<lambda>e. fst (fst e) = t \<and> prefix p (snd (fst e))) (fst db))"
    by simp
  then have "(\<lambda>e. Inr (snd (fst e), the (map_of (fst db) (fst e)))) ((t, k), v) \<in> set (mem_scan db t p)"
    unfolding mem_scan_def set_map by (rule imageI)
  with x m show "x \<in> set (mem_scan db t p)" by simp
qed

lemma mem_empty: "mem_view ([], b) t = Map.empty" "mem_durable (a, []) t = Map.empty"
  by (auto simp: mem_view_def mem_durable_def)

lemma mem_sled_laws: "sled_laws mem_sled mem_view mem_durable"
proof -
  have "read_laws mem_sled mem_view"
    by (auto simp: read_laws_def mem_sled_def mem_scan_set) (simp_all add: mem_view_def)
  moreover have "insert_laws mem_sled mem_view mem_durable"
    by (auto simp: insert_laws_def mem_sled_def mem_view_def mem_durable_def upd_content_def
        fun_eq_iff)
  moreover have "flush_laws mem_sled mem_view mem_durable"
    by (auto simp: flush_laws_def mem_sled_def mem_view_def mem_durable_def fun_eq_iff)
  ultimately show ?thesis by (simp add: sled_laws_def)
qed

lemma mem_sled_fault_free: "fault_free mem_sled"
  by (auto simp: fault_free_def mem_sled_def mem_scan_def)

text \<open>The same store with a scan that lists every key once.\<close>

definition once_sled :: "mem_db sled" where
  "once_sled = mem_sled\<lparr>s_scan_prefix := (\<lambda>db t p. remdups (mem_scan db t p))\<rparr>"

lemma mem_sled_scan: "s_scan_prefix mem_sled = mem_scan"
  by (simp add: mem_sled_def)

lemma once_sled_laws: "sled_laws once_sled mem_view mem_durable"
  using mem_sled_laws
  unfolding once_sled_def sled_laws_def read_laws_def insert_laws_def flush_laws_def
  by (simp add: mem_sled_scan)

lemma once_sled_fault_free: "fault_free once_sled"
  using mem_sled_fault_free unfolding once_sled_def fault_free_def by (simp add: mem_sled_scan)

lemma map_of_filter_key: "map_of (filter (\<lambda>e. fst e \<noteq> k) xs) = (map_of xs)(k := None)"
  by (induction xs) auto

lemma once_sled_remove: "remove_laws once_sled mem_view"
  by (auto simp: remove_laws_def once_sled_def mem_sled_def mem_view_def map_of_filter_key fun_eq_iff)

end
