(* ===== verification/Signing_Guard.thy ===== *)
theory Signing_Guard
  imports Hsm_Prelude
begin

text \<open>
  The interface between a signer and a slashing protection database. Before it signs, a
  signer asks the database to check a request and record it; it signs only when the
  request is granted. \<open>guard_run\<close> is the set of runs of such a database: requests, and
  steps of its environment (other operations of the database, restarts), in any order.
  The locale \<open>signing_guard\<close> states the contract of check-and-record, and shows once what
  a signer gets from it: the granted requests of a run never conflict. The attestation and
  block databases of \<^verbatim>\<open>slashing_db.rs\<close> and the height database of \<^verbatim>\<open>babylon.rs\<close> are
  instances.
\<close>

inductive guard_run ::
  "('s \<Rightarrow> 'r \<Rightarrow> 's \<times> bool) \<Rightarrow> ('r \<Rightarrow> bool) \<Rightarrow> ('s \<Rightarrow> 's \<Rightarrow> bool) \<Rightarrow> 's \<Rightarrow> 'r list \<Rightarrow> 's \<Rightarrow> bool"
  for request legit env s0 where
  start: "guard_run request legit env s0 [] s0"
| grant: "guard_run request legit env s0 rs s \<Longrightarrow> legit r \<Longrightarrow> request s r = (s', True) \<Longrightarrow>
     guard_run request legit env s0 (rs @ [r]) s'"
| refuse: "guard_run request legit env s0 rs s \<Longrightarrow> legit r \<Longrightarrow> request s r = (s', False) \<Longrightarrow>
     guard_run request legit env s0 rs s'"
| environment: "guard_run request legit env s0 rs s \<Longrightarrow> env s s' \<Longrightarrow>
     guard_run request legit env s0 rs s'"

text \<open>The same steps with the next state computed.\<close>

lemma guard_run_grant:
  "guard_run request legit env s0 rs s \<Longrightarrow> legit r \<Longrightarrow> snd (request s r) \<Longrightarrow>
   guard_run request legit env s0 (rs @ [r]) (fst (request s r))"
  by (cases "request s r") (auto intro: guard_run.grant)

lemma guard_run_refuse:
  "guard_run request legit env s0 rs s \<Longrightarrow> legit r \<Longrightarrow> \<not> snd (request s r) \<Longrightarrow>
   guard_run request legit env s0 rs (fst (request s r))"
  by (cases "request s r") (auto intro: guard_run.refuse)

text \<open>A client that turns its own requests into requests of the guard.\<close>

lemma guard_run_map:
  assumes "guard_run request' legit' env s0 rs s"
    and "\<And>s r. request' s r = request s (f r)" and "\<And>r. legit' r \<Longrightarrow> legit (f r)"
  shows "guard_run request legit env s0 (map f rs) s" and "\<forall>r \<in> set rs. legit' r"
  using assms(1)
proof (induction rule: guard_run.induct)
  case (grant rs s r s')
  case 1
  then show ?case using grant assms(2,3) guard_run.grant [of request legit env s0 "map f rs" s "f r" s'] by simp
  case 2
  then show ?case using grant by auto
next
  case (refuse rs s r s')
  case 1
  then show ?case using refuse assms(2,3) guard_run.refuse [of request legit env s0 "map f rs" s "f r" s'] by simp
  case 2
  then show ?case using refuse by auto
qed (auto intro: guard_run.start guard_run.environment)

locale signing_guard =
  fixes inv :: "'s \<Rightarrow> bool"
    and request :: "'s \<Rightarrow> 'r \<Rightarrow> 's \<times> bool"
    and legit :: "'r \<Rightarrow> bool"
    and env :: "'s \<Rightarrow> 's \<Rightarrow> bool"
    and recorded :: "'s \<Rightarrow> 'r \<Rightarrow> bool"
    and conflict :: "'r \<Rightarrow> 'r \<Rightarrow> bool"
  assumes request_inv: "inv s \<Longrightarrow> legit r \<Longrightarrow> request s r = (s', b) \<Longrightarrow> inv s'"
    and env_inv: "inv s \<Longrightarrow> env s s' \<Longrightarrow> inv s'"
    and grant_recorded: "inv s \<Longrightarrow> legit r \<Longrightarrow> request s r = (s', True) \<Longrightarrow> recorded s' r"
    and request_keeps: "inv s \<Longrightarrow> legit r \<Longrightarrow> request s r = (s', b) \<Longrightarrow> recorded s q \<Longrightarrow> recorded s' q"
    and env_keeps: "inv s \<Longrightarrow> env s s' \<Longrightarrow> recorded s q \<Longrightarrow> recorded s' q"
    and grant_apart: "inv s \<Longrightarrow> legit r \<Longrightarrow> request s r = (s', True) \<Longrightarrow> recorded s q \<Longrightarrow> \<not> conflict q r"
begin

lemma run_inv: "guard_run request legit env s0 rs s \<Longrightarrow> inv s0 \<Longrightarrow> inv s"
  by (induction rule: guard_run.induct) (auto intro: request_inv env_inv)

lemma run_recorded:
  "guard_run request legit env s0 rs s \<Longrightarrow> inv s0 \<Longrightarrow> q \<in> set rs \<Longrightarrow> recorded s q"
proof (induction rule: guard_run.induct)
  case start
  then show ?case by simp
next
  case (grant rs s r s')
  then have "inv s" using run_inv by blast
  with grant show ?case
    by (cases "q = r") (auto intro: grant_recorded request_keeps)
next
  case (refuse rs s r s')
  then have "inv s" using run_inv by blast
  with refuse show ?case by (auto intro: request_keeps)
next
  case (environment rs s s')
  then have "inv s" using run_inv by blast
  with environment show ?case by (auto intro: env_keeps)
qed

lemma run_apart:
  "guard_run request legit env s0 rs s \<Longrightarrow> inv s0 \<Longrightarrow> pairwise_apart (\<lambda>q r. \<not> conflict q r) rs"
proof (induction rule: guard_run.induct)
  case (grant rs s r s')
  then have "inv s" using run_inv by blast
  moreover have "recorded s q" if "q \<in> set rs" for q
    using grant that run_recorded by blast
  ultimately show ?case
    using grant by (auto simp: pairwise_apart_snoc dest: grant_apart)
qed auto

end

end
