(* ===== verification/Slashing_Db.thy ===== *)
theory Slashing_Db
  imports Sled_Store Signing_Guard
begin

text \<open>
  The Ethereum slashing protection database, \<^verbatim>\<open>crates/validator/src/slashing_db.rs\<close>, with
  the types of \<^verbatim>\<open>types.rs\<close> and the errors of \<^verbatim>\<open>error.rs\<close>. The persistent part of the state
  is a database of the store parameter \<open>S\<close>; the JSON encoding of the records and the hex
  encoding of error messages (crates \<^verbatim>\<open>serde_json\<close> and \<^verbatim>\<open>hex\<close>) are the parameter \<open>C\<close>.
  Every operation holds the lock of its validator from its first to its last access, so an
  operation is one atomic function. The current time, in nanoseconds since the epoch, is an
  argument.
\<close>

section \<open>Data\<close>

type_synonym epoch = u64
type_synonym slot = u64
type_synonym time = int

datatype validator_status = Active | Disabled | Slashed | Exiting | Exited

record validator_data =
  vd_public_key :: bytes
  vd_status :: validator_status
  vd_min_source_epoch :: "epoch option"
  vd_min_target_epoch :: "epoch option"
  vd_min_slot :: "slot option"
  vd_created_at :: time
  vd_updated_at :: time

record attestation_data =
  ad_source_epoch :: epoch
  ad_target_epoch :: epoch
  ad_signing_root :: bytes
  ad_signed_at :: time

record block_data =
  bd_slot :: slot
  bd_signing_root :: bytes
  bd_signed_at :: time

record slashing_stats =
  attestations_signed :: u64
  blocks_signed :: u64
  slashable_prevented :: u64
  double_votes_prevented :: u64
  surrounding_votes_prevented :: u64
  surrounded_votes_prevented :: u64
  double_blocks_prevented :: u64

datatype slashing_error =
    DoubleVote epoch string string
  | SurroundingVote epoch epoch epoch epoch
  | SurroundedVote epoch epoch epoch epoch
  | DoubleBlockProposal slot string string
  | EotsDoubleSign u64
  | SourceEpochTooLow epoch epoch
  | TargetEpochTooLow epoch epoch
  | SlotTooLow slot slot
  | DatabaseError string

datatype validator_error =
    Slashing slashing_error
  | ValidatorNotFound string
  | ValidatorAlreadyExists string
  | InvalidPublicKey string
  | InvalidSignature string
  | Database string
  | Crypto string
  | Serialization string
  | InvalidInterchange string
  | Io string
  | Internal string

text \<open>The \<^verbatim>\<open>Display\<close> of the errors: the \<^verbatim>\<open>#[error(...)]\<close> formats of \<^verbatim>\<open>error.rs\<close>.\<close>

definition show_u64 :: "u64 \<Rightarrow> string" where
  "show_u64 w = show_nat (unat w)"

fun show_slashing_error :: "slashing_error \<Rightarrow> string" where
  "show_slashing_error (DoubleVote t ex att) =
     ''SLASHING PREVENTED: Double vote detected at target epoch '' @ show_u64 t @
     ''. Existing root: '' @ ex @ '', attempted root: '' @ att"
| "show_slashing_error (SurroundingVote ns nt es et) =
     ''SLASHING PREVENTED: Surrounding vote detected. New attestation (source: '' @ show_u64 ns @
     '', target: '' @ show_u64 nt @ '') surrounds existing attestation (source: '' @ show_u64 es @
     '', target: '' @ show_u64 et @ '')''"
| "show_slashing_error (SurroundedVote ns nt es et) =
     ''SLASHING PREVENTED: Surrounded vote detected. New attestation (source: '' @ show_u64 ns @
     '', target: '' @ show_u64 nt @ '') is surrounded by existing attestation (source: '' @
     show_u64 es @ '', target: '' @ show_u64 et @ '')''"
| "show_slashing_error (DoubleBlockProposal sl ex att) =
     ''SLASHING PREVENTED: Double block proposal at slot '' @ show_u64 sl @
     ''. Existing root: '' @ ex @ '', attempted root: '' @ att"
| "show_slashing_error (EotsDoubleSign h) =
     ''SLASHING PREVENTED: Double sign at height '' @ show_u64 h @
     ''. EOTS key would be extractable if signed twice at same height.''"
| "show_slashing_error (SourceEpochTooLow e m) =
     ''SLASHING PREVENTED: Attestation source epoch '' @ show_u64 e @
     '' is not greater than minimum source epoch '' @ show_u64 m"
| "show_slashing_error (TargetEpochTooLow e m) =
     ''SLASHING PREVENTED: Attestation target epoch '' @ show_u64 e @
     '' is not greater than minimum target epoch '' @ show_u64 m"
| "show_slashing_error (SlotTooLow sl m) =
     ''SLASHING PREVENTED: Block slot '' @ show_u64 sl @
     '' is not greater than minimum slot '' @ show_u64 m"
| "show_slashing_error (DatabaseError m) = ''Database error: '' @ m"

fun show_validator_error :: "validator_error \<Rightarrow> string" where
  "show_validator_error (Slashing e) = show_slashing_error e"
| "show_validator_error (ValidatorNotFound pk) = ''Validator not found: '' @ pk"
| "show_validator_error (ValidatorAlreadyExists pk) = ''Validator already registered: '' @ pk"
| "show_validator_error (InvalidPublicKey r) = ''Invalid public key: '' @ r"
| "show_validator_error (InvalidSignature r) = ''Invalid signature: '' @ r"
| "show_validator_error (Database m) = ''Database error: '' @ m"
| "show_validator_error (Crypto m) = ''Cryptographic error: '' @ m"
| "show_validator_error (Serialization m) = ''Serialization error: '' @ m"
| "show_validator_error (InvalidInterchange r) = ''Invalid EIP-3076 interchange format: '' @ r"
| "show_validator_error (Io m) = ''IO error: '' @ m"
| "show_validator_error (Internal m) = ''Internal error: '' @ m"

text \<open>The encodings of third-party crates the database calls.\<close>

record codec =
  hex_encode :: "bytes \<Rightarrow> string"
  ser_validator :: "validator_data \<Rightarrow> (string, bytes) res"
  de_validator :: "bytes \<Rightarrow> (string, validator_data) res"
  ser_attestation :: "attestation_data \<Rightarrow> (string, bytes) res"
  de_attestation :: "bytes \<Rightarrow> (string, attestation_data) res"
  ser_block :: "block_data \<Rightarrow> (string, bytes) res"
  de_block :: "bytes \<Rightarrow> (string, block_data) res"

definition codec_laws :: "codec \<Rightarrow> bool" where
  "codec_laws C \<longleftrightarrow>
     (\<forall>x b. ser_validator C x = Inr b \<longrightarrow> de_validator C b = Inr x) \<and>
     (\<forall>x b. ser_attestation C x = Inr b \<longrightarrow> de_attestation C b = Inr x) \<and>
     (\<forall>x b. ser_block C x = Inr b \<longrightarrow> de_block C b = Inr x)"

text \<open>The derived serializers of these plain structs do not fail.\<close>

definition codec_total :: "codec \<Rightarrow> bool" where
  "codec_total C \<longleftrightarrow>
     (\<forall>x. \<exists>b. ser_validator C x = Inr b) \<and> (\<forall>x. \<exists>b. ser_attestation C x = Inr b) \<and>
     (\<forall>x. \<exists>b. ser_block C x = Inr b)"

definition VALIDATORS_TREE :: string where "VALIDATORS_TREE = ''validators''"
definition ATTESTATIONS_TREE :: string where "ATTESTATIONS_TREE = ''attestations''"
definition BLOCKS_TREE :: string where "BLOCKS_TREE = ''blocks''"

lemmas tree_names = VALIDATORS_TREE_def ATTESTATIONS_TREE_def BLOCKS_TREE_def

record 'db slashing_db =
  sdb :: 'db
  stats :: slashing_stats

definition default_stats :: slashing_stats where
  "default_stats = \<lparr>attestations_signed = 0, blocks_signed = 0, slashable_prevented = 0,
     double_votes_prevented = 0, surrounding_votes_prevented = 0,
     surrounded_votes_prevented = 0, double_blocks_prevented = 0\<rparr>"

text \<open>\<^verbatim>\<open>open\<close>: the trees of the database with fresh counters.\<close>

definition open_db :: "'db \<Rightarrow> 'db slashing_db" where
  "open_db db = \<lparr>sdb = db, stats = default_stats\<rparr>"

definition to_hex :: "codec \<Rightarrow> bytes \<Rightarrow> string" where
  "to_hex C root = ''0x'' @ hex_encode C root"

section \<open>Validator records and keys\<close>

definition is_registered :: "'db sled \<Rightarrow> 'db slashing_db \<Rightarrow> bytes \<Rightarrow> (validator_error, bool) res" where
  "is_registered S s pk = map_err Database (s_contains_key S (sdb s) VALIDATORS_TREE pk)"

definition register_validator ::
  "'db sled \<Rightarrow> codec \<Rightarrow> 'db slashing_db \<Rightarrow> bytes \<Rightarrow> time \<Rightarrow> 'db slashing_db \<times> (validator_error, unit) res" where
  "register_validator S C s pk now =
     (if length pk \<noteq> 48
      then (s, Inl (InvalidPublicKey (''Expected 48 bytes, got '' @ show_nat (length pk))))
      else case s_contains_key S (sdb s) VALIDATORS_TREE pk of
        Inl e \<Rightarrow> (s, Inl (Database e))
      | Inr True \<Rightarrow> (s, Inl (ValidatorAlreadyExists (hex_encode C pk)))
      | Inr False \<Rightarrow>
          (case ser_validator C \<lparr>vd_public_key = pk, vd_status = Active,
                  vd_min_source_epoch = None, vd_min_target_epoch = None, vd_min_slot = None,
                  vd_created_at = now, vd_updated_at = now\<rparr> of
             Inl e \<Rightarrow> (s, Inl (Serialization e))
           | Inr encoded \<Rightarrow>
               (case s_insert S (sdb s) VALIDATORS_TREE pk encoded of
                  (db', r) \<Rightarrow> (s\<lparr>sdb := db'\<rparr>, map_err Database r))))"

definition get_validator_data ::
  "'db sled \<Rightarrow> codec \<Rightarrow> 'db slashing_db \<Rightarrow> bytes \<Rightarrow> (validator_error, validator_data) res" where
  "get_validator_data S C s pk =
     bind_res (map_err Database (s_get S (sdb s) VALIDATORS_TREE pk)) (\<lambda>r.
     bind_res (ok_or (ValidatorNotFound (hex_encode C pk)) r) (\<lambda>encoded.
     map_err Serialization (de_validator C encoded)))"

definition update_validator_data ::
  "'db sled \<Rightarrow> codec \<Rightarrow> 'db slashing_db \<Rightarrow> validator_data \<Rightarrow> 'db slashing_db \<times> (validator_error, unit) res" where
  "update_validator_data S C s d =
     (case ser_validator C d of
        Inl e \<Rightarrow> (s, Inl (Serialization e))
      | Inr encoded \<Rightarrow>
          (case s_insert S (sdb s) VALIDATORS_TREE (vd_public_key d) encoded of
             (db', r) \<Rightarrow> (s\<lparr>sdb := db'\<rparr>, map_err Database r)))"

definition attestation_key_prefix :: "bytes \<Rightarrow> bytes" where
  "attestation_key_prefix pk = pk @ [58]"

definition attestation_key :: "bytes \<Rightarrow> epoch \<Rightarrow> bytes" where
  "attestation_key pk t = attestation_key_prefix pk @ to_be_bytes t"

definition block_key_prefix :: "bytes \<Rightarrow> bytes" where
  "block_key_prefix pk = pk @ [58]"

definition block_key :: "bytes \<Rightarrow> slot \<Rightarrow> bytes" where
  "block_key pk n = block_key_prefix pk @ to_be_bytes n"

lemma attestation_key_inject [simp]:
  "attestation_key pk t = attestation_key pk' t' \<longleftrightarrow> pk = pk' \<and> t = t'"
  by (auto simp: attestation_key_def attestation_key_prefix_def append_same_suffix_length)

lemma block_key_inject [simp]:
  "block_key pk t = block_key pk' t' \<longleftrightarrow> pk = pk' \<and> t = t'"
  by (auto simp: block_key_def block_key_prefix_def append_same_suffix_length)

lemma prefix_attestation_key: "prefix (attestation_key_prefix pk) (attestation_key pk t)"
  by (simp add: attestation_key_def)

section \<open>Check and record an attestation\<close>

definition prevented :: "'db slashing_db \<Rightarrow> 'db slashing_db" where
  "prevented s = s\<lparr>stats := (stats s)\<lparr>slashable_prevented := slashable_prevented (stats s) + 1\<rparr>\<rparr>"

definition prevented_double_vote :: "'db slashing_db \<Rightarrow> 'db slashing_db" where
  "prevented_double_vote s = (let s = prevented s in
     s\<lparr>stats := (stats s)\<lparr>double_votes_prevented := double_votes_prevented (stats s) + 1\<rparr>\<rparr>)"

definition prevented_surrounding :: "'db slashing_db \<Rightarrow> 'db slashing_db" where
  "prevented_surrounding s = (let s = prevented s in
     s\<lparr>stats := (stats s)\<lparr>surrounding_votes_prevented := surrounding_votes_prevented (stats s) + 1\<rparr>\<rparr>)"

definition prevented_surrounded :: "'db slashing_db \<Rightarrow> 'db slashing_db" where
  "prevented_surrounded s = (let s = prevented s in
     s\<lparr>stats := (stats s)\<lparr>surrounded_votes_prevented := surrounded_votes_prevented (stats s) + 1\<rparr>\<rparr>)"

definition prevented_double_block :: "'db slashing_db \<Rightarrow> 'db slashing_db" where
  "prevented_double_block s = (let s = prevented s in
     s\<lparr>stats := (stats s)\<lparr>double_blocks_prevented := double_blocks_prevented (stats s) + 1\<rparr>\<rparr>)"

lemma sdb_prevented [simp]:
  "sdb (prevented s) = sdb s" "sdb (prevented_double_vote s) = sdb s"
  "sdb (prevented_surrounding s) = sdb s" "sdb (prevented_surrounded s) = sdb s"
  "sdb (prevented_double_block s) = sdb s"
  by (simp_all add: prevented_def prevented_double_vote_def prevented_surrounding_def
      prevented_surrounded_def prevented_double_block_def Let_def)

text \<open>Check 3 of the code, done first: \<open>Inr True\<close> is an identical repeat (the caller returns
  \<^verbatim>\<open>Ok\<close> at once), \<open>Inr False\<close> is no record at this target epoch.\<close>

definition double_vote_check ::
  "'db sled \<Rightarrow> codec \<Rightarrow> 'db slashing_db \<Rightarrow> bytes \<Rightarrow> epoch \<Rightarrow> bytes \<Rightarrow>
   'db slashing_db \<times> (slashing_error, bool) res" where
  "double_vote_check S C s pk tgt root =
     (case s_get S (sdb s) ATTESTATIONS_TREE (attestation_key pk tgt) of
        Inr (Some existing) \<Rightarrow>
          (case de_attestation C existing of
             Inl _ \<Rightarrow> (s, Inl (DoubleVote tgt ''unknown'' (to_hex C root)))
           | Inr ex \<Rightarrow>
               if ad_signing_root ex \<noteq> root
               then (prevented_double_vote s,
                     Inl (DoubleVote tgt (hex_encode C (ad_signing_root ex)) (to_hex C root)))
               else (s, Inr True))
      | Inr None \<Rightarrow> (s, Inr False)
      | Inl e \<Rightarrow> (prevented s, Inl (DatabaseError (''Failed to read attestation record: '' @ e))))"

text \<open>Checks 1 and 2: the minimum source and target epochs.\<close>

definition min_epoch_check ::
  "'db slashing_db \<Rightarrow> validator_data \<Rightarrow> epoch \<Rightarrow> epoch \<Rightarrow> 'db slashing_db \<times> (slashing_error, unit) res" where
  "min_epoch_check s d src tgt =
     (case vd_min_source_epoch d of
        Some min_source \<Rightarrow> if src < min_source then (prevented s, Inl (SourceEpochTooLow src min_source))
          else (case vd_min_target_epoch d of
                  Some min_target \<Rightarrow> if tgt \<le> min_target
                    then (prevented s, Inl (TargetEpochTooLow tgt min_target)) else (s, Inr ())
                | None \<Rightarrow> (s, Inr ()))
      | None \<Rightarrow> (case vd_min_target_epoch d of
                  Some min_target \<Rightarrow> if tgt \<le> min_target
                    then (prevented s, Inl (TargetEpochTooLow tgt min_target)) else (s, Inr ())
                | None \<Rightarrow> (s, Inr ())))"

text \<open>Checks 4 and 5: the loop over all attestations of the validator.\<close>

fun surround_check ::
  "codec \<Rightarrow> epoch \<Rightarrow> epoch \<Rightarrow> (string, bytes \<times> bytes) res list \<Rightarrow> 'db slashing_db \<Rightarrow>
   'db slashing_db \<times> (slashing_error, unit) res" where
  "surround_check C src tgt [] s = (s, Inr ())"
| "surround_check C src tgt (Inl _ # items) s = (s, Inl (SurroundingVote src tgt 0 0))"
| "surround_check C src tgt (Inr (_, value) # items) s =
     (case de_attestation C value of
        Inl _ \<Rightarrow> (s, Inl (SurroundingVote src tgt 0 0))
      | Inr ex \<Rightarrow>
          if src < ad_source_epoch ex \<and> tgt > ad_target_epoch ex
          then (prevented_surrounding s,
                Inl (SurroundingVote src tgt (ad_source_epoch ex) (ad_target_epoch ex)))
          else if src > ad_source_epoch ex \<and> tgt < ad_target_epoch ex
          then (prevented_surrounded s,
                Inl (SurroundedVote src tgt (ad_source_epoch ex) (ad_target_epoch ex)))
          else surround_check C src tgt items s)"

text \<open>All checks passed: insert the record, update the validator, flush, count.\<close>

definition record_attestation ::
  "'db sled \<Rightarrow> codec \<Rightarrow> 'db slashing_db \<Rightarrow> validator_data \<Rightarrow> bytes \<Rightarrow> epoch \<Rightarrow> epoch \<Rightarrow> bytes \<Rightarrow> time \<Rightarrow>
   'db slashing_db \<times> (slashing_error, unit) res" where
  "record_attestation S C s d pk src tgt root now =
     (case ser_attestation C \<lparr>ad_source_epoch = src, ad_target_epoch = tgt,
             ad_signing_root = root, ad_signed_at = now\<rparr> of
        Inl _ \<Rightarrow> (s, Inl (DoubleVote tgt ''serialization error'' (to_hex C root)))
      | Inr encoded \<Rightarrow>
          (case s_insert S (sdb s) ATTESTATIONS_TREE (attestation_key pk tgt) encoded of
             (db1, Inl _) \<Rightarrow> (s\<lparr>sdb := db1\<rparr>, Inl (DoubleVote tgt ''database error'' (to_hex C root)))
           | (db1, Inr _) \<Rightarrow>
               (case update_validator_data S C (s\<lparr>sdb := db1\<rparr>) (d\<lparr>vd_updated_at := now\<rparr>) of
                  (s2, Inl e) \<Rightarrow> (s2,
                     Inl (DatabaseError (''Failed to persist validator data: '' @ show_validator_error e)))
                | (s2, Inr _) \<Rightarrow>
                    (case s_flush S (sdb s2) of
                       (db3, Inl e) \<Rightarrow> (s2\<lparr>sdb := db3\<rparr>,
                          Inl (DatabaseError (''Failed to flush attestation record: '' @ e)))
                     | (db3, Inr _) \<Rightarrow>
                         (s2\<lparr>sdb := db3, stats := (stats s2)\<lparr>attestations_signed :=
                            attestations_signed (stats s2) + 1\<rparr>\<rparr>, Inr ())))))"

definition check_and_record_attestation ::
  "'db sled \<Rightarrow> codec \<Rightarrow> 'db slashing_db \<Rightarrow> bytes \<Rightarrow> epoch \<Rightarrow> epoch \<Rightarrow> bytes \<Rightarrow> time \<Rightarrow>
   'db slashing_db \<times> (slashing_error, unit) res" where
  "check_and_record_attestation S C s pk src tgt root now =
     (case get_validator_data S C s pk of
        Inl _ \<Rightarrow> (s, Inl (SourceEpochTooLow src 0))
      | Inr d \<Rightarrow>
          (case double_vote_check S C s pk tgt root of
             (s1, Inl e) \<Rightarrow> (s1, Inl e)
           | (s1, Inr True) \<Rightarrow> (s1, Inr ())
           | (s1, Inr False) \<Rightarrow>
               (case min_epoch_check s1 d src tgt of
                  (s2, Inl e) \<Rightarrow> (s2, Inl e)
                | (s2, Inr _) \<Rightarrow>
                    (case surround_check C src tgt
                            (s_scan_prefix S (sdb s2) ATTESTATIONS_TREE (attestation_key_prefix pk)) s2 of
                       (s3, Inl e) \<Rightarrow> (s3, Inl e)
                     | (s3, Inr _) \<Rightarrow> record_attestation S C s3 d pk src tgt root now))))"

section \<open>Check and record a block proposal\<close>

definition double_block_check ::
  "'db sled \<Rightarrow> codec \<Rightarrow> 'db slashing_db \<Rightarrow> bytes \<Rightarrow> slot \<Rightarrow> bytes \<Rightarrow>
   'db slashing_db \<times> (slashing_error, bool) res" where
  "double_block_check S C s pk sl root =
     (case s_get S (sdb s) BLOCKS_TREE (block_key pk sl) of
        Inr (Some existing) \<Rightarrow>
          (case de_block C existing of
             Inl _ \<Rightarrow> (s, Inl (DoubleBlockProposal sl ''unknown'' (to_hex C root)))
           | Inr ex \<Rightarrow>
               if bd_signing_root ex \<noteq> root
               then (prevented_double_block s,
                     Inl (DoubleBlockProposal sl (hex_encode C (bd_signing_root ex)) (to_hex C root)))
               else (s, Inr True))
      | Inr None \<Rightarrow> (s, Inr False)
      | Inl e \<Rightarrow> (prevented s, Inl (DatabaseError (''Failed to read block record: '' @ e))))"

definition record_block ::
  "'db sled \<Rightarrow> codec \<Rightarrow> 'db slashing_db \<Rightarrow> validator_data \<Rightarrow> bytes \<Rightarrow> slot \<Rightarrow> bytes \<Rightarrow> time \<Rightarrow>
   'db slashing_db \<times> (slashing_error, unit) res" where
  "record_block S C s d pk sl root now =
     (case ser_block C \<lparr>bd_slot = sl, bd_signing_root = root, bd_signed_at = now\<rparr> of
        Inl _ \<Rightarrow> (s, Inl (DoubleBlockProposal sl ''serialization error'' (to_hex C root)))
      | Inr encoded \<Rightarrow>
          (case s_insert S (sdb s) BLOCKS_TREE (block_key pk sl) encoded of
             (db1, Inl _) \<Rightarrow> (s\<lparr>sdb := db1\<rparr>, Inl (DoubleBlockProposal sl ''database error'' (to_hex C root)))
           | (db1, Inr _) \<Rightarrow>
               (case update_validator_data S C (s\<lparr>sdb := db1\<rparr>) (d\<lparr>vd_updated_at := now\<rparr>) of
                  (s2, Inl e) \<Rightarrow> (s2,
                     Inl (DatabaseError (''Failed to persist validator data: '' @ show_validator_error e)))
                | (s2, Inr _) \<Rightarrow>
                    (case s_flush S (sdb s2) of
                       (db3, Inl e) \<Rightarrow> (s2\<lparr>sdb := db3\<rparr>,
                          Inl (DatabaseError (''Failed to flush block record: '' @ e)))
                     | (db3, Inr _) \<Rightarrow>
                         (s2\<lparr>sdb := db3, stats := (stats s2)\<lparr>blocks_signed :=
                            blocks_signed (stats s2) + 1\<rparr>\<rparr>, Inr ())))))"

definition check_and_record_block ::
  "'db sled \<Rightarrow> codec \<Rightarrow> 'db slashing_db \<Rightarrow> bytes \<Rightarrow> slot \<Rightarrow> bytes \<Rightarrow> time \<Rightarrow>
   'db slashing_db \<times> (slashing_error, unit) res" where
  "check_and_record_block S C s pk sl root now =
     (case get_validator_data S C s pk of
        Inl _ \<Rightarrow> (s, Inl (SlotTooLow sl 0))
      | Inr d \<Rightarrow>
          (case double_block_check S C s pk sl root of
             (s1, Inl e) \<Rightarrow> (s1, Inl e)
           | (s1, Inr True) \<Rightarrow> (s1, Inr ())
           | (s1, Inr False) \<Rightarrow>
               (case vd_min_slot d of
                  Some min_slot \<Rightarrow>
                    if sl \<le> min_slot then (prevented s1, Inl (SlotTooLow sl min_slot))
                    else record_block S C s1 d pk sl root now
                | None \<Rightarrow> record_block S C s1 d pk sl root now)))"

section \<open>Queries and watermarks\<close>

definition decode_items ::
  "(bytes \<Rightarrow> (string, 'a) res) \<Rightarrow> (string, bytes \<times> bytes) res list \<Rightarrow> (validator_error, 'a list) res" where
  "decode_items de items =
     map_res (\<lambda>item. bind_res (map_err Database item) (\<lambda>kv. map_err Serialization (de (snd kv)))) items"

definition get_attestation_records ::
  "'db sled \<Rightarrow> codec \<Rightarrow> 'db slashing_db \<Rightarrow> bytes \<Rightarrow> (validator_error, attestation_data list) res" where
  "get_attestation_records S C s pk =
     decode_items (de_attestation C)
       (s_scan_prefix S (sdb s) ATTESTATIONS_TREE (attestation_key_prefix pk))"

definition get_block_records ::
  "'db sled \<Rightarrow> codec \<Rightarrow> 'db slashing_db \<Rightarrow> bytes \<Rightarrow> (validator_error, block_data list) res" where
  "get_block_records S C s pk =
     decode_items (de_block C) (s_scan_prefix S (sdb s) BLOCKS_TREE (block_key_prefix pk))"

record validator_summary =
  vs_public_key :: bytes
  vs_status :: validator_status
  vs_min_source_epoch :: "epoch option"
  vs_min_target_epoch :: "epoch option"
  vs_min_slot :: "slot option"
  vs_attestation_count :: u64
  vs_block_count :: u64
  vs_last_activity :: "time option"

definition get_validator_summary ::
  "'db sled \<Rightarrow> codec \<Rightarrow> 'db slashing_db \<Rightarrow> bytes \<Rightarrow> (validator_error, validator_summary) res" where
  "get_validator_summary S C s pk =
     bind_res (get_validator_data S C s pk) (\<lambda>d. Inr \<lparr>vs_public_key = vd_public_key d,
       vs_status = vd_status d, vs_min_source_epoch = vd_min_source_epoch d,
       vs_min_target_epoch = vd_min_target_epoch d, vs_min_slot = vd_min_slot d,
       vs_attestation_count =
         word_of_nat (length (s_scan_prefix S (sdb s) ATTESTATIONS_TREE (attestation_key_prefix pk))),
       vs_block_count =
         word_of_nat (length (s_scan_prefix S (sdb s) BLOCKS_TREE (block_key_prefix pk))),
       vs_last_activity = Some (vd_updated_at d)\<rparr>)"

definition set_validator_data ::
  "'db sled \<Rightarrow> codec \<Rightarrow> 'db slashing_db \<Rightarrow> bytes \<Rightarrow> (validator_data \<Rightarrow> validator_data) \<Rightarrow>
   'db slashing_db \<times> (validator_error, unit) res" where
  "set_validator_data S C s pk f =
     (case get_validator_data S C s pk of
        Inl e \<Rightarrow> (s, Inl e)
      | Inr d \<Rightarrow> update_validator_data S C s (f d))"

definition set_min_source_epoch where
  "set_min_source_epoch S C s pk e now =
     set_validator_data S C s pk (\<lambda>d. d\<lparr>vd_min_source_epoch := Some e, vd_updated_at := now\<rparr>)"

definition set_min_target_epoch where
  "set_min_target_epoch S C s pk e now =
     set_validator_data S C s pk (\<lambda>d. d\<lparr>vd_min_target_epoch := Some e, vd_updated_at := now\<rparr>)"

definition set_min_slot where
  "set_min_slot S C s pk sl now =
     set_validator_data S C s pk (\<lambda>d. d\<lparr>vd_min_slot := Some sl, vd_updated_at := now\<rparr>)"

definition list_validators :: "'db sled \<Rightarrow> 'db slashing_db \<Rightarrow> (validator_error, bytes list) res" where
  "list_validators S s =
     map_res (\<lambda>item. bind_res (map_err Database item) (\<lambda>kv. Inr (fst kv)))
       (s_scan_prefix S (sdb s) VALIDATORS_TREE [])"

definition flush_db :: "'db sled \<Rightarrow> 'db slashing_db \<Rightarrow> 'db slashing_db \<times> (validator_error, unit) res" where
  "flush_db S s = (case s_flush S (sdb s) of (db', r) \<Rightarrow> (s\<lparr>sdb := db'\<rparr>, map_err Database r))"

end
