(* ===== verification/Slashing_Safety.thy ===== *)
theory Slashing_Safety
  imports Slashing_Db
begin

text \<open>
  What the slashing protection database guarantees. The first part follows the content of
  one tree through every operation: attestation and block records are only ever added, and
  only under a fresh key after the checks. The second part gives the effect of the two
  check-and-record functions on their tree, by cases.
\<close>

section \<open>Steps of one tree\<close>

lemma update_validator_data_tree:
  assumes "sled_laws S V D" "dur_le V D t (sdb s)" "t \<noteq> VALIDATORS_TREE"
    "update_validator_data S C s d = (s', r)"
  shows "tree_same V D t (sdb s) (sdb s')"
  using assms
  by (auto simp: update_validator_data_def tree_same_refl split: sum.splits prod.splits
      intro: insert_other_tree [of S V D t "sdb s" VALIDATORS_TREE])

lemma set_validator_data_tree:
  assumes "sled_laws S V D" "dur_le V D t (sdb s)" "t \<noteq> VALIDATORS_TREE"
    "set_validator_data S C s pk f = (s', r)"
  shows "tree_same V D t (sdb s) (sdb s')"
  using assms
  by (auto simp: set_validator_data_def tree_same_refl split: sum.splits
      intro: update_validator_data_tree)

lemma register_validator_tree:
  assumes "sled_laws S V D" "dur_le V D t (sdb s)" "t \<noteq> VALIDATORS_TREE"
    "register_validator S C s pk now = (s', r)"
  shows "tree_same V D t (sdb s) (sdb s')"
  using assms
  by (auto simp: register_validator_def tree_same_refl split: sum.splits prod.splits bool.splits if_splits
      intro: insert_other_tree [of S V D t "sdb s" VALIDATORS_TREE])

lemma flush_db_tree:
  assumes "sled_laws S V D" "dur_le V D t (sdb s)" "flush_db S s = (s', r)"
  shows "tree_same V D t (sdb s) (sdb s')"
  using assms by (auto simp: flush_db_def split: prod.splits intro: flush_tree_same)

text \<open>The operations other than check-and-record.\<close>

inductive admin_step :: "'db sled \<Rightarrow> codec \<Rightarrow> 'db slashing_db \<Rightarrow> 'db slashing_db \<Rightarrow> bool" for S C where
  "register_validator S C s pk now = (s', r) \<Longrightarrow> admin_step S C s s'"
| "set_min_source_epoch S C s pk e now = (s', r) \<Longrightarrow> admin_step S C s s'"
| "set_min_target_epoch S C s pk e now = (s', r) \<Longrightarrow> admin_step S C s s'"
| "set_min_slot S C s pk e now = (s', r) \<Longrightarrow> admin_step S C s s'"
| "flush_db S s = (s', r) \<Longrightarrow> admin_step S C s s'"

lemma admin_step_tree:
  assumes "sled_laws S V D" "dur_le V D t (sdb s)" "t \<noteq> VALIDATORS_TREE" "admin_step S C s s'"
  shows "tree_same V D t (sdb s) (sdb s')"
  using assms(4,1-3)
  by (cases rule: admin_step.cases)
    (auto simp: set_min_source_epoch_def set_min_target_epoch_def set_min_slot_def
      intro: register_validator_tree set_validator_data_tree flush_db_tree)

lemma checks_keep_db:
  "double_vote_check S C s pk tgt root = (s1, r1) \<Longrightarrow> sdb s1 = sdb s"
  "min_epoch_check s d src tgt = (s1, r2) \<Longrightarrow> sdb s1 = sdb s"
  "double_block_check S C s pk tgt root = (s1, r1) \<Longrightarrow> sdb s1 = sdb s"
  by (auto simp: double_vote_check_def min_epoch_check_def double_block_check_def
      split: sum.splits option.splits if_splits)

lemma surround_check_keeps_db: "surround_check C src tgt items s = (s1, r) \<Longrightarrow> sdb s1 = sdb s"
  by (induction C src tgt items s rule: surround_check.induct) (auto split: sum.splits if_splits)

lemma surround_check_passed:
  assumes "surround_check C src tgt items s = (s1, Inr u)" "x \<in> set items"
  shows "\<exists>k v a. x = Inr (k, v) \<and> de_attestation C v = Inr a \<and>
    \<not> (src < ad_source_epoch a \<and> ad_target_epoch a < tgt) \<and>
    \<not> (ad_source_epoch a < src \<and> tgt < ad_target_epoch a)"
  using assms
  by (induction C src tgt items s rule: surround_check.induct) (auto split: sum.splits if_splits)

text \<open>The insert, update, flush sequence that both record functions end with.\<close>

lemma insert_update_tree:
  assumes laws: "sled_laws S V D" and le: "dur_le V D t (sdb s)" and nv: "t \<noteq> VALIDATORS_TREE"
    and new: "V (sdb s) t k = None" and ins: "s_insert S (sdb s) t k b = (db1, r1)"
    and upd: "update_validator_data S C (s\<lparr>sdb := db1\<rparr>) d = (s2, r2)"
  shows "tree_grows V D t (sdb s) (sdb s2) \<and> V (sdb s2) t = V db1 t"
proof -
  have g: "tree_grows V D t (sdb s) db1"
    using insert_tree_grows [OF laws le ins] new by simp
  then have "tree_same V D t db1 (sdb s2)"
    using update_validator_data_tree [OF laws _ nv upd] tree_grows_dur_le by fastforce
  with g show ?thesis by (auto simp: tree_same_def intro: tree_grows_trans)
qed

text \<open>\<open>recorded_under V D t db db' k b r\<close>: the effect of recording \<open>b\<close> under the fresh key \<open>k\<close>.
  The tree grows by at most that entry, and \<^verbatim>\<open>Ok\<close> means that it is there and durable.\<close>

definition recorded_under ::
  "('db \<Rightarrow> content) \<Rightarrow> ('db \<Rightarrow> content) \<Rightarrow> string \<Rightarrow> 'db \<Rightarrow> 'db \<Rightarrow> bytes \<Rightarrow> bytes \<Rightarrow> bool \<Rightarrow> bool" where
  "recorded_under V D t db db' k b ok \<longleftrightarrow>
     tree_grows V D t db db' \<and>
     (V db' t = V db t \<or> V db' t = (V db t)(k \<mapsto> b)) \<and>
     (ok \<longrightarrow> V db' t = (V db t)(k \<mapsto> b) \<and> D db' t = V db' t)"

lemma recorded_under_intros:
  assumes laws: "sled_laws S V D" and le: "dur_le V D t (sdb s)" and nv: "t \<noteq> VALIDATORS_TREE"
    and new: "V (sdb s) t k = None" and ins: "s_insert S (sdb s) t k b = (db1, r1)"
  shows "recorded_under V D t (sdb s) db1 k b False"
    and "update_validator_data S C (s\<lparr>sdb := db1\<rparr>) d = (s2, r2) \<Longrightarrow>
      recorded_under V D t (sdb s) (sdb s2) k b False"
    and "update_validator_data S C (s\<lparr>sdb := db1\<rparr>) d = (s2, r2) \<Longrightarrow> s_flush S (sdb s2) = (db3, r3) \<Longrightarrow>
      recorded_under V D t (sdb s) db3 k b (r1 = Inr () \<and> r3 = Inr ())"
proof -
  show 1: "recorded_under V D t (sdb s) db1 k b False"
    using insert_tree_grows [OF laws le ins] new insert_fresh_view [OF laws ins]
    by (simp add: recorded_under_def)
  assume upd: "update_validator_data S C (s\<lparr>sdb := db1\<rparr>) d = (s2, r2)"
  note g = insert_update_tree [OF laws le nv new ins upd]
  with insert_fresh_view [OF laws ins]
  show "recorded_under V D t (sdb s) (sdb s2) k b False"
    by (simp add: recorded_under_def)
  assume fl: "s_flush S (sdb s2) = (db3, r3)"
  have same: "tree_same V D t (sdb s2) db3"
    by (rule flush_tree_same [OF laws tree_grows_dur_le [OF conjunct1 [OF g]] fl])
  then have v3: "V db3 t = V db1 t"
    using g by (simp add: tree_same_def)
  moreover have "tree_grows V D t (sdb s) db3"
    using g same tree_grows_trans unfolding tree_same_def by metis
  moreover have "V db1 t = (V (sdb s) t)(k \<mapsto> b)" if "r1 = Inr ()"
    using insert_ok_view [OF laws] ins that by metis
  moreover have "D db3 t = V db3 t" if "r3 = Inr ()"
    using sled_flush_ok [OF laws] fl that v3 g by metis
  ultimately show "recorded_under V D t (sdb s) db3 k b (r1 = Inr () \<and> r3 = Inr ())"
    using insert_fresh_view [OF laws ins] unfolding recorded_under_def by metis
qed

lemma recorded_under_mono: "recorded_under V D t db db' k b ok \<Longrightarrow> (ok' \<Longrightarrow> ok) \<Longrightarrow> recorded_under V D t db db' k b ok'"
  by (auto simp: recorded_under_def)

section \<open>The effect of check-and-record\<close>

lemma trees_distinct [simp]:
  "ATTESTATIONS_TREE \<noteq> VALIDATORS_TREE" "BLOCKS_TREE \<noteq> VALIDATORS_TREE"
  "ATTESTATIONS_TREE \<noteq> BLOCKS_TREE" "BLOCKS_TREE \<noteq> ATTESTATIONS_TREE"
  by (simp_all add: tree_names)

abbreviation new_attestation :: "epoch \<Rightarrow> epoch \<Rightarrow> bytes \<Rightarrow> time \<Rightarrow> attestation_data" where
  "new_attestation src tgt root now \<equiv>
     \<lparr>ad_source_epoch = src, ad_target_epoch = tgt, ad_signing_root = root, ad_signed_at = now\<rparr>"

abbreviation new_block :: "slot \<Rightarrow> bytes \<Rightarrow> time \<Rightarrow> block_data" where
  "new_block sl root now \<equiv> \<lparr>bd_slot = sl, bd_signing_root = root, bd_signed_at = now\<rparr>"

lemma record_attestation_effect:
  assumes laws: "sled_laws S V D" and le: "dur_le V D ATTESTATIONS_TREE (sdb s)"
    and new: "V (sdb s) ATTESTATIONS_TREE (attestation_key pk tgt) = None"
    and run: "record_attestation S C s d pk src tgt root now = (s', r)"
  shows "(sdb s' = sdb s \<and> r \<noteq> Inr ()) \<or>
    (\<exists>b. ser_attestation C (new_attestation src tgt root now) = Inr b \<and>
       recorded_under V D ATTESTATIONS_TREE (sdb s) (sdb s') (attestation_key pk tgt) b (r = Inr ()))"
proof (cases "ser_attestation C (new_attestation src tgt root now)")
  case (Inl e)
  with run show ?thesis by (auto simp: record_attestation_def)
next
  case (Inr b)
  obtain db1 r1 where ins: "s_insert S (sdb s) ATTESTATIONS_TREE (attestation_key pk tgt) b = (db1, r1)"
    by fastforce
  obtain s2 r2 where upd: "update_validator_data S C (s\<lparr>sdb := db1\<rparr>) (d\<lparr>vd_updated_at := now\<rparr>) = (s2, r2)"
    by fastforce
  obtain db3 r3 where fl: "s_flush S (sdb s2) = (db3, r3)" by fastforce
  note intros = recorded_under_intros [OF laws le trees_distinct(1) new ins]
  have "recorded_under V D ATTESTATIONS_TREE (sdb s) (sdb s') (attestation_key pk tgt) b (r = Inr ())"
    using run intros(1) intros(2) [OF upd] intros(3) [OF upd fl]
    by (auto simp: record_attestation_def Inr ins upd fl split: sum.splits)
  with Inr show ?thesis by blast
qed

lemma record_block_effect:
  assumes laws: "sled_laws S V D" and le: "dur_le V D BLOCKS_TREE (sdb s)"
    and new: "V (sdb s) BLOCKS_TREE (block_key pk sl) = None"
    and run: "record_block S C s d pk sl root now = (s', r)"
  shows "(sdb s' = sdb s \<and> r \<noteq> Inr ()) \<or>
    (\<exists>b. ser_block C (new_block sl root now) = Inr b \<and>
       recorded_under V D BLOCKS_TREE (sdb s) (sdb s') (block_key pk sl) b (r = Inr ()))"
proof (cases "ser_block C (new_block sl root now)")
  case (Inl e)
  with run show ?thesis by (auto simp: record_block_def)
next
  case (Inr b)
  obtain db1 r1 where ins: "s_insert S (sdb s) BLOCKS_TREE (block_key pk sl) b = (db1, r1)"
    by fastforce
  obtain s2 r2 where upd: "update_validator_data S C (s\<lparr>sdb := db1\<rparr>) (d\<lparr>vd_updated_at := now\<rparr>) = (s2, r2)"
    by fastforce
  obtain db3 r3 where fl: "s_flush S (sdb s2) = (db3, r3)" by fastforce
  note intros = recorded_under_intros [OF laws le trees_distinct(2) new ins]
  have "recorded_under V D BLOCKS_TREE (sdb s) (sdb s') (block_key pk sl) b (r = Inr ())"
    using run intros(1) intros(2) [OF upd] intros(3) [OF upd fl]
    by (auto simp: record_block_def Inr ins upd fl split: sum.splits)
  with Inr show ?thesis by blast
qed

lemma update_validator_data_ok:
  "fault_free S \<Longrightarrow> codec_total C \<Longrightarrow> update_validator_data S C s d = (s', r) \<Longrightarrow> r = Inr ()"
  by (auto simp: fault_free_def codec_total_def update_validator_data_def split: sum.splits prod.splits)
    (metis Inl_Inr_False sum.inject snd_conv)+

lemma record_ok:
  assumes "fault_free S" "codec_total C"
  shows "record_attestation S C s d pk src tgt root now = (s', r) \<Longrightarrow> r = Inr ()"
    and "record_block S C s d pk sl root now = (s', r) \<Longrightarrow> r = Inr ()"
proof -
  have ins: "r = Inr ()" if "s_insert S db t k v = (db', r)" for db t k v db' r
    using assms(1) that unfolding fault_free_def by (metis snd_conv)
  have fl: "r = Inr ()" if "s_flush S db = (db', r)" for db db' r
    using assms(1) that unfolding fault_free_def by (metis snd_conv)
  have ser: "ser_attestation C x \<noteq> Inl e" "ser_block C y \<noteq> Inl e" for x y e
    using assms(2) unfolding codec_total_def by (metis Inl_Inr_False)+
  note facts = update_validator_data_ok [OF assms]
  show "record_attestation S C s d pk src tgt root now = (s', r) \<Longrightarrow> r = Inr ()"
    by (auto simp: record_attestation_def ser split: sum.splits prod.splits dest!: ins fl facts)
  show "record_block S C s d pk sl root now = (s', r) \<Longrightarrow> r = Inr ()"
    by (auto simp: record_block_def ser split: sum.splits prod.splits dest!: ins fl facts)
qed

text \<open>Every attestation the scan of a validator sees is readable and neither surrounds nor is
  surrounded by the new vote.\<close>

definition vote_passes :: "('db \<Rightarrow> content) \<Rightarrow> codec \<Rightarrow> 'db \<Rightarrow> bytes \<Rightarrow> epoch \<Rightarrow> epoch \<Rightarrow> bool" where
  "vote_passes V C db pk src tgt \<longleftrightarrow>
     (\<forall>k v. V db ATTESTATIONS_TREE k = Some v \<and> prefix (attestation_key_prefix pk) k \<longrightarrow>
        (\<exists>a. de_attestation C v = Inr a \<and>
           \<not> (src < ad_source_epoch a \<and> ad_target_epoch a < tgt) \<and>
           \<not> (ad_source_epoch a < src \<and> tgt < ad_target_epoch a)))"

lemma surround_check_vote_passes:
  assumes laws: "sled_laws S V D"
    and run: "surround_check C src tgt (s_scan_prefix S db ATTESTATIONS_TREE (attestation_key_prefix pk)) s
       = (s1, Inr u)"
  shows "vote_passes V C db pk src tgt"
  unfolding vote_passes_def
proof (intro allI impI)
  fix k v assume "V db ATTESTATIONS_TREE k = Some v \<and> prefix (attestation_key_prefix pk) k"
  then have "Inr (k, v) \<in> set (s_scan_prefix S db ATTESTATIONS_TREE (attestation_key_prefix pk))"
    using surround_check_passed [OF run] by (intro sled_scan [OF laws]) blast+
  from surround_check_passed [OF run this]
  show "\<exists>a. de_attestation C v = Inr a \<and>
      \<not> (src < ad_source_epoch a \<and> ad_target_epoch a < tgt) \<and>
      \<not> (ad_source_epoch a < src \<and> tgt < ad_target_epoch a)"
    by auto
qed

lemma double_vote_check_cases:
  assumes laws: "sled_laws S V D" and run: "double_vote_check S C s pk tgt root = (s1, Inr b)"
  shows "if b then \<exists>v a. V (sdb s) ATTESTATIONS_TREE (attestation_key pk tgt) = Some v \<and>
             de_attestation C v = Inr a \<and> ad_signing_root a = root
         else V (sdb s) ATTESTATIONS_TREE (attestation_key pk tgt) = None"
  using run sled_get [OF laws, of "sdb s" ATTESTATIONS_TREE "attestation_key pk tgt"]
  by (auto simp: double_vote_check_def split: sum.splits option.splits if_splits)

lemma double_block_check_cases:
  assumes laws: "sled_laws S V D" and run: "double_block_check S C s pk sl root = (s1, Inr b)"
  shows "if b then \<exists>v a. V (sdb s) BLOCKS_TREE (block_key pk sl) = Some v \<and>
             de_block C v = Inr a \<and> bd_signing_root a = root
         else V (sdb s) BLOCKS_TREE (block_key pk sl) = None"
  using run sled_get [OF laws, of "sdb s" BLOCKS_TREE "block_key pk sl"]
  by (auto simp: double_block_check_def split: sum.splits option.splits if_splits)

lemma attestation_effect:
  assumes laws: "sled_laws S V D" and le: "dur_le V D ATTESTATIONS_TREE (sdb s)"
    and run: "check_and_record_attestation S C s pk src tgt root now = (s', r)"
  obtains (unchanged) "sdb s' = sdb s" "r \<noteq> Inr ()"
  | (repeat) v a where "sdb s' = sdb s"
      "V (sdb s) ATTESTATIONS_TREE (attestation_key pk tgt) = Some v"
      "de_attestation C v = Inr a" "ad_signing_root a = root"
  | (added) b where "V (sdb s) ATTESTATIONS_TREE (attestation_key pk tgt) = None"
      "vote_passes V C (sdb s) pk src tgt"
      "ser_attestation C (new_attestation src tgt root now) = Inr b"
      "recorded_under V D ATTESTATIONS_TREE (sdb s) (sdb s') (attestation_key pk tgt) b (r = Inr ())"
      "fault_free S \<Longrightarrow> codec_total C \<Longrightarrow> r = Inr ()"
proof (cases "get_validator_data S C s pk")
  case (Inl e)
  with run show ?thesis by (auto simp: check_and_record_attestation_def intro: unchanged)
next
  case d: (Inr d)
  obtain s1 r1 where dv: "double_vote_check S C s pk tgt root = (s1, r1)" by fastforce
  obtain s2 r2 where me: "min_epoch_check s1 d src tgt = (s2, r2)" by fastforce
  obtain s3 r3 where sc: "surround_check C src tgt
      (s_scan_prefix S (sdb s2) ATTESTATIONS_TREE (attestation_key_prefix pk)) s2 = (s3, r3)"
    by fastforce
  have db: "sdb s1 = sdb s" "sdb s2 = sdb s" "sdb s3 = sdb s"
    using checks_keep_db dv me surround_check_keeps_db [OF sc] by metis+
  consider (stop) "r1 = Inr True" | (err) "r \<noteq> Inr ()" "sdb s' = sdb s"
    | (go) u v where "r1 = Inr False" "r2 = Inr u" "r3 = Inr v"
        "record_attestation S C s3 d pk src tgt root now = (s', r)"
    using run d dv me sc db
    by (auto simp: check_and_record_attestation_def split: sum.splits bool.splits)
  then show ?thesis
  proof cases
    case stop
    with run d dv db have "sdb s' = sdb s" by (auto simp: check_and_record_attestation_def)
    with double_vote_check_cases [OF laws dv [unfolded stop]] repeat show ?thesis by auto
  next
    case err
    with unchanged show ?thesis by blast
  next
    case go
    have new: "V (sdb s) ATTESTATIONS_TREE (attestation_key pk tgt) = None"
      using double_vote_check_cases [OF laws dv [unfolded go(1)]] by simp
    have "vote_passes V C (sdb s) pk src tgt"
      using surround_check_vote_passes [OF laws sc [unfolded go(3)]] db by simp
    with new record_attestation_effect [OF laws _ _ go(4)] record_ok(1) [OF _ _ go(4)] le db
    show ?thesis by (auto intro: unchanged added)
  qed
qed

lemma block_effect:
  assumes laws: "sled_laws S V D" and le: "dur_le V D BLOCKS_TREE (sdb s)"
    and run: "check_and_record_block S C s pk sl root now = (s', r)"
  obtains (unchanged) "sdb s' = sdb s" "r \<noteq> Inr ()"
  | (repeat) v a where "sdb s' = sdb s"
      "V (sdb s) BLOCKS_TREE (block_key pk sl) = Some v"
      "de_block C v = Inr a" "bd_signing_root a = root"
  | (added) b where "V (sdb s) BLOCKS_TREE (block_key pk sl) = None"
      "ser_block C (new_block sl root now) = Inr b"
      "recorded_under V D BLOCKS_TREE (sdb s) (sdb s') (block_key pk sl) b (r = Inr ())"
      "fault_free S \<Longrightarrow> codec_total C \<Longrightarrow> r = Inr ()"
proof (cases "get_validator_data S C s pk")
  case (Inl e)
  with run show ?thesis by (auto simp: check_and_record_block_def intro: unchanged)
next
  case d: (Inr d)
  obtain s1 r1 where dv: "double_block_check S C s pk sl root = (s1, r1)" by fastforce
  have db: "sdb s1 = sdb s" using checks_keep_db(3) [OF dv] .
  consider (stop) "r1 = Inr True" | (err) "r \<noteq> Inr ()" "sdb s' = sdb s"
    | (go) "r1 = Inr False" "record_block S C s1 d pk sl root now = (s', r)"
    using run d dv db
    by (auto simp: check_and_record_block_def split: sum.splits bool.splits option.splits if_splits)
  then show ?thesis
  proof cases
    case stop
    with run d dv db have "sdb s' = sdb s" by (auto simp: check_and_record_block_def)
    with double_block_check_cases [OF laws dv [unfolded stop]] repeat show ?thesis by auto
  next
    case err
    with unchanged show ?thesis by blast
  next
    case go
    have new: "V (sdb s) BLOCKS_TREE (block_key pk sl) = None"
      using double_block_check_cases [OF laws dv [unfolded go(1)]] by simp
    with record_block_effect [OF laws _ _ go(2)] record_ok(2) [OF _ _ go(2)] le db
    show ?thesis by (auto intro: unchanged added)
  qed
qed

lemma insert_update_flush_other_tree:
  assumes laws: "sled_laws S V D" and le: "dur_le V D t (sdb s)" and nv: "t \<noteq> VALIDATORS_TREE"
    and t': "t' \<noteq> t" and ins: "s_insert S (sdb s) t' k b = (db1, r1)"
  shows "tree_same V D t (sdb s) db1"
    and "update_validator_data S C (s\<lparr>sdb := db1\<rparr>) d = (s2, r2) \<Longrightarrow> tree_same V D t (sdb s) (sdb s2)"
    and "update_validator_data S C (s\<lparr>sdb := db1\<rparr>) d = (s2, r2) \<Longrightarrow> s_flush S (sdb s2) = (db3, r3) \<Longrightarrow>
      tree_same V D t (sdb s) db3"
proof -
  show 1: "tree_same V D t (sdb s) db1" by (rule insert_other_tree [OF laws le ins t'])
  assume upd: "update_validator_data S C (s\<lparr>sdb := db1\<rparr>) d = (s2, r2)"
  have "tree_same V D t db1 (sdb s2)"
    using update_validator_data_tree [OF laws _ nv upd] tree_same_le [OF 1] by simp
  with 1 show 2: "tree_same V D t (sdb s) (sdb s2)" by (rule tree_same_trans)
  assume fl: "s_flush S (sdb s2) = (db3, r3)"
  show "tree_same V D t (sdb s) db3"
    by (rule tree_same_trans [OF 2 flush_tree_same [OF laws tree_same_le [OF 2] fl]])
qed

lemma block_keeps_attestations:
  assumes laws: "sled_laws S V D" and le: "dur_le V D ATTESTATIONS_TREE (sdb s)"
    and run: "check_and_record_block S C s pk sl root now = (s', r)"
  shows "tree_same V D ATTESTATIONS_TREE (sdb s) (sdb s')"
proof -
  have rec: "tree_same V D ATTESTATIONS_TREE (sdb s1) (sdb s')"
    if "record_block S C s1 d pk sl root now = (s', r)" "sdb s1 = sdb s" for s1 d
    using that le insert_update_flush_other_tree [OF laws _ trees_distinct(1,4), of s1]
    by (auto simp: record_block_def tree_same_refl split: sum.splits prod.splits)
  have "sdb s' = sdb s \<or> (\<exists>s1 d. record_block S C s1 d pk sl root now = (s', r) \<and> sdb s1 = sdb s)"
    using run by (auto simp: check_and_record_block_def
        split: sum.splits prod.splits bool.splits option.splits if_splits dest: checks_keep_db(3))
  with rec le show ?thesis by (metis tree_same_refl)
qed

lemma attestation_keeps_blocks:
  assumes laws: "sled_laws S V D" and le: "dur_le V D BLOCKS_TREE (sdb s)"
    and run: "check_and_record_attestation S C s pk src tgt root now = (s', r)"
  shows "tree_same V D BLOCKS_TREE (sdb s) (sdb s')"
proof -
  have rec: "tree_same V D BLOCKS_TREE (sdb s1) (sdb s')"
    if "record_attestation S C s1 d pk src tgt root now = (s', r)" "sdb s1 = sdb s" for s1 d
    using that le insert_update_flush_other_tree [OF laws _ trees_distinct(2,3), of s1]
    by (auto simp: record_attestation_def tree_same_refl split: sum.splits prod.splits)
  have "sdb s' = sdb s \<or> (\<exists>s1 d. record_attestation S C s1 d pk src tgt root now = (s', r) \<and> sdb s1 = sdb s)"
    using run by (auto simp: check_and_record_attestation_def split: sum.splits prod.splits bool.splits
        dest!: checks_keep_db(1,2) surround_check_keeps_db)
  with rec le show ?thesis by (metis tree_same_refl)
qed

section \<open>The exact decision and effect on a store that does not fail\<close>

definition above_minimum :: "validator_data \<Rightarrow> epoch \<Rightarrow> epoch \<Rightarrow> bool" where
  "above_minimum d src tgt \<longleftrightarrow>
     (case vd_min_source_epoch d of None \<Rightarrow> True | Some m \<Rightarrow> m \<le> src) \<and>
     (case vd_min_target_epoch d of None \<Rightarrow> True | Some m \<Rightarrow> m < tgt)"

lemma min_epoch_check_iff: "snd (min_epoch_check s d src tgt) = Inr () \<longleftrightarrow> above_minimum d src tgt"
  by (auto simp: min_epoch_check_def above_minimum_def split: option.splits)

lemma surround_check_iff:
  "(\<forall>x \<in> set items. \<exists>kv. x = Inr kv) \<Longrightarrow>
   snd (surround_check C src tgt items s) = Inr () \<longleftrightarrow>
   (\<forall>k v. Inr (k, v) \<in> set items \<longrightarrow> (\<exists>a. de_attestation C v = Inr a \<and>
      \<not> (src < ad_source_epoch a \<and> ad_target_epoch a < tgt) \<and>
      \<not> (ad_source_epoch a < src \<and> tgt < ad_target_epoch a)))"
  by (induction C src tgt items s rule: surround_check.induct) (auto split: sum.splits)

lemma surround_check_vote_passes_iff:
  assumes "sled_laws S V D" "fault_free S"
  shows "snd (surround_check C src tgt (s_scan_prefix S db ATTESTATIONS_TREE (attestation_key_prefix pk)) s) = Inr ()
    \<longleftrightarrow> vote_passes V C db pk src tgt"
proof -
  let ?items = "s_scan_prefix S db ATTESTATIONS_TREE (attestation_key_prefix pk)"
  have ok: "\<forall>x \<in> set ?items. \<exists>kv. x = Inr kv" using assms(2) by (simp add: fault_free_def)
  then have "set ?items = Inr ` {(k, v). V db ATTESTATIONS_TREE k = Some v \<and> prefix (attestation_key_prefix pk) k}"
    using assms(1) by (simp add: sled_laws_def read_laws_def)
  then have "Inr (k, v) \<in> set ?items \<longleftrightarrow> V db ATTESTATIONS_TREE k = Some v \<and> prefix (attestation_key_prefix pk) k" for k v
    by auto
  then show ?thesis
    unfolding surround_check_iff [OF ok] vote_passes_def by simp
qed

lemma fault_free_get: "sled_laws S V D \<Longrightarrow> fault_free S \<Longrightarrow> s_get S db t k = Inr (V db t k)"
  unfolding fault_free_def sled_laws_def read_laws_def by metis

lemma record_ok_snd:
  "fault_free S \<Longrightarrow> codec_total C \<Longrightarrow> snd (record_attestation S C s d pk src tgt root now) = Inr ()"
  "fault_free S \<Longrightarrow> codec_total C \<Longrightarrow> snd (record_block S C s d pk sl root now) = Inr ()"
  by (metis record_ok surjective_pairing)+

lemma attestation_granted_iff:
  assumes "sled_laws S V D" "fault_free S" "codec_total C" "get_validator_data S C s pk = Inr d"
  shows "snd (check_and_record_attestation S C s pk src tgt root now) = Inr () \<longleftrightarrow>
    (case V (sdb s) ATTESTATIONS_TREE (attestation_key pk tgt) of
       Some v \<Rightarrow> \<exists>a. de_attestation C v = Inr a \<and> ad_signing_root a = root
     | None \<Rightarrow> above_minimum d src tgt \<and> vote_passes V C (sdb s) pk src tgt)"
proof -
  obtain s1 r1 where dv: "double_vote_check S C s pk tgt root = (s1, r1)" by fastforce
  obtain s2 r2 where me: "min_epoch_check s1 d src tgt = (s2, r2)" by fastforce
  obtain s3 r3 where sc: "surround_check C src tgt
      (s_scan_prefix S (sdb s2) ATTESTATIONS_TREE (attestation_key_prefix pk)) s2 = (s3, r3)"
    by fastforce
  have "sdb s2 = sdb s" using checks_keep_db dv me by metis
  then have "r3 = Inr () \<longleftrightarrow> vote_passes V C (sdb s) pk src tgt"
    using surround_check_vote_passes_iff [OF assms(1,2), of C src tgt "sdb s2" pk s2] sc by simp
  moreover have "r2 = Inr () \<longleftrightarrow> above_minimum d src tgt"
    using min_epoch_check_iff [of s1 d src tgt] me by simp
  moreover have "snd (check_and_record_attestation S C s pk src tgt root now) = Inr () \<longleftrightarrow>
      r1 = Inr True \<or> r1 = Inr False \<and> r2 = Inr () \<and> r3 = Inr ()"
    using dv me sc assms(4) record_ok_snd(1) [OF assms(2,3)]
    by (auto simp: check_and_record_attestation_def split: sum.splits bool.splits)
  moreover have "r1 = Inr True \<longleftrightarrow> (\<exists>v a. V (sdb s) ATTESTATIONS_TREE (attestation_key pk tgt) = Some v \<and>
        de_attestation C v = Inr a \<and> ad_signing_root a = root)"
    "r1 = Inr False \<longleftrightarrow> V (sdb s) ATTESTATIONS_TREE (attestation_key pk tgt) = None"
    using dv fault_free_get [OF assms(1,2)]
    by (auto simp: double_vote_check_def split: option.splits sum.splits if_splits)
  ultimately show ?thesis by (auto split: option.splits)
qed

lemma block_granted_iff:
  assumes "sled_laws S V D" "fault_free S" "codec_total C" "get_validator_data S C s pk = Inr d"
  shows "snd (check_and_record_block S C s pk sl root now) = Inr () \<longleftrightarrow>
    (case V (sdb s) BLOCKS_TREE (block_key pk sl) of
       Some v \<Rightarrow> \<exists>a. de_block C v = Inr a \<and> bd_signing_root a = root
     | None \<Rightarrow> (case vd_min_slot d of None \<Rightarrow> True | Some m \<Rightarrow> m < sl))"
  using fault_free_get [OF assms(1,2)] record_ok_snd(2) [OF assms(2,3)] assms(4)
  by (auto simp: check_and_record_block_def double_block_check_def split: option.splits sum.splits)

text \<open>The record functions write the record and the validator, and leave everything durable.\<close>

lemma fault_free_insert:
  assumes "sled_laws S V D" "fault_free S" "s_insert S db t k v = (db', r)"
  shows "r = Inr ()" "V db' = upd_content (V db) t k v"
proof -
  show "r = Inr ()" using assms(2,3) unfolding fault_free_def by (metis snd_conv)
  with assms show "V db' = upd_content (V db) t k v" by (auto intro: sled_insert_ok)
qed

lemma fault_free_flush:
  assumes "sled_laws S V D" "fault_free S" "s_flush S db = (db', r)"
  shows "r = Inr ()" "V db' = V db" "D db' = V db"
proof -
  show "r = Inr ()" using assms(2,3) unfolding fault_free_def by (metis snd_conv)
  with assms show "V db' = V db" "D db' = V db" by (auto intro: sled_flush_view sled_flush_ok)
qed

lemma record_attestation_exact:
  assumes laws: "sled_laws S V D" "fault_free S" "codec_total C"
    and run: "record_attestation S C s d pk src tgt root now = (s', r)"
  obtains b e where "ser_attestation C (new_attestation src tgt root now) = Inr b"
    "ser_validator C (d\<lparr>vd_updated_at := now\<rparr>) = Inr e" "r = Inr ()"
    "V (sdb s') = upd_content (upd_content (V (sdb s)) ATTESTATIONS_TREE (attestation_key pk tgt) b)
       VALIDATORS_TREE (vd_public_key d) e" "D (sdb s') = V (sdb s')"
proof -
  obtain b e where be: "ser_attestation C (new_attestation src tgt root now) = Inr b"
    "ser_validator C (d\<lparr>vd_updated_at := now\<rparr>) = Inr e"
    using laws(3) unfolding codec_total_def by metis
  obtain db1 r1 where 1: "s_insert S (sdb s) ATTESTATIONS_TREE (attestation_key pk tgt) b = (db1, r1)" by fastforce
  obtain db2 r2 where 2: "s_insert S db1 VALIDATORS_TREE (vd_public_key d) e = (db2, r2)" by fastforce
  obtain db3 r3 where 3: "s_flush S db2 = (db3, r3)" by fastforce
  note ok = fault_free_insert [OF laws(1,2) 1] fault_free_insert [OF laws(1,2) 2] fault_free_flush [OF laws(1,2) 3]
  have "sdb s' = db3 \<and> r = Inr ()"
    using run 1 2 3 ok(1,3,5) be by (auto simp: record_attestation_def update_validator_data_def)
  then show ?thesis using that [OF be] ok by simp
qed

lemma attestation_steps:
  assumes "get_validator_data S C s pk = Inr d" "check_and_record_attestation S C s pk src tgt root now = (s', r)"
  shows "sdb s' = sdb s \<or> (\<exists>s1. sdb s1 = sdb s \<and> record_attestation S C s1 d pk src tgt root now = (s', r))"
  using assms by (auto simp: check_and_record_attestation_def split: sum.splits prod.splits bool.splits
      dest!: checks_keep_db(1,2) surround_check_keeps_db)

lemma get_validator_data_cong: "sdb s = sdb s' \<Longrightarrow> get_validator_data S C s pk = get_validator_data S C s' pk"
  by (simp add: get_validator_data_def)

lemma get_validator_data_view:
  assumes "sled_laws S V D" "fault_free S" "V (sdb s) VALIDATORS_TREE pk = Some e" "de_validator C e = Inr d"
  shows "get_validator_data S C s pk = Inr d"
  using assms fault_free_get [OF assms(1,2), of "sdb s" VALIDATORS_TREE pk] by (simp add: get_validator_data_def)

end
