(* ===== verification/Slashing_Guards.thy ===== *)
theory Slashing_Guards
  imports Slashing_Safety Signing_Guard
begin

text \<open>
  The slashing protection database of \<^verbatim>\<open>validator/src/slashing_db.rs\<close> as a signing guard. The
  contract of \<open>signing_guard\<close> is discharged four times: for attestations and for block
  proposals, each once for a store that may fail at any call but is not restarted, and once for
  a store that does not fail but may crash and be reopened at any time. The last part shows that
  neither of the two restrictions can be dropped: the record of a request whose flush failed is
  visible but not durable, and repeating the request is answered from it.
\<close>

section \<open>Requests and conflicts\<close>

type_synonym att_request = "bytes \<times> epoch \<times> epoch \<times> bytes \<times> time"
type_synonym block_request = "bytes \<times> slot \<times> bytes \<times> time"

fun att_request :: "'db sled \<Rightarrow> codec \<Rightarrow> 'db slashing_db \<Rightarrow> att_request \<Rightarrow> 'db slashing_db \<times> bool" where
  "att_request S C s (pk, src, tgt, root, now) =
     (case check_and_record_attestation S C s pk src tgt root now of (s', r) \<Rightarrow> (s', r = Inr ()))"

fun block_request :: "'db sled \<Rightarrow> codec \<Rightarrow> 'db slashing_db \<Rightarrow> block_request \<Rightarrow> 'db slashing_db \<times> bool" where
  "block_request S C s (pk, sl, root, now) =
     (case check_and_record_block S C s pk sl root now of (s', r) \<Rightarrow> (s', r = Inr ()))"

text \<open>The slashing conditions of the consensus specification: a double vote, or a vote that
  surrounds another one, by the same validator.\<close>

fun slashable_attestations :: "att_request \<Rightarrow> att_request \<Rightarrow> bool" where
  "slashable_attestations (pk, src, tgt, root, _) (pk', src', tgt', root', _) \<longleftrightarrow>
     pk = pk' \<and> (tgt = tgt' \<and> root \<noteq> root' \<or> src < src' \<and> tgt' < tgt \<or> src' < src \<and> tgt < tgt')"

fun slashable_blocks :: "block_request \<Rightarrow> block_request \<Rightarrow> bool" where
  "slashable_blocks (pk, sl, root, _) (pk', sl', root', _) \<longleftrightarrow> pk = pk' \<and> sl = sl' \<and> root \<noteq> root'"

text \<open>A signing root is the hash of the attestation data, so it determines the epochs: \<open>E\<close> maps a
  root to the source and target epoch of the data it was computed from.\<close>

fun att_legit :: "(bytes \<Rightarrow> epoch \<times> epoch) \<Rightarrow> att_request \<Rightarrow> bool" where
  "att_legit E (pk, src, tgt, root, now) \<longleftrightarrow> E root = (src, tgt)"

section \<open>The attestation and the block tree\<close>

text \<open>Every stored attestation decodes, to the target epoch of its key and to epochs that match its
  root; no two stored attestations of a validator surround each other.\<close>

definition att_wf :: "codec \<Rightarrow> (bytes \<Rightarrow> epoch \<times> epoch) \<Rightarrow> (bytes \<rightharpoonup> bytes) \<Rightarrow> bool" where
  "att_wf C E m \<longleftrightarrow> (\<forall>pk tgt v. m (attestation_key pk tgt) = Some v \<longrightarrow>
     (\<exists>a. de_attestation C v = Inr a \<and> ad_target_epoch a = tgt \<and>
        E (ad_signing_root a) = (ad_source_epoch a, tgt)))"

definition att_compatible :: "codec \<Rightarrow> (bytes \<rightharpoonup> bytes) \<Rightarrow> bool" where
  "att_compatible C m \<longleftrightarrow> (\<forall>pk t1 t2 v1 v2 a1 a2.
     m (attestation_key pk t1) = Some v1 \<and> m (attestation_key pk t2) = Some v2 \<and>
     de_attestation C v1 = Inr a1 \<and> de_attestation C v2 = Inr a2 \<longrightarrow>
     \<not> (ad_source_epoch a1 < ad_source_epoch a2 \<and> ad_target_epoch a2 < ad_target_epoch a1))"

definition att_inv ::
  "'db sled \<Rightarrow> ('db \<Rightarrow> content) \<Rightarrow> ('db \<Rightarrow> content) \<Rightarrow> codec \<Rightarrow> (bytes \<Rightarrow> epoch \<times> epoch) \<Rightarrow>
   'db slashing_db \<Rightarrow> bool" where
  "att_inv S V D C E s \<longleftrightarrow> sled_laws S V D \<and> codec_laws C \<and>
     dur_le V D ATTESTATIONS_TREE (sdb s) \<and>
     att_wf C E (V (sdb s) ATTESTATIONS_TREE) \<and> att_compatible C (V (sdb s) ATTESTATIONS_TREE)"

definition block_inv ::
  "'db sled \<Rightarrow> ('db \<Rightarrow> content) \<Rightarrow> ('db \<Rightarrow> content) \<Rightarrow> codec \<Rightarrow> 'db slashing_db \<Rightarrow> bool" where
  "block_inv S V D C s \<longleftrightarrow> sled_laws S V D \<and> codec_laws C \<and> dur_le V D BLOCKS_TREE (sdb s)"

text \<open>\<open>in_step\<close>: nothing written to the tree waits for a flush.\<close>

definition in_step ::
  "'db sled \<Rightarrow> ('db \<Rightarrow> content) \<Rightarrow> ('db \<Rightarrow> content) \<Rightarrow> codec \<Rightarrow> string \<Rightarrow> 'db slashing_db \<Rightarrow> bool" where
  "in_step S V D C t s \<longleftrightarrow> fault_free S \<and> codec_total C \<and> D (sdb s) t = V (sdb s) t"

fun att_recorded :: "('db \<Rightarrow> content) \<Rightarrow> codec \<Rightarrow> 'db slashing_db \<Rightarrow> att_request \<Rightarrow> bool" where
  "att_recorded V C s (pk, src, tgt, root, now) \<longleftrightarrow>
     (\<exists>v a. V (sdb s) ATTESTATIONS_TREE (attestation_key pk tgt) = Some v \<and> de_attestation C v = Inr a \<and>
        ad_source_epoch a = src \<and> ad_target_epoch a = tgt \<and> ad_signing_root a = root)"

fun block_recorded :: "('db \<Rightarrow> content) \<Rightarrow> codec \<Rightarrow> 'db slashing_db \<Rightarrow> block_request \<Rightarrow> bool" where
  "block_recorded V C s (pk, sl, root, now) \<longleftrightarrow>
     (\<exists>v a. V (sdb s) BLOCKS_TREE (block_key pk sl) = Some v \<and> de_block C v = Inr a \<and>
        bd_signing_root a = root)"

section \<open>What the rest of the system may do in between\<close>

definition att_env :: "'db sled \<Rightarrow> codec \<Rightarrow> 'db slashing_db \<Rightarrow> 'db slashing_db \<Rightarrow> bool" where
  "att_env S C s s' \<longleftrightarrow> admin_step S C s s' \<or>
     (\<exists>pk sl root now r. check_and_record_block S C s pk sl root now = (s', r))"

definition block_env :: "'db sled \<Rightarrow> codec \<Rightarrow> 'db slashing_db \<Rightarrow> 'db slashing_db \<Rightarrow> bool" where
  "block_env S C s s' \<longleftrightarrow> admin_step S C s s' \<or>
     (\<exists>pk src tgt root now r. check_and_record_attestation S C s pk src tgt root now = (s', r))"

text \<open>A crash: the store is reopened on what was durable.\<close>

definition restart ::
  "('db \<Rightarrow> content) \<Rightarrow> ('db \<Rightarrow> content) \<Rightarrow> 'db slashing_db \<Rightarrow> 'db slashing_db \<Rightarrow> bool" where
  "restart V D s s' \<longleftrightarrow> (\<exists>db. recovered V D (sdb s) db \<and> s' = open_db db)"

lemma att_env_tree:
  "sled_laws S V D \<Longrightarrow> dur_le V D ATTESTATIONS_TREE (sdb s) \<Longrightarrow> att_env S C s s' \<Longrightarrow>
   tree_same V D ATTESTATIONS_TREE (sdb s) (sdb s')"
  by (auto simp: att_env_def intro: admin_step_tree block_keeps_attestations)

lemma block_env_tree:
  "sled_laws S V D \<Longrightarrow> dur_le V D BLOCKS_TREE (sdb s) \<Longrightarrow> block_env S C s s' \<Longrightarrow>
   tree_same V D BLOCKS_TREE (sdb s) (sdb s')"
  by (auto simp: block_env_def intro: admin_step_tree attestation_keeps_blocks)

section \<open>The contract for attestations\<close>

lemma codec_attestation: "codec_laws C \<Longrightarrow> ser_attestation C a = Inr b \<Longrightarrow> de_attestation C b = Inr a"
  by (simp add: codec_laws_def)

lemma codec_block: "codec_laws C \<Longrightarrow> ser_block C a = Inr b \<Longrightarrow> de_block C b = Inr a"
  by (simp add: codec_laws_def)

lemma att_wf_add:
  assumes "att_wf C E m" "de_attestation C b = Inr (new_attestation src tgt root now)" "E root = (src, tgt)"
  shows "att_wf C E (m(attestation_key pk tgt \<mapsto> b))"
  using assms by (auto simp: att_wf_def)

lemma att_compatible_add:
  assumes "att_wf C E (V db ATTESTATIONS_TREE)" "att_compatible C (V db ATTESTATIONS_TREE)"
    and "de_attestation C b = Inr (new_attestation src tgt root now)"
    and "vote_passes V C db pk src tgt"
  shows "att_compatible C ((V db ATTESTATIONS_TREE)(attestation_key pk tgt \<mapsto> b))"
proof -
  have old: "\<not> (src < ad_source_epoch a \<and> ad_target_epoch a < tgt) \<and>
      \<not> (ad_source_epoch a < src \<and> tgt < ad_target_epoch a)"
    if "V db ATTESTATIONS_TREE (attestation_key pk t) = Some v" "de_attestation C v = Inr a" for t v a
    using assms(4) that unfolding vote_passes_def
    by (metis prefix_attestation_key sum.inject(2))
  show ?thesis
    using assms(2,3) old unfolding att_compatible_def by (auto split: if_splits)
qed

lemma att_inv_same:
  "att_inv S V D C E s \<Longrightarrow> tree_same V D ATTESTATIONS_TREE (sdb s) (sdb s') \<Longrightarrow> att_inv S V D C E s'"
  by (auto simp: att_inv_def tree_same_def dest: tree_grows_dur_le)

lemma att_request_inv:
  assumes inv: "att_inv S V D C E s" and legit: "att_legit E q" and req: "att_request S C s q = (s', b)"
  shows "att_inv S V D C E s'"
proof -
  obtain pk src tgt root now where q: "q = (pk, src, tgt, root, now)" by (cases q)
  from req q obtain r where run: "check_and_record_attestation S C s pk src tgt root now = (s', r)"
    by (auto split: prod.splits)
  from inv have laws: "sled_laws S V D" "codec_laws C" "dur_le V D ATTESTATIONS_TREE (sdb s)"
    by (simp_all add: att_inv_def)
  from laws(1,3) run show ?thesis
  proof (cases rule: attestation_effect)
    case (added c)
    have de: "de_attestation C c = Inr (new_attestation src tgt root now)"
      by (rule codec_attestation [OF laws(2) added(3)])
    have "att_wf C E (V (sdb s') ATTESTATIONS_TREE) \<and> att_compatible C (V (sdb s') ATTESTATIONS_TREE)"
      using added(4) att_wf_add [OF _ de] att_compatible_add [OF _ _ de added(2)] inv legit q
      by (auto simp: recorded_under_def att_inv_def)
    moreover have "dur_le V D ATTESTATIONS_TREE (sdb s')"
      using added(4) by (auto simp: recorded_under_def dest: tree_grows_dur_le)
    ultimately show ?thesis using laws by (simp add: att_inv_def)
  qed (use inv in \<open>auto simp: att_inv_def\<close>)
qed

lemma att_recorded_mono:
  "V (sdb s) ATTESTATIONS_TREE \<subseteq>\<^sub>m V (sdb s') ATTESTATIONS_TREE \<Longrightarrow> att_recorded V C s q \<Longrightarrow>
   att_recorded V C s' q"
  by (cases q) (auto dest: map_le_SomeD)

lemma att_request_keeps:
  assumes "att_inv S V D C E s" "att_request S C s q = (s', b)" "att_recorded V C s p"
  shows "att_recorded V C s' p"
proof -
  obtain pk src tgt root now where q: "q = (pk, src, tgt, root, now)" by (cases q)
  from assms(2) q obtain r where run: "check_and_record_attestation S C s pk src tgt root now = (s', r)"
    by (auto split: prod.splits)
  from assms(1) have laws: "sled_laws S V D" "dur_le V D ATTESTATIONS_TREE (sdb s)"
    by (simp_all add: att_inv_def)
  from laws run have "V (sdb s) ATTESTATIONS_TREE \<subseteq>\<^sub>m V (sdb s') ATTESTATIONS_TREE"
    by (cases rule: attestation_effect) (auto simp: recorded_under_def tree_grows_def)
  then show ?thesis using assms(3) by (rule att_recorded_mono)
qed

lemma att_grant:
  assumes inv: "att_inv S V D C E s" and legit: "att_legit E q" and req: "att_request S C s q = (s', True)"
  shows "att_recorded V C s' q" and "att_recorded V C s p \<Longrightarrow> \<not> slashable_attestations p q"
proof -
  obtain pk src tgt root now where q: "q = (pk, src, tgt, root, now)" by (cases q)
  from req q have run: "check_and_record_attestation S C s pk src tgt root now = (s', Inr ())"
    by (auto split: prod.splits)
  obtain pk' src' tgt' root' now' where p: "p = (pk', src', tgt', root', now')" by (cases p)
  from inv have laws: "sled_laws S V D" "codec_laws C" "dur_le V D ATTESTATIONS_TREE (sdb s)"
    and wf: "att_wf C E (V (sdb s) ATTESTATIONS_TREE)" "att_compatible C (V (sdb s) ATTESTATIONS_TREE)"
    by (simp_all add: att_inv_def)
  from laws(1,3) run
  have "att_recorded V C s' q \<and> (att_recorded V C s p \<longrightarrow> \<not> slashable_attestations p q)"
  proof (cases rule: attestation_effect)
    case unchanged
    then show ?thesis by simp
  next
    case (repeat v a)
    have a: "ad_source_epoch a = src" "ad_target_epoch a = tgt"
      using wf(1) repeat(2-4) legit q unfolding att_wf_def by fastforce+
    have "\<not> slashable_attestations p q" if "att_recorded V C s p"
      using that p q repeat a wf(2) unfolding att_compatible_def by auto
    then show ?thesis using repeat a q by auto
  next
    case (added c)
    have de: "de_attestation C c = Inr (new_attestation src tgt root now)"
      by (rule codec_attestation [OF laws(2) added(3)])
    have "\<not> slashable_attestations p q" if "att_recorded V C s p"
      using that p q added(1,2) prefix_attestation_key unfolding vote_passes_def
      by auto (metis sum.inject(2))+
    then show ?thesis using added(4) de q by (auto simp: recorded_under_def)
  qed
  then show "att_recorded V C s' q" and "att_recorded V C s p \<Longrightarrow> \<not> slashable_attestations p q"
    by blast+
qed

lemma in_step_same:
  "in_step S V D C t s \<Longrightarrow> tree_same V D t (sdb s) (sdb s') \<Longrightarrow> in_step S V D C t s'"
  by (auto simp: in_step_def tree_same_def tree_grows_def intro: map_le_antisym)

lemma restart_same: "restart V D s s' \<Longrightarrow> in_step S V D C t s \<Longrightarrow> tree_same V D t (sdb s) (sdb s')"
  by (auto simp: restart_def recovered_def in_step_def open_db_def tree_same_def tree_grows_def)

lemma att_recorded_same:
  "tree_same V D ATTESTATIONS_TREE (sdb s) (sdb s') \<Longrightarrow> att_recorded V C s q \<Longrightarrow> att_recorded V C s' q"
  by (rule att_recorded_mono) (auto simp: tree_same_def)

lemma att_request_in_step:
  assumes inv: "att_inv S V D C E s" "in_step S V D C ATTESTATIONS_TREE s"
    and req: "att_request S C s q = (s', b)"
  shows "in_step S V D C ATTESTATIONS_TREE s'"
proof -
  obtain pk src tgt root now where q: "q = (pk, src, tgt, root, now)" by (cases q)
  from req q obtain r where run: "check_and_record_attestation S C s pk src tgt root now = (s', r)"
    by (auto split: prod.splits)
  from inv have laws: "sled_laws S V D" "dur_le V D ATTESTATIONS_TREE (sdb s)"
    by (simp_all add: att_inv_def)
  from laws run inv(2) show ?thesis
    by (cases rule: attestation_effect) (auto simp: in_step_def recorded_under_def)
qed

interpretation att: signing_guard "att_inv S V D C E" "att_request S C" "att_legit E" "att_env S C"
    "att_recorded V C" slashable_attestations
  for S V D C E
proof
  show "att_inv S V D C E s'" if "att_inv S V D C E s" "att_env S C s s'" for s s'
    using that att_inv_same att_env_tree by (metis att_inv_def)
  show "att_recorded V C s' q" if "att_inv S V D C E s" "att_env S C s s'" "att_recorded V C s q" for s s' q
    using that att_env_tree att_recorded_same unfolding att_inv_def by blast
qed (auto intro: att_request_inv att_request_keeps att_grant(1) dest: att_grant(2))

interpretation att_crash: signing_guard
    "\<lambda>s. att_inv S V D C E s \<and> in_step S V D C ATTESTATIONS_TREE s" "att_request S C" "att_legit E"
    "\<lambda>s s'. att_env S C s s' \<or> restart V D s s'" "att_recorded V C" slashable_attestations
  for S V D C E
proof
  fix s s' q
  assume inv: "att_inv S V D C E s \<and> in_step S V D C ATTESTATIONS_TREE s"
    and env: "att_env S C s s' \<or> restart V D s s'"
  have same: "tree_same V D ATTESTATIONS_TREE (sdb s) (sdb s')"
    using env inv restart_same by (auto simp: att_inv_def intro: att_env_tree)
  then show "att_inv S V D C E s' \<and> in_step S V D C ATTESTATIONS_TREE s'"
    using inv att_inv_same in_step_same by blast
  show "att_recorded V C s' q" if "att_recorded V C s q"
    using same that by (rule att_recorded_same)
qed (auto intro: att_request_inv att_request_in_step att_request_keeps att_grant(1) dest: att_grant(2))

section \<open>The contract for block proposals\<close>

lemma block_recorded_mono:
  "V (sdb s) BLOCKS_TREE \<subseteq>\<^sub>m V (sdb s') BLOCKS_TREE \<Longrightarrow> block_recorded V C s q \<Longrightarrow>
   block_recorded V C s' q"
  by (cases q) (auto dest: map_le_SomeD)

lemma block_recorded_same:
  "tree_same V D BLOCKS_TREE (sdb s) (sdb s') \<Longrightarrow> block_recorded V C s q \<Longrightarrow> block_recorded V C s' q"
  by (rule block_recorded_mono) (auto simp: tree_same_def)

lemma block_inv_same:
  "block_inv S V D C s \<Longrightarrow> tree_same V D BLOCKS_TREE (sdb s) (sdb s') \<Longrightarrow> block_inv S V D C s'"
  by (auto simp: block_inv_def tree_same_def dest: tree_grows_dur_le)

lemma block_request_step:
  assumes inv: "block_inv S V D C s" and req: "block_request S C s q = (s', b)"
  shows "block_inv S V D C s'"
    and "block_recorded V C s p \<Longrightarrow> block_recorded V C s' p"
    and "in_step S V D C BLOCKS_TREE s \<Longrightarrow> in_step S V D C BLOCKS_TREE s'"
    and "b \<Longrightarrow> block_recorded V C s' q"
    and "b \<Longrightarrow> block_recorded V C s p \<Longrightarrow> \<not> slashable_blocks p q"
proof -
  obtain pk sl root now where q: "q = (pk, sl, root, now)" by (cases q)
  from req q obtain r where run: "check_and_record_block S C s pk sl root now = (s', r)" and b: "b = (r = Inr ())"
    by (auto split: prod.splits)
  obtain pk' sl' root' now' where p: "p = (pk', sl', root', now')" by (cases p)
  from inv have laws: "sled_laws S V D" "codec_laws C" "dur_le V D BLOCKS_TREE (sdb s)"
    by (simp_all add: block_inv_def)
  note facts = p q b inv laws(2) codec_block [OF laws(2)]
  from laws(1,3) run have "tree_grows V D BLOCKS_TREE (sdb s) (sdb s')"
    by (cases rule: block_effect) (use laws in \<open>auto simp: recorded_under_def tree_grows_refl\<close>)
  then show "block_inv S V D C s'" "block_recorded V C s p \<Longrightarrow> block_recorded V C s' p"
    using inv by (auto simp: block_inv_def tree_grows_def dest: tree_grows_dur_le intro: block_recorded_mono)
      (simp add: dur_le_def)
  from laws(1,3) run show "in_step S V D C BLOCKS_TREE s \<Longrightarrow> in_step S V D C BLOCKS_TREE s'"
    by (cases rule: block_effect) (auto simp: in_step_def recorded_under_def)
  from laws(1,3) run show "b \<Longrightarrow> block_recorded V C s' q"
    by (cases rule: block_effect) (use facts in \<open>auto simp: recorded_under_def\<close>)
  from laws(1,3) run show "b \<Longrightarrow> block_recorded V C s p \<Longrightarrow> \<not> slashable_blocks p q"
    by (cases rule: block_effect) (use facts in \<open>auto simp: recorded_under_def\<close>)
qed

interpretation blk: signing_guard "block_inv S V D C" "block_request S C" "\<lambda>_. True" "block_env S C"
    "block_recorded V C" slashable_blocks
  for S V D C
proof
  show "block_inv S V D C s'" if "block_inv S V D C s" "block_env S C s s'" for s s'
    using that block_inv_same block_env_tree by (metis block_inv_def)
  show "block_recorded V C s' q" if "block_inv S V D C s" "block_env S C s s'" "block_recorded V C s q" for s s' q
    using that block_env_tree block_recorded_same unfolding block_inv_def by blast
qed (use block_request_step in metis)+

interpretation blk_crash: signing_guard
    "\<lambda>s. block_inv S V D C s \<and> in_step S V D C BLOCKS_TREE s" "block_request S C" "\<lambda>_. True"
    "\<lambda>s s'. block_env S C s s' \<or> restart V D s s'" "block_recorded V C" slashable_blocks
  for S V D C
proof
  fix s s' q
  assume inv: "block_inv S V D C s \<and> in_step S V D C BLOCKS_TREE s"
    and env: "block_env S C s s' \<or> restart V D s s'"
  have same: "tree_same V D BLOCKS_TREE (sdb s) (sdb s')"
    using env inv restart_same by (auto simp: block_inv_def intro: block_env_tree)
  then show "block_inv S V D C s' \<and> in_step S V D C BLOCKS_TREE s'"
    using inv block_inv_same in_step_same by blast
  show "block_recorded V C s' q" if "block_recorded V C s q"
    using same that by (rule block_recorded_same)
qed (use block_request_step in metis)+

end
