(* ===== verification/Sample_Hex.thy ===== *)
theory Sample_Hex
  imports Hsm_Prelude
begin

text \<open>
  Hex printing and reading, for evaluations on concrete inputs. In the model the crate \<^verbatim>\<open>hex\<close> is a
  parameter.
\<close>

text \<open>Two lower case hexadecimal digits per byte.\<close>

definition hex_digit :: "nat \<Rightarrow> char" where
  "hex_digit n = ''0123456789abcdef'' ! n"

definition sample_hex :: "bytes \<Rightarrow> string" where
  "sample_hex bs = concat (map (\<lambda>b. [hex_digit (unat b div 16), hex_digit (unat b mod 16)]) bs)"

definition hex_val :: "char \<Rightarrow> nat" where
  "hex_val c = (if of_char c < (58 :: nat) then of_char c - 48 else of_char c - 87)"

fun hex_pairs :: "string \<Rightarrow> bytes" where
  "hex_pairs (a # b # cs) = word_of_nat (hex_val a * 16 + hex_val b) # hex_pairs cs"
| "hex_pairs _ = []"

definition sample_unhex :: "string \<Rightarrow> (string, bytes) res" where
  "sample_unhex s = Inr (hex_pairs s)"

lemma hex_val_digit:
  assumes "n < 16"
  shows "hex_val (hex_digit n) = n"
proof -
  have "\<forall>n \<in> set [0..<16]. hex_val (hex_digit n) = n" by code_simp
  with assms show ?thesis by simp
qed

lemma hex_pairs_sample_hex: "hex_pairs (sample_hex bs) = bs"
proof (induction bs)
  case (Cons b bs)
  have "unat b < 256" using unsigned_less [where ?'a = nat, of b] by simp
  then have "hex_val (hex_digit (unat b div 16)) * 16 + hex_val (hex_digit (unat b mod 16)) = unat b"
    by (simp add: hex_val_digit)
  with Cons show ?case by (simp add: sample_hex_def)
qed (simp add: sample_hex_def)

lemma sample_unhex [simp]: "sample_unhex (sample_hex bs) = Inr bs"
  by (simp add: sample_unhex_def hex_pairs_sample_hex)

lemma length_sample_hex [simp]: "length (sample_hex bs) = 2 * length bs"
  by (induction bs) (simp_all add: sample_hex_def)

text \<open>A stand-in for a hash function with 32 bytes of output: pad with zeros and cut.\<close>

definition pad32 :: "bytes \<Rightarrow> bytes" where
  "pad32 x = take 32 (x @ replicate 32 0)"

lemma length_pad32 [simp]: "length (pad32 x) = 32"
  by (simp add: pad32_def)

lemma take_pad32: "n \<le> length x \<Longrightarrow> n \<le> 32 \<Longrightarrow> take n (pad32 x) = take n x"
  by (simp add: pad32_def min_def)

lemma sample_hex_inject [simp]: "sample_hex a = sample_hex b \<longleftrightarrow> a = b"
  by (metis hex_pairs_sample_hex)

end
