(* ===== verification/Sample_Codec.thy ===== *)
theory Sample_Codec
  imports Slashing_Db Sample_Hex
begin

text \<open>
  One concrete codec that satisfies \<open>codec_laws\<close> and \<open>codec_total\<close>, with which the results about
  the databases are evaluated on concrete inputs. It is built from formats, pairs of an encoder
  and a decoder that returns the rest of the input, and does not describe the JSON of the
  third-party crate, which stays a parameter.
\<close>

type_synonym 'a format = "('a \<Rightarrow> bytes) \<times> (bytes \<Rightarrow> 'a \<times> bytes)"

definition format_ok :: "'a format \<Rightarrow> bool" where
  "format_ok f \<longleftrightarrow> (\<forall>x r. snd f (fst f x @ r) = (x, r))"

fun skip_ones :: "bytes \<Rightarrow> nat \<times> bytes" where
  "skip_ones [] = (0, [])"
| "skip_ones (b # bs) = (if b = 1 then case skip_ones bs of (n, r) \<Rightarrow> (Suc n, r) else (0, bs))"

definition nat_format :: "nat format" where
  "nat_format = (\<lambda>n. replicate n 1 @ [0], skip_ones)"

definition bytes_format :: "bytes format" where
  "bytes_format = (\<lambda>b. fst nat_format (length b) @ b,
     \<lambda>i. case snd nat_format i of (n, r) \<Rightarrow> (take n r, drop n r))"

definition u64_format :: "u64 format" where
  "u64_format = (to_be_bytes, \<lambda>i. (from_be_bytes (take 8 i), drop 8 i))"

definition via :: "('b \<Rightarrow> 'a) \<Rightarrow> ('a \<Rightarrow> 'b) \<Rightarrow> 'a format \<Rightarrow> 'b format" where
  "via to_a of_a f = (\<lambda>x. fst f (to_a x), \<lambda>i. case snd f i of (a, r) \<Rightarrow> (of_a a, r))"

definition pair_format :: "'a format \<Rightarrow> 'b format \<Rightarrow> ('a \<times> 'b) format" where
  "pair_format f g = (\<lambda>(x, y). fst f x @ fst g y,
     \<lambda>i. case snd f i of (x, r) \<Rightarrow> case snd g r of (y, r') \<Rightarrow> ((x, y), r'))"

definition option_format :: "'a format \<Rightarrow> 'a option format" where
  "option_format f = (\<lambda>x. case x of None \<Rightarrow> [0] | Some y \<Rightarrow> 1 # fst f y,
     \<lambda>i. case i of [] \<Rightarrow> (None, []) | b # bs \<Rightarrow>
       if b = 0 then (None, bs) else case snd f bs of (y, r) \<Rightarrow> (Some y, r))"

definition int_format :: "int format" where
  "int_format = via (\<lambda>i. (if i < 0 then 1 else 0, nat \<bar>i\<bar>)) (\<lambda>(s, n). if s = 0 then int n else - int n)
     (pair_format nat_format nat_format)"

lemma skip_ones_replicate [simp]: "skip_ones (replicate n 1 @ 0 # r) = (n, r)"
  by (induction n) auto

lemma nat_format_ok [simp]: "format_ok nat_format"
  by (simp add: format_ok_def nat_format_def)

lemma bytes_format_ok [simp]: "format_ok bytes_format"
  by (simp add: format_ok_def bytes_format_def nat_format_def)

lemma u64_format_ok [simp]: "format_ok u64_format"
  by (simp add: format_ok_def u64_format_def)

lemma pair_format_ok [simp]: "format_ok f \<Longrightarrow> format_ok g \<Longrightarrow> format_ok (pair_format f g)"
  by (simp add: format_ok_def pair_format_def)

lemma option_format_ok [simp]: "format_ok f \<Longrightarrow> format_ok (option_format f)"
  by (auto simp: format_ok_def option_format_def split: option.splits)

lemma via_ok: "format_ok f \<Longrightarrow> (\<And>x. of_a (to_a x) = x) \<Longrightarrow> format_ok (via to_a of_a f)"
  by (simp add: format_ok_def via_def)

lemma int_format_ok [simp]: "format_ok int_format"
  unfolding int_format_def by (rule via_ok) auto

lemma format_decode: "format_ok f \<Longrightarrow> fst (snd f (fst f x)) = x"
  unfolding format_ok_def by (metis append_Nil2 fst_conv)

section \<open>The records of the database\<close>

primrec status_num :: "validator_status \<Rightarrow> nat" where
  "status_num Active = 0"
| "status_num Disabled = 1"
| "status_num Slashed = 2"
| "status_num Exiting = 3"
| "status_num Exited = 4"

definition num_status :: "nat \<Rightarrow> validator_status" where
  "num_status n = (if n = 0 then Active else if n = 1 then Disabled else if n = 2 then Slashed
     else if n = 3 then Exiting else Exited)"

lemma num_status [simp]: "num_status (status_num x) = x"
  by (cases x) (simp_all add: num_status_def)

definition validator_format :: "validator_data format" where
  "validator_format =
     via (\<lambda>d. (vd_public_key d, status_num (vd_status d), vd_min_source_epoch d, vd_min_target_epoch d,
            vd_min_slot d, vd_created_at d, vd_updated_at d))
         (\<lambda>(pk, st, se, te, sl, c, u). \<lparr>vd_public_key = pk, vd_status = num_status st,
            vd_min_source_epoch = se, vd_min_target_epoch = te, vd_min_slot = sl,
            vd_created_at = c, vd_updated_at = u\<rparr>)
         (pair_format bytes_format (pair_format nat_format (pair_format (option_format u64_format)
           (pair_format (option_format u64_format) (pair_format (option_format u64_format)
           (pair_format int_format int_format))))))"

definition attestation_format :: "attestation_data format" where
  "attestation_format =
     via (\<lambda>a. (ad_source_epoch a, ad_target_epoch a, ad_signing_root a, ad_signed_at a))
         (\<lambda>(s, t, r, n). \<lparr>ad_source_epoch = s, ad_target_epoch = t, ad_signing_root = r, ad_signed_at = n\<rparr>)
         (pair_format u64_format (pair_format u64_format (pair_format bytes_format int_format)))"

definition block_format :: "block_data format" where
  "block_format =
     via (\<lambda>b. (bd_slot b, bd_signing_root b, bd_signed_at b))
         (\<lambda>(s, r, n). \<lparr>bd_slot = s, bd_signing_root = r, bd_signed_at = n\<rparr>)
         (pair_format u64_format (pair_format bytes_format int_format))"

lemma record_formats_ok [simp]:
  "format_ok validator_format" "format_ok attestation_format" "format_ok block_format"
  unfolding validator_format_def attestation_format_def block_format_def
  by (rule via_ok; simp)+

definition sample_codec :: codec where
  "sample_codec = \<lparr>hex_encode = sample_hex,
     ser_validator = \<lambda>x. Inr (fst validator_format x),
     de_validator = \<lambda>b. Inr (fst (snd validator_format b)),
     ser_attestation = \<lambda>x. Inr (fst attestation_format x),
     de_attestation = \<lambda>b. Inr (fst (snd attestation_format b)),
     ser_block = \<lambda>x. Inr (fst block_format x),
     de_block = \<lambda>b. Inr (fst (snd block_format b))\<rparr>"

lemma sample_codec_laws: "codec_laws sample_codec"
  by (auto simp: codec_laws_def sample_codec_def format_decode)

lemma sample_codec_total: "codec_total sample_codec"
  by (simp add: codec_total_def sample_codec_def)

text \<open>Evaluation of the codec on encodings it made.\<close>

lemma sample_codec_eval [simp]:
  "ser_validator sample_codec d = Inr (fst validator_format d)"
  "de_validator sample_codec (fst validator_format d) = Inr d"
  "ser_attestation sample_codec a = Inr (fst attestation_format a)"
  "de_attestation sample_codec (fst attestation_format a) = Inr a"
  "ser_block sample_codec b = Inr (fst block_format b)"
  "de_block sample_codec (fst block_format b) = Inr b"
  by (simp_all add: sample_codec_def format_decode)

end
