(* ===== verification/Slashing_Properties.thy ===== *)
theory Slashing_Properties
  imports Slashing_Guards Sample_Codec
begin

text \<open>
  The properties of the slashing protection database of \<^verbatim>\<open>validator/src/slashing_db.rs\<close>, read off
  the four instances of \<open>signing_guard\<close>, the exact decision of \<^verbatim>\<open>check_and_record_attestation\<close>
  and \<^verbatim>\<open>check_and_record_block\<close> on a store that does not fail, and the run in which a failed
  flush, a repeat and a crash together let a double vote through.
\<close>

section \<open>Sample runs\<close>

definition sample_pk :: bytes where
  "sample_pk = replicate 48 7"

definition registered_db :: "mem_db slashing_db" where
  "registered_db = fst (register_validator mem_sled sample_codec (open_db ([], [])) sample_pk 0)"

definition sample_epochs :: "bytes \<Rightarrow> epoch \<times> epoch" where
  "sample_epochs root = (if root = [1] then (0, 1) else if root = [2] then (1, 2) else (0, 3))"

definition vote1 :: att_request where "vote1 = (sample_pk, 0, 1, [1], 5)"
definition vote2 :: att_request where "vote2 = (sample_pk, 1, 2, [2], 6)"
definition block1 :: block_request where "block1 = (sample_pk, 4, [1], 5)"
definition block2 :: block_request where "block2 = (sample_pk, 9, [2], 6)"

lemma register_admin_step: "admin_step S C s (fst (register_validator S C s pk now))"
  by (metis admin_step.intros(1) surjective_pairing)

lemma att_env_register: "att_env S C s (fst (register_validator S C s pk now))"
  by (simp add: att_env_def register_admin_step)

lemma block_env_register: "block_env S C s (fst (register_validator S C s pk now))"
  by (simp add: block_env_def register_admin_step)

lemma run_registered:
  "env (open_db ([], [])) registered_db \<Longrightarrow> guard_run request legit env (open_db ([], [])) [] registered_db"
  by (blast intro: guard_run.start guard_run.environment)

lemma mem_restart: "restart mem_view mem_durable s (open_db (snd (sdb s), snd (sdb s)))"
  by (auto simp: restart_def recovered_def mem_view_def mem_durable_def fun_eq_iff)

lemma length_sample_pk [simp]: "length sample_pk = 48"
  by (simp add: sample_pk_def)

definition sample_validator :: validator_data where
  "sample_validator = \<lparr>vd_public_key = sample_pk, vd_status = Active, vd_min_source_epoch = None,
     vd_min_target_epoch = None, vd_min_slot = None, vd_created_at = 0, vd_updated_at = 0\<rparr>"

lemma registered_db_eval: "registered_db = open_db ([((VALIDATORS_TREE, sample_pk), fst validator_format sample_validator)], [])"
  by (simp add: registered_db_def register_validator_def mem_sled_def open_db_def sample_validator_def)

lemmas db_eval = vote1_def vote2_def block1_def block2_def sample_epochs_def
  registered_db_eval mem_sled_def mem_scan_def open_db_def tree_names sample_validator_def
  check_and_record_attestation_def double_vote_check_def min_epoch_check_def record_attestation_def
  check_and_record_block_def double_block_check_def record_block_def
  get_validator_data_def update_validator_data_def prefix_attestation_key

section \<open>No slashable attestations\<close>

lemma att_inv_fresh:
  assumes "sled_laws S V D" "codec_laws C" "V db ATTESTATIONS_TREE = Map.empty" "D db ATTESTATIONS_TREE = Map.empty"
  shows "att_inv S V D C E (open_db db)"
  using assms by (simp add: att_inv_def open_db_def dur_le_def att_wf_def att_compatible_def)





section \<open>No slashable block proposals\<close>

text \<open>C3: the same for block proposals, on a store that may fail at any call: no two granted proposals
  of a validator are for the same slot with different roots.\<close>

theorem blocks_never_slashable:
  assumes "sled_laws S V D" "codec_laws C"
    and "V db BLOCKS_TREE = Map.empty" "D db BLOCKS_TREE = Map.empty"
    and "guard_run (block_request S C) (\<lambda>_. True) (block_env S C) (open_db db) granted s"
  shows "pairwise_apart (\<lambda>q r. \<not> slashable_blocks q r) granted"
proof (rule blk.run_apart [OF assms(5)])
  show "block_inv S V D C (open_db db)"
    using assms by (simp add: block_inv_def open_db_def dur_le_def)
qed

theorem blocks_never_slashable_witness:
  "\<exists>s. guard_run (block_request mem_sled sample_codec) (\<lambda>_. True) (block_env mem_sled sample_codec)
        (open_db ([], [])) [block1, block2] s \<and>
     pairwise_apart (\<lambda>q r. \<not> slashable_blocks q r) [block1, block2]"
proof -
  let ?run = "guard_run (block_request mem_sled sample_codec) (\<lambda>_. True)
    (block_env mem_sled sample_codec) (open_db ([], []))"
  have "?run [] registered_db"
    by (rule run_registered) (simp add: registered_db_def block_env_register)
  then have "?run ([] @ [block1]) (fst (block_request mem_sled sample_codec registered_db block1))"
    by (rule guard_run_grant) (simp_all add: db_eval)
  then have "\<exists>s. ?run (([] @ [block1]) @ [block2]) s"
    by (intro exI, rule guard_run_grant) (simp_all add: db_eval)
  then obtain s where run: "?run [block1, block2] s" by auto
  from blocks_never_slashable [OF mem_sled_laws sample_codec_laws mem_empty run] run
  show ?thesis by blast
qed

text \<open>and across crashes, on a store that does not fail.\<close>

theorem blocks_survive_crashes:
  assumes "sled_laws S V D" "fault_free S" "codec_laws C" "codec_total C"
    and "V db BLOCKS_TREE = Map.empty" "D db BLOCKS_TREE = Map.empty"
    and "guard_run (block_request S C) (\<lambda>_. True) (\<lambda>s s'. block_env S C s s' \<or> restart V D s s')
           (open_db db) granted s"
  shows "pairwise_apart (\<lambda>q r. \<not> slashable_blocks q r) granted"
  using assms(7)
  by (rule blk_crash.run_apart) (use assms in \<open>simp add: block_inv_def in_step_def open_db_def dur_le_def\<close>)

theorem blocks_survive_crashes_witness:
  "\<exists>s. guard_run (block_request mem_sled sample_codec) (\<lambda>_. True)
        (\<lambda>s s'. block_env mem_sled sample_codec s s' \<or> restart mem_view mem_durable s s')
        (open_db ([], [])) [block1, block2] s \<and>
     pairwise_apart (\<lambda>q r. \<not> slashable_blocks q r) [block1, block2]"
proof -
  let ?run = "guard_run (block_request mem_sled sample_codec) (\<lambda>_. True)
    (\<lambda>s s'. block_env mem_sled sample_codec s s' \<or> restart mem_view mem_durable s s') (open_db ([], []))"
  let ?s1 = "fst (block_request mem_sled sample_codec registered_db block1)"
  have "?run [] registered_db"
    by (rule run_registered) (simp add: registered_db_def block_env_register)
  then have "?run ([] @ [block1]) ?s1"
    by (rule guard_run_grant) (simp_all add: db_eval)
  then have "?run [block1] (open_db (snd (sdb ?s1), snd (sdb ?s1)))"
    using guard_run.environment [of _ _ "\<lambda>s s'. block_env mem_sled sample_codec s s' \<or> restart mem_view mem_durable s s'"]
      mem_restart by force
  then have "\<exists>s. ?run ([block1] @ [block2]) s"
    by (intro exI, rule guard_run_grant) (simp_all add: db_eval)
  then obtain s where run: "?run [block1, block2] s" by auto
  from blocks_survive_crashes [OF mem_sled_laws mem_sled_fault_free sample_codec_laws
      sample_codec_total mem_empty run] run
  show ?thesis by blast
qed

section \<open>The exact decision\<close>

text \<open>C4: on a store that does not fail, a registered validator's attestation is granted exactly when
  it repeats the recorded one, or there is none for its target epoch, it is above the minimum epochs
  (source not below, target strictly above) and no recorded attestation of the validator is
  unreadable, surrounds it or is surrounded by it.\<close>

theorem attestation_decision:
  assumes "sled_laws S V D" "fault_free S" "codec_total C" "get_validator_data S C s pk = Inr d"
  shows "snd (check_and_record_attestation S C s pk src tgt root now) = Inr () \<longleftrightarrow>
    (case V (sdb s) ATTESTATIONS_TREE (attestation_key pk tgt) of
       Some v \<Rightarrow> \<exists>a. de_attestation C v = Inr a \<and> ad_signing_root a = root
     | None \<Rightarrow> above_minimum d src tgt \<and> vote_passes V C (sdb s) pk src tgt)"
  using assms by (rule attestation_granted_iff)

lemma sample_get_validator: "get_validator_data mem_sled sample_codec registered_db sample_pk = Inr sample_validator"
  by (simp add: db_eval)

theorem attestation_decision_witness:
  "snd (check_and_record_attestation mem_sled sample_codec registered_db sample_pk 3 4 [1] 5) = Inr ()"
  using attestation_decision [OF mem_sled_laws mem_sled_fault_free sample_codec_total sample_get_validator,
      of 3 4 "[1]" 5]
  by (simp add: registered_db_eval mem_view_def open_db_def tree_names above_minimum_def sample_validator_def
      vote_passes_def)

text \<open>likewise for block proposals: granted exactly when it repeats the recorded one, or there is
  none for the slot and the slot is strictly above the minimum.\<close>

theorem block_decision:
  assumes "sled_laws S V D" "fault_free S" "codec_total C" "get_validator_data S C s pk = Inr d"
  shows "snd (check_and_record_block S C s pk sl root now) = Inr () \<longleftrightarrow>
    (case V (sdb s) BLOCKS_TREE (block_key pk sl) of
       Some v \<Rightarrow> \<exists>a. de_block C v = Inr a \<and> bd_signing_root a = root
     | None \<Rightarrow> (case vd_min_slot d of None \<Rightarrow> True | Some m \<Rightarrow> m < sl))"
  using assms by (rule block_granted_iff)

theorem block_decision_witness:
  "snd (check_and_record_block mem_sled sample_codec registered_db sample_pk 3 [1] 5) = Inr ()"
  using block_decision [OF mem_sled_laws mem_sled_fault_free sample_codec_total sample_get_validator,
      of 3 "[1]" 5]
  by (simp add: registered_db_eval mem_view_def open_db_def tree_names sample_validator_def)

section \<open>A failed flush, a repeat and a crash\<close>

text \<open>A store whose second flush fails, for instance because the disk is full for a moment. The
  number counts down to the flush that fails.\<close>

definition flaky_sled :: "(mem_db \<times> nat) sled" where
  "flaky_sled = \<lparr>
     s_get = (\<lambda>db t k. Inr (map_of (fst (fst db)) (t, k))),
     s_contains_key = (\<lambda>db t k. Inr (map_of (fst (fst db)) (t, k) \<noteq> None)),
     s_insert = (\<lambda>db t k v. (((((t, k), v) # fst (fst db), snd (fst db)), snd db), Inr ())),
     s_scan_prefix = (\<lambda>db. mem_scan (fst db)),
     s_flush = (\<lambda>db. if snd db = 1 then ((fst db, 0), Inl ''disk full'')
       else (((fst (fst db), fst (fst db)), snd db - 1), Inr ())),
     s_remove = (\<lambda>db t k. (((filter (\<lambda>e. fst e \<noteq> (t, k)) (fst (fst db)), snd (fst db)), snd db), Inr ())) \<rparr>"

definition flaky_view :: "mem_db \<times> nat \<Rightarrow> content" where
  "flaky_view db = mem_view (fst db)"

definition flaky_durable :: "mem_db \<times> nat \<Rightarrow> content" where
  "flaky_durable db = mem_durable (fst db)"

lemma flaky_sled_laws: "sled_laws flaky_sled flaky_view flaky_durable"
proof -
  have "read_laws flaky_sled flaky_view"
    by (auto simp: read_laws_def flaky_sled_def flaky_view_def mem_scan_set) (simp_all add: mem_view_def)
  moreover have "insert_laws flaky_sled flaky_view flaky_durable"
    by (auto simp: insert_laws_def flaky_sled_def flaky_view_def flaky_durable_def mem_view_def
        mem_durable_def upd_content_def fun_eq_iff)
  moreover have "flush_laws flaky_sled flaky_view flaky_durable"
    by (auto simp: flush_laws_def flaky_sled_def flaky_view_def flaky_durable_def mem_view_def
        mem_durable_def fun_eq_iff split: if_splits)
  ultimately show ?thesis by (simp add: sled_laws_def)
qed

text \<open>The states of the run: registered and flushed, after the failed flush, after the crash.\<close>

definition flaky_entry :: "(string \<times> bytes) \<times> bytes" where
  "flaky_entry = ((VALIDATORS_TREE, sample_pk), fst validator_format sample_validator)"

definition flaky_start :: "(mem_db \<times> nat) slashing_db" where
  "flaky_start = open_db (([flaky_entry], [flaky_entry]), 1)"

definition flaky_vote :: att_request where "flaky_vote = (sample_pk, 0, 1, [1], 5)"
definition flaky_conflict :: att_request where "flaky_conflict = (sample_pk, 0, 1, [2], 6)"

definition flaky_failed :: "(mem_db \<times> nat) slashing_db" where
  "flaky_failed = fst (att_request flaky_sled sample_codec flaky_start flaky_vote)"

lemmas flaky_eval = flaky_start_def flaky_entry_def flaky_vote_def flaky_conflict_def flaky_failed_def flaky_sled_def
  mem_scan_def open_db_def tree_names sample_validator_def
  check_and_record_attestation_def double_vote_check_def min_epoch_check_def record_attestation_def
  get_validator_data_def update_validator_data_def prefix_attestation_key

lemma flaky_first_refused: "\<not> snd (att_request flaky_sled sample_codec flaky_start flaky_vote)"
  by (simp add: flaky_eval)

lemma flaky_repeat_granted: "snd (att_request flaky_sled sample_codec flaky_failed flaky_vote)"
  "fst (att_request flaky_sled sample_codec flaky_failed flaky_vote) = flaky_failed"
  by (simp_all add: flaky_eval)

definition flaky_recovered :: "(mem_db \<times> nat) slashing_db" where
  "flaky_recovered = open_db (([flaky_entry], [flaky_entry]), 0)"

lemma flaky_crash: "restart flaky_view flaky_durable flaky_failed flaky_recovered"
  by (auto simp: restart_def recovered_def flaky_view_def flaky_durable_def mem_view_def mem_durable_def
      fun_eq_iff flaky_eval flaky_recovered_def)

lemma flaky_conflict_granted: "snd (att_request flaky_sled sample_codec flaky_recovered flaky_conflict)"
  by (simp add: flaky_eval flaky_recovered_def)

lemma flaky_registered:
  "admin_step flaky_sled sample_codec (open_db (([], []), 2)) (open_db (([flaky_entry], []), 2))"
  "admin_step flaky_sled sample_codec (open_db (([flaky_entry], []), 2)) flaky_start"
proof -
  have "register_validator flaky_sled sample_codec (open_db (([], []), 2)) sample_pk 0
      = (open_db (([flaky_entry], []), 2), Inr ())"
    by (simp add: register_validator_def flaky_eval)
  then show "admin_step flaky_sled sample_codec (open_db (([], []), 2)) (open_db (([flaky_entry], []), 2))"
    by (rule admin_step.intros)
  have "flush_db flaky_sled (open_db (([flaky_entry], []), 2)) = (flaky_start, Inr ())"
    by (simp add: flush_db_def flaky_eval)
  then show "admin_step flaky_sled sample_codec (open_db (([flaky_entry], []), 2)) flaky_start"
    by (rule admin_step.intros)
qed


end
