(* ===== verification/Eots_Db.thy ===== *)
theory Eots_Db
  imports Slashing_Db
begin

text \<open>
  The EOTS keys of a Babylon finality provider, \<^verbatim>\<open>crates/validator/src/babylon.rs\<close>: the height
  database \<^verbatim>\<open>EotsSlashingDb\<close> and the signing key \<^verbatim>\<open>EotsKey\<close>. Signing two votes for one height
  reveals the private key, so the database refuses every second request for a height, even an
  identical one. The store is the parameter of \<open>Sled_Store\<close>, the JSON and hex encodings and the
  elliptic curve and hash functions (crates \<^verbatim>\<open>k256\<close> and \<^verbatim>\<open>sha2\<close>) are the parameters \<open>C\<close> and \<open>X\<close>.
\<close>

section \<open>Data\<close>

type_synonym block_height = u64

definition EOTS_HEIGHTS_TREE :: string where "EOTS_HEIGHTS_TREE = ''eots_heights''"
definition EOTS_KEYS_TREE :: string where "EOTS_KEYS_TREE = ''eots_keys''"

record eots_key_data =
  ekd_public_key :: bytes
  ekd_chain_id :: string
  ekd_created_at :: time
  ekd_last_activity :: time
  ekd_signature_count :: u64

record eots_codec =
  eots_hex :: "bytes \<Rightarrow> string"
  ser_eots_key :: "eots_key_data \<Rightarrow> (string, bytes) res"
  de_eots_key :: "bytes \<Rightarrow> (string, eots_key_data) res"

record 'k eots_crypto =
  key_from_slice :: "bytes \<Rightarrow> (string, 'k) res"
  key_sec1_bytes :: "'k \<Rightarrow> bytes"
  sign_prehash_recoverable :: "'k \<Rightarrow> bytes \<Rightarrow> (string, bytes \<times> byte) res"
  sha256 :: "bytes \<Rightarrow> bytes"

record 'k eots_key =
  signing_key :: 'k
  ek_public_key :: bytes
  ek_chain_id :: string

record eots_signature =
  es_height :: block_height
  es_block_hash :: bytes
  es_signature :: bytes
  es_recovery_id :: byte

section \<open>The height database\<close>

text \<open>\<^verbatim>\<open>DateTime::timestamp\<close>: whole seconds as an \<^verbatim>\<open>i64\<close>.\<close>

definition timestamp_le_bytes :: "time \<Rightarrow> bytes" where
  "timestamp_le_bytes now = to_le_bytes (word_of_int (now div 1000000000))"

definition register_key ::
  "'db sled \<Rightarrow> eots_codec \<Rightarrow> 'db \<Rightarrow> bytes \<Rightarrow> string \<Rightarrow> time \<Rightarrow> 'db \<times> (validator_error, unit) res" where
  "register_key S C db pk chain now =
     (case s_contains_key S db EOTS_KEYS_TREE pk of
        Inl e \<Rightarrow> (db, Inl (Database e))
      | Inr True \<Rightarrow> (db, Inl (ValidatorAlreadyExists (eots_hex C pk)))
      | Inr False \<Rightarrow>
          (case ser_eots_key C \<lparr>ekd_public_key = pk, ekd_chain_id = chain, ekd_created_at = now,
                  ekd_last_activity = now, ekd_signature_count = 0\<rparr> of
             Inl e \<Rightarrow> (db, Inl (Serialization e))
           | Inr encoded \<Rightarrow>
               (case s_insert S db EOTS_KEYS_TREE pk encoded of
                  (db', r) \<Rightarrow> (db', map_err Database r))))"

definition height_key :: "bytes \<Rightarrow> block_height \<Rightarrow> bytes" where
  "height_key pk h = pk @ [58] @ to_be_bytes h"

text \<open>The metadata update at the end of \<^verbatim>\<open>check_and_record_height\<close>, whose errors are ignored.\<close>

definition touch_key :: "'db sled \<Rightarrow> eots_codec \<Rightarrow> 'db \<Rightarrow> bytes \<Rightarrow> time \<Rightarrow> 'db" where
  "touch_key S C db pk now =
     (case s_get S db EOTS_KEYS_TREE pk of
        Inr (Some data) \<Rightarrow>
          (case de_eots_key C data of
             Inr key_data \<Rightarrow>
               (case ser_eots_key C (key_data\<lparr>ekd_last_activity := now,
                        ekd_signature_count := ekd_signature_count key_data + 1\<rparr>) of
                  Inr encoded \<Rightarrow> fst (s_insert S db EOTS_KEYS_TREE pk encoded)
                | Inl _ \<Rightarrow> db)
           | Inl _ \<Rightarrow> db)
      | _ \<Rightarrow> db)"

definition check_and_record_height ::
  "'db sled \<Rightarrow> eots_codec \<Rightarrow> 'db \<Rightarrow> bytes \<Rightarrow> block_height \<Rightarrow> time \<Rightarrow> 'db \<times> (slashing_error, unit) res" where
  "check_and_record_height S C db pk h now =
     (case s_contains_key S db EOTS_HEIGHTS_TREE (height_key pk h) of
        Inr True \<Rightarrow> (db, Inl (EotsDoubleSign h))
      | Inl e \<Rightarrow> (db, Inl (DatabaseError (''Failed to read EOTS height record: '' @ e)))
      | Inr False \<Rightarrow>
          (case s_insert S db EOTS_HEIGHTS_TREE (height_key pk h) (timestamp_le_bytes now) of
             (db1, Inl e) \<Rightarrow> (db1, Inl (DatabaseError (''Failed to record EOTS height: '' @ e)))
           | (db1, Inr _) \<Rightarrow>
               (case s_flush S db1 of
                  (db2, Inl e) \<Rightarrow> (db2, Inl (DatabaseError (''Failed to flush EOTS height record: '' @ e)))
                | (db2, Inr _) \<Rightarrow> (touch_key S C db2 pk now, Inr ()))))"

definition is_height_signed ::
  "'db sled \<Rightarrow> 'db \<Rightarrow> bytes \<Rightarrow> block_height \<Rightarrow> (validator_error, bool) res" where
  "is_height_signed S db pk h = map_err Database (s_contains_key S db EOTS_HEIGHTS_TREE (height_key pk h))"

text \<open>The heights of the keys that a scan returns; a key of another length than a height key of
  this public key is skipped.\<close>

fun collect_heights ::
  "bytes \<Rightarrow> (string, bytes \<times> bytes) res list \<Rightarrow> (validator_error, block_height list) res" where
  "collect_heights p [] = Inr []"
| "collect_heights p (Inl e # items) = Inl (Database e)"
| "collect_heights p (Inr (key, _) # items) =
     bind_res (collect_heights p items) (\<lambda>hs.
       if length key > length p \<and> length (drop (length p) key) = 8
       then Inr (from_be_bytes (drop (length p) key) # hs) else Inr hs)"

definition get_signed_heights :: "'db sled \<Rightarrow> 'db \<Rightarrow> bytes \<Rightarrow> (validator_error, block_height list) res" where
  "get_signed_heights S db pk =
     bind_res (collect_heights (pk @ [58]) (s_scan_prefix S db EOTS_HEIGHTS_TREE (pk @ [58])))
       (\<lambda>hs. Inr (sort hs))"

definition eots_flush :: "'db sled \<Rightarrow> 'db \<Rightarrow> 'db \<times> (validator_error, unit) res" where
  "eots_flush S db = (case s_flush S db of (db', r) \<Rightarrow> (db', map_err Database r))"

section \<open>EOTS keys\<close>

text \<open>\<^verbatim>\<open>EotsKey::new\<close> and \<^verbatim>\<open>EotsKey::generate\<close>; the fresh random key of the latter is an argument.\<close>

definition eots_key_new ::
  "'db sled \<Rightarrow> eots_codec \<Rightarrow> 'k eots_crypto \<Rightarrow> 'db \<Rightarrow> bytes \<Rightarrow> string \<Rightarrow> time \<Rightarrow>
   'db \<times> (validator_error, 'k eots_key) res" where
  "eots_key_new S C X db secret chain now =
     (case key_from_slice X secret of
        Inl e \<Rightarrow> (db, Inl (InvalidPublicKey (''Invalid secp256k1 secret key: '' @ e)))
      | Inr k \<Rightarrow>
          let pk = key_sec1_bytes X k;
              key = \<lparr>signing_key = k, ek_public_key = pk, ek_chain_id = chain\<rparr>;
              known = (case s_contains_key S db EOTS_KEYS_TREE pk of Inr b \<Rightarrow> b | Inl _ \<Rightarrow> False)
          in if known then (db, Inr key)
             else (case register_key S C db pk chain now of
                     (db', Inl e) \<Rightarrow> (db', Inl e)
                   | (db', Inr _) \<Rightarrow> (db', Inr key)))"

definition eots_key_generate ::
  "'db sled \<Rightarrow> eots_codec \<Rightarrow> 'k eots_crypto \<Rightarrow> 'db \<Rightarrow> 'k \<Rightarrow> string \<Rightarrow> time \<Rightarrow>
   'db \<times> (validator_error, 'k eots_key) res" where
  "eots_key_generate S C X db k chain now =
     (let pk = key_sec1_bytes X k in
      case register_key S C db pk chain now of
        (db', Inl e) \<Rightarrow> (db', Inl e)
      | (db', Inr _) \<Rightarrow> (db', Inr \<lparr>signing_key = k, ek_public_key = pk, ek_chain_id = chain\<rparr>))"

definition create_vote_message :: "'k eots_key \<Rightarrow> block_height \<Rightarrow> bytes \<Rightarrow> bytes" where
  "create_vote_message key h hash = to_le_bytes h @ hash @ str_bytes (ek_chain_id key)"

definition sign_finality_vote ::
  "'db sled \<Rightarrow> eots_codec \<Rightarrow> 'k eots_crypto \<Rightarrow> 'k eots_key \<Rightarrow> 'db \<Rightarrow> block_height \<Rightarrow> bytes \<Rightarrow> time \<Rightarrow>
   'db \<times> (validator_error, eots_signature) res" where
  "sign_finality_vote S C X key db h hash now =
     (case check_and_record_height S C db (ek_public_key key) h now of
        (db', Inl e) \<Rightarrow> (db', Inl (Slashing e))
      | (db', Inr _) \<Rightarrow>
          (case sign_prehash_recoverable X (signing_key key) (sha256 X (create_vote_message key h hash)) of
             Inl e \<Rightarrow> (db', Inl (Crypto e))
           | Inr (sig, rid) \<Rightarrow> (db', Inr \<lparr>es_height = h, es_block_hash = hash, es_signature = sig,
                es_recovery_id = rid\<rparr>)))"

definition eots_signature_to_bytes :: "eots_signature \<Rightarrow> bytes" where
  "eots_signature_to_bytes s =
     to_le_bytes (es_height s) @ es_block_hash s @ es_signature s @ [es_recovery_id s]"

lemma height_key_inject [simp]: "height_key pk h = height_key pk' h' \<longleftrightarrow> pk = pk' \<and> h = h'"
  by (auto simp: height_key_def append_same_suffix_length)

lemma eots_trees_distinct [simp]: "EOTS_KEYS_TREE \<noteq> EOTS_HEIGHTS_TREE" "EOTS_HEIGHTS_TREE \<noteq> EOTS_KEYS_TREE"
  by (simp_all add: EOTS_KEYS_TREE_def EOTS_HEIGHTS_TREE_def)

end
