(* ===== verification/Eots_Safety.thy ===== *)
theory Eots_Safety
  imports Eots_Db Signing_Guard
begin

text \<open>
  The EOTS height database as a signing guard. The contract is discharged for a store that may
  fail at any call and may crash and be reopened at any time: what counts as recorded is what is
  durable, and a height is signed only after its record is durable.
\<close>

section \<open>The height tree\<close>

lemma touch_key_tree:
  assumes "sled_laws S V D" "dur_le V D EOTS_HEIGHTS_TREE db"
  shows "tree_same V D EOTS_HEIGHTS_TREE db (touch_key S C db pk now)"
proof -
  have "tree_same V D EOTS_HEIGHTS_TREE db (fst (s_insert S db EOTS_KEYS_TREE pk v))" for v
    using insert_other_tree [OF assms, of EOTS_KEYS_TREE pk v]
    by (metis eots_trees_distinct(1) surjective_pairing)
  then show ?thesis
    using assms(2) by (auto simp: touch_key_def tree_same_refl split: sum.splits option.splits)
qed

lemma register_key_tree:
  assumes "sled_laws S V D" "dur_le V D EOTS_HEIGHTS_TREE db" "register_key S C db pk chain now = (db', r)"
  shows "tree_same V D EOTS_HEIGHTS_TREE db db'"
  using assms insert_other_tree [OF assms(1,2) _ eots_trees_distinct(1)]
  by (auto simp: register_key_def tree_same_refl split: sum.splits bool.splits prod.splits)

text \<open>A granted height was not visible before and is durable afterwards; in every case the tree
  only grows.\<close>

lemma check_and_record_height_effect:
  assumes laws: "sled_laws S V D" and le: "dur_le V D EOTS_HEIGHTS_TREE db"
    and run: "check_and_record_height S C db pk h now = (db', r)"
  shows "tree_grows V D EOTS_HEIGHTS_TREE db db'"
    and "r = Inr () \<Longrightarrow> V db EOTS_HEIGHTS_TREE (height_key pk h) = None"
    and "r = Inr () \<Longrightarrow> D db' EOTS_HEIGHTS_TREE (height_key pk h) \<noteq> None"
proof -
  let ?t = EOTS_HEIGHTS_TREE and ?k = "height_key pk h"
  consider (stay) "db' = db" "r \<noteq> Inr ()"
    | (ins) db1 r1 where "s_contains_key S db ?t ?k = Inr False"
        "s_insert S db ?t ?k (timestamp_le_bytes now) = (db1, r1)" "r1 \<noteq> Inr ()" "db' = db1" "r \<noteq> Inr ()"
    | (flush) db1 db2 r2 where "s_contains_key S db ?t ?k = Inr False"
        "s_insert S db ?t ?k (timestamp_le_bytes now) = (db1, Inr ())" "s_flush S db1 = (db2, r2)"
        "r = Inr () \<longleftrightarrow> r2 = Inr ()" "db' = (if r2 = Inr () then touch_key S C db2 pk now else db2)"
    using run by (auto simp: check_and_record_height_def split: sum.splits bool.splits prod.splits)
  then have "tree_grows V D ?t db db' \<and> (r = Inr () \<longrightarrow> V db ?t ?k = None \<and> D db' ?t ?k \<noteq> None)"
  proof cases
    case stay
    then show ?thesis using le by (simp add: tree_grows_refl)
  next
    case ins
    then show ?thesis using insert_tree_grows [OF laws le ins(2)] sled_contains [OF laws ins(1)] by simp
  next
    case flush
    have new: "V db ?t ?k = None" using sled_contains [OF laws flush(1)] by simp
    have 1: "tree_grows V D ?t db db1" using insert_tree_grows [OF laws le flush(2)] new by simp
    have 2: "tree_same V D ?t db1 db2" by (rule flush_tree_same [OF laws tree_grows_dur_le [OF 1] flush(3)])
    have 3: "tree_same V D ?t db2 (touch_key S C db2 pk now)"
      by (rule touch_key_tree [OF laws tree_same_le [OF 2]])
    have "tree_same V D ?t db1 db'"
      using 2 3 flush(5) by (auto intro: tree_same_trans)
    then have grows: "tree_grows V D ?t db db'"
      using 1 by (auto simp: tree_same_def intro: tree_grows_trans)
    have "V db1 ?t ?k \<noteq> None" using insert_ok_view [OF laws flush(2)] by simp
    then have "D db2 ?t ?k \<noteq> None" if "r2 = Inr ()"
      using sled_flush_ok [OF laws] flush(3) that by simp
    then have "D db' ?t ?k \<noteq> None" if "r2 = Inr ()"
      using 3 flush(5) that by (auto simp: tree_same_def tree_grows_def dest: map_le_SomeD)
    with grows new flush(4) show ?thesis by simp
  qed
  then show "tree_grows V D ?t db db'" and "r = Inr () \<Longrightarrow> V db ?t ?k = None"
    and "r = Inr () \<Longrightarrow> D db' ?t ?k \<noteq> None" by auto
qed

section \<open>The contract\<close>

type_synonym 'k vote_request = "'k eots_key \<times> block_height \<times> bytes \<times> time"

fun vote_request ::
  "'db sled \<Rightarrow> eots_codec \<Rightarrow> 'k eots_crypto \<Rightarrow> 'db \<Rightarrow> 'k vote_request \<Rightarrow> 'db \<times> bool" where
  "vote_request S C X db (key, h, hash, now) =
     (case sign_finality_vote S C X key db h hash now of (db', r) \<Rightarrow> (db', \<exists>sig. r = Inr sig))"

text \<open>Two votes that together reveal a private key: one key, one height.\<close>

fun reveals_key :: "'k vote_request \<Rightarrow> 'k vote_request \<Rightarrow> bool" where
  "reveals_key (key, h, _, _) (key', h', _, _) \<longleftrightarrow> ek_public_key key = ek_public_key key' \<and> h = h'"

definition eots_inv :: "'db sled \<Rightarrow> ('db \<Rightarrow> content) \<Rightarrow> ('db \<Rightarrow> content) \<Rightarrow> 'db \<Rightarrow> bool" where
  "eots_inv S V D db \<longleftrightarrow> sled_laws S V D \<and> dur_le V D EOTS_HEIGHTS_TREE db"

fun vote_recorded :: "('db \<Rightarrow> content) \<Rightarrow> 'db \<Rightarrow> 'k vote_request \<Rightarrow> bool" where
  "vote_recorded D db (key, h, _, _) \<longleftrightarrow> D db EOTS_HEIGHTS_TREE (height_key (ek_public_key key) h) \<noteq> None"

definition eots_env ::
  "'db sled \<Rightarrow> ('db \<Rightarrow> content) \<Rightarrow> ('db \<Rightarrow> content) \<Rightarrow> eots_codec \<Rightarrow> 'db \<Rightarrow> 'db \<Rightarrow> bool" where
  "eots_env S V D C db db' \<longleftrightarrow>
     (\<exists>pk chain now r. register_key S C db pk chain now = (db', r)) \<or> (\<exists>r. eots_flush S db = (db', r)) \<or>
     recovered V D db db'"

lemma vote_request_effect:
  assumes "eots_inv S V D db" "vote_request S C X db q = (db', b)"
  shows "tree_grows V D EOTS_HEIGHTS_TREE db db'"
    and "b \<Longrightarrow> vote_recorded D db' q" and "b \<Longrightarrow> vote_recorded D db p \<Longrightarrow> \<not> reveals_key p q"
proof -
  obtain key h hash now where q: "q = (key, h, hash, now)" by (cases q)
  obtain key' h' hash' now' where p: "p = (key', h', hash', now')" by (cases p)
  obtain r where run: "check_and_record_height S C db (ek_public_key key) h now = (db', r)"
    and b: "b \<Longrightarrow> r = Inr ()"
    using assms(2) q by (auto simp: sign_finality_vote_def split: prod.splits sum.splits)
  from assms(1) have laws: "sled_laws S V D" and le: "dur_le V D EOTS_HEIGHTS_TREE db"
    by (simp_all add: eots_inv_def)
  note effect = check_and_record_height_effect [OF laws le run]
  show "tree_grows V D EOTS_HEIGHTS_TREE db db'" by (rule effect(1))
  show "b \<Longrightarrow> vote_recorded D db' q" using effect(3) b q by simp
  show "b \<Longrightarrow> vote_recorded D db p \<Longrightarrow> \<not> reveals_key p q"
    using effect(2) b p q le by (auto simp: dur_le_def dest: map_le_SomeD)
qed

lemma vote_recorded_mono: "tree_grows V D EOTS_HEIGHTS_TREE db db' \<Longrightarrow> vote_recorded D db q \<Longrightarrow> vote_recorded D db' q"
  by (cases q) (auto simp: tree_grows_def dest: map_le_SomeD)

lemma eots_env_effect:
  assumes "eots_inv S V D db" "eots_env S V D C db db'"
  shows "D db EOTS_HEIGHTS_TREE \<subseteq>\<^sub>m D db' EOTS_HEIGHTS_TREE" and "dur_le V D EOTS_HEIGHTS_TREE db'"
proof -
  have "tree_same V D EOTS_HEIGHTS_TREE db db' \<or> recovered V D db db'"
    using assms register_key_tree flush_tree_same unfolding eots_env_def eots_inv_def eots_flush_def
    by (auto split: prod.splits)
  then show "D db EOTS_HEIGHTS_TREE \<subseteq>\<^sub>m D db' EOTS_HEIGHTS_TREE" "dur_le V D EOTS_HEIGHTS_TREE db'"
    by (auto simp: recovered_def tree_same_def tree_grows_def dur_le_def)
qed

interpretation eots: signing_guard "eots_inv S V D" "vote_request S C X" "\<lambda>_. True" "eots_env S V D C"
    "vote_recorded D" reveals_key
  for S V D C X
proof
  fix s s' q
  assume inv: "eots_inv S V D s" and env: "eots_env S V D C s s'"
  show "eots_inv S V D s'"
    using eots_env_effect(2) [OF inv env] inv by (simp add: eots_inv_def)
  show "vote_recorded D s' q" if "vote_recorded D s q"
    using eots_env_effect(1) [OF inv env] that by (cases q) (auto dest: map_le_SomeD)
next
  fix s s' q p b
  assume inv: "eots_inv S V D s" and req: "vote_request S C X s q = (s', b)"
  note effect = vote_request_effect [OF inv req]
  show "eots_inv S V D s'"
    using effect(1) inv by (auto simp: eots_inv_def dest: tree_grows_dur_le)
  show "vote_recorded D s' p" if "vote_recorded D s p"
    using effect(1) that by (rule vote_recorded_mono)
qed (blast dest: vote_request_effect(2,3))+

section \<open>Properties\<close>

text \<open>A codec and a signature scheme for concrete inputs: the encoding is constant and keys are byte
  strings that sign by appending.\<close>

definition sample_eots_codec :: eots_codec where
  "sample_eots_codec = \<lparr>eots_hex = (\<lambda>_. ''00''), ser_eots_key = (\<lambda>_. Inr []), de_eots_key = (\<lambda>_. Inl ''eof'')\<rparr>"

definition sample_eots_crypto :: "bytes eots_crypto" where
  "sample_eots_crypto = \<lparr>key_from_slice = Inr, key_sec1_bytes = id,
     sign_prehash_recoverable = (\<lambda>k m. Inr (k @ m, 0)), sha256 = id\<rparr>"

definition sample_eots_key :: "bytes eots_key" where
  "sample_eots_key = \<lparr>signing_key = [7], ek_public_key = [7], ek_chain_id = ''bbn''\<rparr>"

text \<open>C6: no store failure and no crash makes an EOTS key sign twice at one height: in any run of
  \<^verbatim>\<open>sign_finality_vote\<close> over all keys of a database, interleaved with registrations, flushes and
  restarts that lose whatever is not durable, the votes for which a signature was returned are for
  pairwise different heights of each key.\<close>

theorem eots_never_signs_height_twice:
  assumes "sled_laws S V D" "D db EOTS_HEIGHTS_TREE \<subseteq>\<^sub>m V db EOTS_HEIGHTS_TREE"
    and "guard_run (vote_request S C X) (\<lambda>_. True) (eots_env S V D C) db votes db'"
  shows "pairwise_apart (\<lambda>q r. \<not> reveals_key q r) votes"
proof (rule eots.run_apart [OF assms(3)])
  show "eots_inv S V D db" using assms(1,2) by (simp add: eots_inv_def dur_le_def)
qed

lemmas eots_eval = sign_finality_vote_def check_and_record_height_def touch_key_def mem_sled_def
  sample_eots_codec_def sample_eots_crypto_def sample_eots_key_def EOTS_HEIGHTS_TREE_def EOTS_KEYS_TREE_def

theorem eots_never_signs_height_twice_witness:
  "\<exists>db'. guard_run (vote_request mem_sled sample_eots_codec sample_eots_crypto) (\<lambda>_. True)
       (eots_env mem_sled mem_view mem_durable sample_eots_codec) ([], [])
       [(sample_eots_key, 1, [1], 5), (sample_eots_key, 2, [2], 6)] db' \<and>
     pairwise_apart (\<lambda>q r. \<not> reveals_key q r) [(sample_eots_key, 1, [1], 5), (sample_eots_key, 2, [2], 6)]"
proof -
  let ?run = "guard_run (vote_request mem_sled sample_eots_codec sample_eots_crypto) (\<lambda>_. True)
       (eots_env mem_sled mem_view mem_durable sample_eots_codec) ([], [])"
  let ?db1 = "fst (vote_request mem_sled sample_eots_codec sample_eots_crypto ([], []) (sample_eots_key, 1, [1], 5))"
  have "?run ([] @ [(sample_eots_key, 1, [1], 5)]) ?db1"
    by (rule guard_run_grant [OF guard_run.start]) (simp_all add: eots_eval)
  moreover have "eots_env mem_sled mem_view mem_durable sample_eots_codec ?db1 (snd ?db1, snd ?db1)"
    by (simp add: eots_env_def recovered_def mem_view_def mem_durable_def fun_eq_iff)
  ultimately have "?run ([] @ [(sample_eots_key, 1, [1], 5)]) (snd ?db1, snd ?db1)"
    by (rule guard_run.environment)
  then have "\<exists>db'. ?run (([] @ [(sample_eots_key, 1, [1], 5)]) @ [(sample_eots_key, 2, [2], 6)]) db'"
    by (intro exI, rule guard_run_grant) (simp_all add: eots_eval)
  then obtain db' where run: "?run [(sample_eots_key, 1, [1], 5), (sample_eots_key, 2, [2], 6)] db'" by auto
  have "mem_durable ([], []) EOTS_HEIGHTS_TREE \<subseteq>\<^sub>m mem_view ([], []) EOTS_HEIGHTS_TREE"
    by (simp add: mem_empty)
  from eots_never_signs_height_twice [OF mem_sled_laws this run] run show ?thesis by blast
qed

lemma collect_heights_set:
  "(\<forall>x \<in> set items. \<exists>kv. x = Inr kv) \<Longrightarrow>
   \<exists>hs. collect_heights p items = Inr hs \<and>
     set hs = {from_be_bytes (drop (length p) k) | k v. Inr (k, v) \<in> set items \<and> length k = length p + 8}"
proof (induction p items rule: collect_heights.induct)
  case (3 p key v items)
  then obtain hs where hs: "collect_heights p items = Inr hs"
    "set hs = {from_be_bytes (drop (length p) k) | k v. Inr (k, v) \<in> set items \<and> length k = length p + 8}"
    by auto
  then show ?case by auto
qed auto

lemma height_key_of_length:
  assumes "prefix (pk @ [58]) k" "length k = length (pk @ [58]) + 8"
  shows "k = height_key pk (from_be_bytes (drop (length (pk @ [58])) k))"
proof -
  obtain r where "k = (pk @ [58]) @ r" using assms(1) by (auto elim: prefixE)
  moreover from this have "length r = 8" using assms(2) by simp
  ultimately show ?thesis by (simp add: height_key_def to_from_be_bytes)
qed

text \<open>on a store that does not fail, \<^verbatim>\<open>get_signed_heights\<close> returns, in increasing order, exactly
  the heights whose record is in the database, even when other public keys extend this one.\<close>

theorem get_signed_heights_exact:
  assumes "sled_laws S V D" "fault_free S"
  shows "\<exists>hs. get_signed_heights S db pk = Inr hs \<and> sorted hs \<and>
    set hs = {h. V db EOTS_HEIGHTS_TREE (height_key pk h) \<noteq> None}"
proof -
  let ?items = "s_scan_prefix S db EOTS_HEIGHTS_TREE (pk @ [58])"
  have ok: "\<forall>x \<in> set ?items. \<exists>kv. x = Inr kv" using assms(2) by (simp add: fault_free_def)
  have items: "set ?items = Inr ` {(k, v). V db EOTS_HEIGHTS_TREE k = Some v \<and> prefix (pk @ [58]) k}"
    using assms(1) ok by (simp add: sled_laws_def read_laws_def)
  obtain hs where hs: "collect_heights (pk @ [58]) ?items = Inr hs"
    "set hs = {from_be_bytes (drop (length (pk @ [58])) k) | k v. Inr (k, v) \<in> set ?items \<and> length k = length (pk @ [58]) + 8}"
    using collect_heights_set [OF ok] by blast
  have "h \<in> set hs \<longleftrightarrow> V db EOTS_HEIGHTS_TREE (height_key pk h) \<noteq> None" for h
  proof
    assume "h \<in> set hs"
    then obtain k v where "h = from_be_bytes (drop (length (pk @ [58])) k)" "V db EOTS_HEIGHTS_TREE k = Some v"
      "prefix (pk @ [58]) k" "length k = length (pk @ [58]) + 8"
      using hs(2) items by auto
    then show "V db EOTS_HEIGHTS_TREE (height_key pk h) \<noteq> None"
      using height_key_of_length by (metis option.distinct(1))
  next
    assume "V db EOTS_HEIGHTS_TREE (height_key pk h) \<noteq> None"
    then obtain v where "V db EOTS_HEIGHTS_TREE (height_key pk h) = Some v" by blast
    moreover have "prefix (pk @ [58]) (height_key pk h)" by (simp add: height_key_def)
    ultimately have "Inr (height_key pk h, v) \<in> set ?items"
      unfolding items by blast
    then show "h \<in> set hs"
      unfolding hs(2) by (force simp: height_key_def)
  qed
  then show ?thesis using hs(1) by (auto simp: get_signed_heights_def)
qed

theorem get_signed_heights_exact_witness:
  "\<exists>hs. get_signed_heights mem_sled ([((EOTS_HEIGHTS_TREE, height_key [7] 3), [])], []) [7] = Inr hs \<and> set hs = {3}"
  using get_signed_heights_exact [OF mem_sled_laws mem_sled_fault_free,
      of "([((EOTS_HEIGHTS_TREE, height_key [7] 3), [])], [])" "[7]"]
  by (auto simp: mem_view_def)

end
