(* ===== verification/Eth_Safety.thy ===== *)
theory Eth_Safety
  imports Eth_Validator Slashing_Properties
begin

text \<open>
  The guarantee of the slashing protection database for the messages an Ethereum validator signs:
  the attestations and block headers themselves, not their signing roots. The only assumption on
  the hash is that the inputs it is given in the run do not collide.
\<close>

section \<open>Signing roots determine messages\<close>

text \<open>Arrays of 32 bytes.\<close>

definition wf_attestation :: "eth_attestation \<Rightarrow> bool" where
  "wf_attestation a \<longleftrightarrow> length (att_beacon_block_root a) = 32 \<and> length (cp_root (att_source a)) = 32 \<and>
     length (cp_root (att_target a)) = 32"

definition wf_header :: "beacon_block_header \<Rightarrow> bool" where
  "wf_header b \<longleftrightarrow> length (bh_parent_root b) = 32 \<and> length (bh_state_root b) = 32 \<and> length (bh_body_root b) = 32"

lemma attestation_bytes_inject:
  assumes "wf_attestation a" "wf_attestation b" "attestation_bytes a = attestation_bytes b"
  shows "a = b"
proof -
  have "att_slot a = att_slot b \<and> att_index a = att_index b \<and>
      att_beacon_block_root a = att_beacon_block_root b \<and>
      cp_epoch (att_source a) = cp_epoch (att_source b) \<and> cp_root (att_source a) = cp_root (att_source b) \<and>
      cp_epoch (att_target a) = cp_epoch (att_target b) \<and> cp_root (att_target a) = cp_root (att_target b)"
    using assms by (simp add: attestation_bytes_def wf_attestation_def)
  then show ?thesis by simp
qed

lemma block_bytes_inject:
  assumes "wf_header a" "wf_header b" "block_bytes a = block_bytes b"
  shows "a = b"
proof -
  have "bh_slot a = bh_slot b \<and> bh_proposer_index a = bh_proposer_index b \<and> bh_parent_root a = bh_parent_root b \<and>
      bh_state_root a = bh_state_root b \<and> bh_body_root a = bh_body_root b"
    using assms by (simp add: block_bytes_def wf_header_def)
  then show ?thesis by simp
qed

text \<open>\<open>hash_ok H M ds\<close>: the hash has outputs of 32 bytes and does not collide on the inputs that
  the messages with the bytes \<open>M\<close> and the domains \<open>ds\<close> give it.\<close>

definition hash_ok :: "(bytes \<Rightarrow> bytes) \<Rightarrow> bytes set \<Rightarrow> bytes set \<Rightarrow> bool" where
  "hash_ok H M ds \<longleftrightarrow> (\<forall>x. length (H x) = 32) \<and> inj_on H M \<and> inj_on H {H m @ d | m d. m \<in> M \<and> d \<in> ds}"

lemma hash_ok_roots:
  assumes "hash_ok H M ds" "m \<in> M" "m' \<in> M" "d \<in> ds" "d' \<in> ds" "H (H m @ d) = H (H m' @ d')"
  shows "m = m'"
proof -
  have "H m @ d = H m' @ d'"
    using assms unfolding hash_ok_def by (auto dest!: inj_onD)
  then have "H m = H m'" using assms(1) by (simp add: hash_ok_def)
  then show ?thesis using assms(1-3) unfolding hash_ok_def by (auto dest: inj_onD)
qed

section \<open>Attestations\<close>

type_synonym 'k attest_request = "'k eth_validator \<times> eth_attestation \<times> time"
type_synonym 'k propose_request = "'k eth_validator \<times> beacon_block_header \<times> time"

fun attest_request ::
  "'db sled \<Rightarrow> codec \<Rightarrow> (bytes \<Rightarrow> bytes) \<Rightarrow> 'k bls \<Rightarrow> 'db slashing_db \<Rightarrow> 'k attest_request \<Rightarrow> 'db slashing_db \<times> bool" where
  "attest_request S C H B s (v, a, now) =
     (case sign_attestation S C H B v s a now of (s', r) \<Rightarrow> (s', \<exists>sig. r = Inr sig))"

fun propose_request ::
  "'db sled \<Rightarrow> codec \<Rightarrow> (bytes \<Rightarrow> bytes) \<Rightarrow> 'k bls \<Rightarrow> 'db slashing_db \<Rightarrow> 'k propose_request \<Rightarrow> 'db slashing_db \<times> bool" where
  "propose_request S C H B s (v, b, now) =
     (case sign_block S C H B v s b now of (s', r) \<Rightarrow> (s', \<exists>sig. r = Inr sig))"

text \<open>\<^verbatim>\<open>is_slashable_attestation_data\<close> of the consensus specification, and its proposer counterpart.\<close>

fun slashable_data :: "'k attest_request \<Rightarrow> 'k attest_request \<Rightarrow> bool" where
  "slashable_data (v, a, _) (v', a', _) \<longleftrightarrow> ev_public_key v = ev_public_key v' \<and>
     (a \<noteq> a' \<and> cp_epoch (att_target a) = cp_epoch (att_target a') \<or>
      cp_epoch (att_source a) < cp_epoch (att_source a') \<and> cp_epoch (att_target a') < cp_epoch (att_target a) \<or>
      cp_epoch (att_source a') < cp_epoch (att_source a) \<and> cp_epoch (att_target a) < cp_epoch (att_target a'))"

fun slashable_headers :: "'k propose_request \<Rightarrow> 'k propose_request \<Rightarrow> bool" where
  "slashable_headers (v, b, _) (v', b', _) \<longleftrightarrow>
     ev_public_key v = ev_public_key v' \<and> b \<noteq> b' \<and> bh_slot b = bh_slot b'"

fun att_of :: "(bytes \<Rightarrow> bytes) \<Rightarrow> 'k attest_request \<Rightarrow> att_request" where
  "att_of H (v, a, now) =
     (ev_public_key v, cp_epoch (att_source a), cp_epoch (att_target a), attester_root H v a, now)"

fun block_of :: "(bytes \<Rightarrow> bytes) \<Rightarrow> 'k propose_request \<Rightarrow> block_request" where
  "block_of H (v, b, now) = (ev_public_key v, bh_slot b, proposer_root H v b, now)"

lemma attest_request_of: "attest_request S C H B s q = att_request S C s (att_of H q)"
  by (cases q) (auto simp: sign_attestation_def Let_def split: prod.splits sum.splits)

lemma propose_request_of: "propose_request S C H B s q = block_request S C s (block_of H q)"
  by (cases q) (auto simp: sign_block_def Let_def split: prod.splits sum.splits)

text \<open>The hash inputs of a set of requests, validators with the messages they are asked to sign.\<close>

definition attest_hash_ok :: "(bytes \<Rightarrow> bytes) \<Rightarrow> ('k eth_validator \<times> eth_attestation) set \<Rightarrow> bool" where
  "attest_hash_ok H Q \<longleftrightarrow> hash_ok H ((\<lambda>q. attestation_bytes (snd q)) ` Q)
     ((\<lambda>q. compute_domain H (ev_fork_info (fst q)) BeaconAttester) ` Q)"

definition propose_hash_ok :: "(bytes \<Rightarrow> bytes) \<Rightarrow> ('k eth_validator \<times> beacon_block_header) set \<Rightarrow> bool" where
  "propose_hash_ok H Q \<longleftrightarrow> hash_ok H ((\<lambda>q. block_bytes (snd q)) ` Q)
     ((\<lambda>q. compute_domain H (ev_fork_info (fst q)) BeaconProposer) ` Q)"

lemma attester_root_inject:
  assumes "attest_hash_ok H Q" "(v, a) \<in> Q" "(v', a') \<in> Q"
    "wf_attestation a" "wf_attestation a'" "attester_root H v a = attester_root H v' a'"
  shows "a = a'"
proof -
  have "attestation_bytes a = attestation_bytes a'"
    using assms(6) unfolding attester_root_def attestation_signing_root_def
    by (rule hash_ok_roots [OF assms(1) [unfolded attest_hash_ok_def]
        imageI [OF assms(2), of "\<lambda>q. attestation_bytes (snd q)", unfolded snd_conv]
        imageI [OF assms(3), of "\<lambda>q. attestation_bytes (snd q)", unfolded snd_conv]
        imageI [OF assms(2), of "\<lambda>q. compute_domain H (ev_fork_info (fst q)) BeaconAttester", unfolded fst_conv]
        imageI [OF assms(3), of "\<lambda>q. compute_domain H (ev_fork_info (fst q)) BeaconAttester", unfolded fst_conv]])
  then show ?thesis using assms attestation_bytes_inject by blast
qed

lemma proposer_root_inject:
  assumes "propose_hash_ok H Q" "(v, a) \<in> Q" "(v', a') \<in> Q"
    "wf_header a" "wf_header a'" "proposer_root H v a = proposer_root H v' a'"
  shows "a = a'"
proof -
  have "block_bytes a = block_bytes a'"
    using assms(6) unfolding proposer_root_def block_signing_root_def
    by (rule hash_ok_roots [OF assms(1) [unfolded propose_hash_ok_def]
        imageI [OF assms(2), of "\<lambda>q. block_bytes (snd q)", unfolded snd_conv]
        imageI [OF assms(3), of "\<lambda>q. block_bytes (snd q)", unfolded snd_conv]
        imageI [OF assms(2), of "\<lambda>q. compute_domain H (ev_fork_info (fst q)) BeaconProposer", unfolded fst_conv]
        imageI [OF assms(3), of "\<lambda>q. compute_domain H (ev_fork_info (fst q)) BeaconProposer", unfolded fst_conv]])
  then show ?thesis using assms block_bytes_inject by blast
qed

text \<open>Given that roots determine attestations, some function reads the epochs off a root.\<close>

lemma epochs_of_roots:
  assumes "attest_hash_ok H Q" "\<forall>q \<in> Q. wf_attestation (snd q)"
  obtains E where "\<And>v a now. (v, a) \<in> Q \<Longrightarrow> att_legit E (att_of H (v, a, now))"
proof -
  define E where "E root = (let a = snd (SOME q. q \<in> Q \<and> attester_root H (fst q) (snd q) = root)
    in (cp_epoch (att_source a), cp_epoch (att_target a)))" for root
  have "att_legit E (att_of H (v, a, now))" if "(v, a) \<in> Q" for v a now
  proof -
    let ?P = "\<lambda>q. q \<in> Q \<and> attester_root H (fst q) (snd q) = attester_root H v a"
    have "?P (SOME q. ?P q)" by (rule someI [of ?P "(v, a)"]) (simp add: that)
    then obtain w b where q: "(SOME q. ?P q) = (w, b)" "(w, b) \<in> Q" "attester_root H w b = attester_root H v a"
      by (cases "SOME q. ?P q") simp
    then have "snd (SOME q. ?P q) = a"
      using attester_root_inject [OF assms(1) q(2) that _ _ q(3)] assms(2) q(2) that by force
    then show ?thesis by (simp add: E_def Let_def)
  qed
  then show ?thesis using that by blast
qed

section \<open>Signed messages are not slashable\<close>

definition asked :: "('v \<times> 'a) set \<Rightarrow> 'v \<times> 'a \<times> time \<Rightarrow> bool" where
  "asked Q q \<longleftrightarrow> (fst q, fst (snd q)) \<in> Q"

lemma slashable_data_of:
  assumes "attest_hash_ok H Q" "\<forall>q \<in> Q. wf_attestation (snd q)" "asked Q p" "asked Q q" "slashable_data p q"
  shows "slashable_attestations (att_of H p) (att_of H q)"
proof -
  obtain v a n v' a' n' where pq: "p = (v, a, n)" "q = (v', a', n')" by (cases p, cases q)
  have "attester_root H v a \<noteq> attester_root H v' a'" if "a \<noteq> a'"
    using attester_root_inject [OF assms(1), of v a v' a'] assms(2-4) pq that by (force simp: asked_def)
  then show ?thesis using assms(5) pq by auto
qed

lemma slashable_headers_of:
  assumes "propose_hash_ok H Q" "\<forall>q \<in> Q. wf_header (snd q)" "asked Q p" "asked Q q" "slashable_headers p q"
  shows "slashable_blocks (block_of H p) (block_of H q)"
proof -
  obtain v a n v' a' n' where pq: "p = (v, a, n)" "q = (v', a', n')" by (cases p, cases q)
  have "proposer_root H v a \<noteq> proposer_root H v' a'" if "a \<noteq> a'"
    using proposer_root_inject [OF assms(1), of v a v' a'] assms(2-4) pq that by (force simp: asked_def)
  then show ?thesis using assms(5) pq by auto
qed

text \<open>Concrete inputs. The hash pads its input with zeros and cuts it to 32 bytes.\<close>

definition sample_hash :: "bytes \<Rightarrow> bytes" where
  "sample_hash x = take 32 (x @ replicate 32 0)"

definition sample_bls :: "bytes bls" where
  "sample_bls = \<lparr>bls_from_bytes = Inr, bls_public_key = id, bls_sign = (\<lambda>k m d. k @ m),
     bls_check_pk = (\<lambda>_. Inr ()), bls_check_sig = (\<lambda>_. Inr ()), bls_verify = (\<lambda>s m d k. s = k @ m)\<rparr>"

definition sample_eth_validator :: "bytes eth_validator" where
  "sample_eth_validator = \<lparr>ev_public_key = sample_pk, ev_secret_key = [7],
     ev_fork_info = \<lparr>fork_version = replicate 4 0, genesis_validators_root = replicate 32 0\<rparr>\<rparr>"

definition sample_att :: "u64 \<Rightarrow> eth_attestation" where
  "sample_att n = \<lparr>att_slot = n, att_index = 0, att_beacon_block_root = replicate 32 0,
     att_source = \<lparr>cp_epoch = n, cp_root = replicate 32 0\<rparr>, att_target = \<lparr>cp_epoch = n + 1, cp_root = replicate 32 0\<rparr>\<rparr>"

definition sample_header :: "u64 \<Rightarrow> beacon_block_header" where
  "sample_header n = \<lparr>bh_slot = n, bh_proposer_index = 0, bh_parent_root = replicate 32 0,
     bh_state_root = replicate 32 0, bh_body_root = replicate 32 0\<rparr>"

definition sample_attests :: "(bytes eth_validator \<times> eth_attestation) set" where
  "sample_attests = {(sample_eth_validator, sample_att 1), (sample_eth_validator, sample_att 2)}"

definition sample_proposals :: "(bytes eth_validator \<times> beacon_block_header) set" where
  "sample_proposals = {(sample_eth_validator, sample_header 1), (sample_eth_validator, sample_header 2)}"

lemma sample_hash_prefix: "length p = 8 \<Longrightarrow> take 8 (sample_hash (p @ x)) = p"
  by (simp add: sample_hash_def min_def)

lemma sample_hash_length: "length (sample_hash x) = 32"
  by (simp add: sample_hash_def)

lemma sample_hash_nested: "sample_hash (sample_hash x @ d) = sample_hash x"
  by (simp add: sample_hash_def)

lemma sample_hash_differs: "to_le_bytes m \<noteq> to_le_bytes n \<Longrightarrow> sample_hash (to_le_bytes m @ x) \<noteq> sample_hash (to_le_bytes n @ y)"
  by (metis sample_hash_prefix length_to_le_bytes)

lemma sample_attests_ok: "attest_hash_ok sample_hash sample_attests" "\<forall>q \<in> sample_attests. wf_attestation (snd q)"
proof -
  have "sample_hash (attestation_bytes (sample_att 1)) \<noteq> sample_hash (attestation_bytes (sample_att 2))"
    unfolding attestation_bytes_def by (rule sample_hash_differs) (simp add: sample_att_def)
  then show "attest_hash_ok sample_hash sample_attests"
    by (auto simp: attest_hash_ok_def hash_ok_def sample_attests_def sample_hash_length sample_hash_nested inj_on_def)
  show "\<forall>q \<in> sample_attests. wf_attestation (snd q)"
    by (auto simp: sample_attests_def wf_attestation_def sample_att_def)
qed

lemma sample_proposals_ok: "propose_hash_ok sample_hash sample_proposals" "\<forall>q \<in> sample_proposals. wf_header (snd q)"
proof -
  have "sample_hash (block_bytes (sample_header 1)) \<noteq> sample_hash (block_bytes (sample_header 2))"
    unfolding block_bytes_def by (rule sample_hash_differs) (simp add: sample_header_def)
  then show "propose_hash_ok sample_hash sample_proposals"
    by (auto simp: propose_hash_ok_def hash_ok_def sample_proposals_def sample_hash_length sample_hash_nested inj_on_def)
  show "\<forall>q \<in> sample_proposals. wf_header (snd q)"
    by (auto simp: sample_proposals_def wf_header_def sample_header_def)
qed

definition eth_vote1 :: "bytes attest_request" where "eth_vote1 = (sample_eth_validator, sample_att 1, 5)"
definition eth_vote2 :: "bytes attest_request" where "eth_vote2 = (sample_eth_validator, sample_att 2, 6)"
definition eth_block1 :: "bytes propose_request" where "eth_block1 = (sample_eth_validator, sample_header 1, 5)"
definition eth_block2 :: "bytes propose_request" where "eth_block2 = (sample_eth_validator, sample_header 2, 6)"

lemmas eth_eval = asked_def eth_vote1_def eth_vote2_def eth_block1_def eth_block2_def sample_attests_def
  sample_proposals_def sample_eth_validator_def sample_att_def sample_header_def

text \<open>C7: end to end for attestations. Validators that share a database are asked to sign attestations
  from a set \<open>Q\<close> whose hash inputs do not collide; the store may fail at any call. The attestations
  that get a signature never contain two that are slashable as attestation data.\<close>

theorem signed_attestations_not_slashable:
  assumes "sled_laws S V D" "codec_laws C"
    and "V db ATTESTATIONS_TREE = Map.empty" "D db ATTESTATIONS_TREE = Map.empty"
    and "attest_hash_ok H Q" "\<forall>q \<in> Q. wf_attestation (snd q)"
    and "guard_run (attest_request S C H B) (asked Q) (att_env S C) (open_db db) qs s"
  shows "pairwise_apart (\<lambda>p q. \<not> slashable_data p q) qs"
proof -
  obtain E where E: "\<And>v a now. (v, a) \<in> Q \<Longrightarrow> att_legit E (att_of H (v, a, now))"
    using epochs_of_roots [OF assms(5,6)] by blast
  have legit: "att_legit E (att_of H q)" if "asked Q q" for q
    using E that by (cases q) (simp add: asked_def)
  note map_run = guard_run_map [where f = "att_of H" and request = "att_request S C" and legit = "att_legit E",
      OF assms(7) attest_request_of legit]
  have "pairwise_apart (\<lambda>q r. \<not> slashable_attestations q r) (map (att_of H) qs)"
    using map_run(1) att_inv_fresh [OF assms(1-4)] by (rule att.run_apart)
  then show ?thesis
    using map_run(2) slashable_data_of [OF assms(5,6)]
    unfolding sorted_wrt_map by (elim sorted_wrt_mono_rel [rotated]) blast
qed

theorem signed_attestations_not_slashable_witness:
  "\<exists>s. guard_run (attest_request mem_sled sample_codec sample_hash sample_bls) (asked sample_attests)
        (att_env mem_sled sample_codec) (open_db ([], [])) [eth_vote1, eth_vote2] s \<and>
     pairwise_apart (\<lambda>p q. \<not> slashable_data p q) [eth_vote1, eth_vote2]"
proof -
  let ?run = "guard_run (attest_request mem_sled sample_codec sample_hash sample_bls) (asked sample_attests)
        (att_env mem_sled sample_codec) (open_db ([], []))"
  let ?s1 = "fst (attest_request mem_sled sample_codec sample_hash sample_bls registered_db eth_vote1)"
  have "?run [] registered_db"
    by (rule run_registered) (simp add: registered_db_def att_env_register)
  then have "?run ([] @ [eth_vote1]) ?s1"
    by (rule guard_run_grant) (simp_all add: attest_request_of db_eval eth_eval)
  then have "\<exists>s. ?run (([] @ [eth_vote1]) @ [eth_vote2]) s"
    by (intro exI, rule guard_run_grant) (simp_all add: attest_request_of db_eval eth_eval)
  then obtain s where run: "?run [eth_vote1, eth_vote2] s" by auto
  from signed_attestations_not_slashable [OF mem_sled_laws sample_codec_laws mem_empty sample_attests_ok run] run
  show ?thesis by blast
qed

text \<open>end to end for block proposals: no two signed headers of a validator for one slot differ.\<close>

theorem signed_blocks_not_slashable:
  assumes "sled_laws S V D" "codec_laws C"
    and "V db BLOCKS_TREE = Map.empty" "D db BLOCKS_TREE = Map.empty"
    and "propose_hash_ok H Q" "\<forall>q \<in> Q. wf_header (snd q)"
    and "guard_run (propose_request S C H B) (asked Q) (block_env S C) (open_db db) qs s"
  shows "pairwise_apart (\<lambda>p q. \<not> slashable_headers p q) qs"
proof -
  note map_run = guard_run_map [where f = "block_of H" and request = "block_request S C" and legit = "\<lambda>_. True",
      OF assms(7) propose_request_of TrueI]
  have "block_inv S V D C (open_db db)"
    using assms(1-4) by (simp add: block_inv_def open_db_def dur_le_def)
  with map_run(1) have "pairwise_apart (\<lambda>q r. \<not> slashable_blocks q r) (map (block_of H) qs)"
    by (rule blk.run_apart)
  then show ?thesis
    using map_run(2) slashable_headers_of [OF assms(5,6)]
    unfolding sorted_wrt_map by (elim sorted_wrt_mono_rel [rotated]) blast
qed

theorem signed_blocks_not_slashable_witness:
  "\<exists>s. guard_run (propose_request mem_sled sample_codec sample_hash sample_bls) (asked sample_proposals)
        (block_env mem_sled sample_codec) (open_db ([], [])) [eth_block1, eth_block2] s \<and>
     pairwise_apart (\<lambda>p q. \<not> slashable_headers p q) [eth_block1, eth_block2]"
proof -
  let ?run = "guard_run (propose_request mem_sled sample_codec sample_hash sample_bls) (asked sample_proposals)
        (block_env mem_sled sample_codec) (open_db ([], []))"
  let ?s1 = "fst (propose_request mem_sled sample_codec sample_hash sample_bls registered_db eth_block1)"
  have "?run [] registered_db"
    by (rule run_registered) (simp add: registered_db_def block_env_register)
  then have "?run ([] @ [eth_block1]) ?s1"
    by (rule guard_run_grant) (simp_all add: propose_request_of db_eval eth_eval)
  then have "\<exists>s. ?run (([] @ [eth_block1]) @ [eth_block2]) s"
    by (intro exI, rule guard_run_grant) (simp_all add: propose_request_of db_eval eth_eval)
  then obtain s where run: "?run [eth_block1, eth_block2] s" by auto
  from signed_blocks_not_slashable [OF mem_sled_laws sample_codec_laws mem_empty sample_proposals_ok run] run
  show ?thesis by blast
qed

end
