(* ===== verification/Interchange.thy ===== *)
theory Interchange
  imports Slashing_Guards Sample_Codec
begin

text \<open>
  The EIP-3076 interchange format, \<^verbatim>\<open>crates/validator/src/interchange.rs\<close>: export of the slashing
  protection database to a file and import of such a file. The JSON text of a file
  (\<^verbatim>\<open>from_json\<close>, \<^verbatim>\<open>to_json\<close>) is left to \<^verbatim>\<open>serde_json\<close>; hex decoding (crate \<^verbatim>\<open>hex\<close>) is the
  parameter \<open>unhex\<close>. Decimal epochs and slots are printed and parsed by the functions of the
  prelude. The clock is read once per import; the times it records are compared nowhere.
\<close>

section \<open>The file\<close>

record signed_block =
  sb_slot :: string
  sb_signing_root :: "string option"

record signed_attestation =
  sa_source_epoch :: string
  sa_target_epoch :: string
  sa_signing_root :: "string option"

record interchange_validator =
  iv_pubkey :: string
  iv_signed_blocks :: "signed_block list"
  iv_signed_attestations :: "signed_attestation list"

record interchange_metadata =
  interchange_format_version :: string
  im_genesis_validators_root :: string

record interchange =
  ic_metadata :: interchange_metadata
  ic_data :: "interchange_validator list"

definition INTERCHANGE_FORMAT_VERSION :: string where "INTERCHANGE_FORMAT_VERSION = ''5''"

definition interchange_new :: "string \<Rightarrow> interchange" where
  "interchange_new root = \<lparr>ic_metadata = \<lparr>interchange_format_version = INTERCHANGE_FORMAT_VERSION,
     im_genesis_validators_root = root\<rparr>, ic_data = []\<rparr>"

section \<open>Export\<close>

definition export_block :: "codec \<Rightarrow> block_data \<Rightarrow> signed_block" where
  "export_block C b = \<lparr>sb_slot = show_u64 (bd_slot b), sb_signing_root = Some (to_hex C (bd_signing_root b))\<rparr>"

definition export_attestation :: "codec \<Rightarrow> attestation_data \<Rightarrow> signed_attestation" where
  "export_attestation C a = \<lparr>sa_source_epoch = show_u64 (ad_source_epoch a),
     sa_target_epoch = show_u64 (ad_target_epoch a), sa_signing_root = Some (to_hex C (ad_signing_root a))\<rparr>"

definition export_validator ::
  "'db sled \<Rightarrow> codec \<Rightarrow> 'db slashing_db \<Rightarrow> bytes \<Rightarrow> (validator_error, interchange_validator) res" where
  "export_validator S C s pk =
     bind_res (get_attestation_records S C s pk) (\<lambda>atts.
     bind_res (get_block_records S C s pk) (\<lambda>blks.
     Inr \<lparr>iv_pubkey = to_hex C pk, iv_signed_blocks = map (export_block C) blks,
       iv_signed_attestations = map (export_attestation C) atts\<rparr>))"

definition export ::
  "'db sled \<Rightarrow> codec \<Rightarrow> 'db slashing_db \<Rightarrow> string \<Rightarrow> bytes list option \<Rightarrow> (validator_error, interchange) res" where
  "export S C s root keys =
     bind_res (case keys of Some ks \<Rightarrow> Inr ks | None \<Rightarrow> list_validators S s) (\<lambda>ks.
     bind_res (map_res (export_validator S C s) ks) (\<lambda>ds.
     Inr ((interchange_new root)\<lparr>ic_data := ds\<rparr>)))"

section \<open>Import\<close>

record import_result =
  validators_imported :: u64
  attestations_imported :: u64
  attestations_skipped :: u64
  blocks_imported :: u64
  blocks_skipped :: u64

definition default_result :: import_result where
  "default_result = \<lparr>validators_imported = 0, attestations_imported = 0, attestations_skipped = 0,
     blocks_imported = 0, blocks_skipped = 0\<rparr>"

definition strip_0x :: "string \<Rightarrow> string" where
  "strip_0x s = (if take 2 s = ''0x'' then drop 2 s else s)"

definition parse_hex_pubkey :: "(string \<Rightarrow> (string, bytes) res) \<Rightarrow> string \<Rightarrow> (validator_error, bytes) res" where
  "parse_hex_pubkey unhex s =
     map_err (\<lambda>e. InvalidInterchange (''Invalid public key hex: '' @ e)) (unhex (strip_0x s))"

definition parse_signing_root :: "(string \<Rightarrow> (string, bytes) res) \<Rightarrow> string \<Rightarrow> (validator_error, bytes) res" where
  "parse_signing_root unhex s =
     bind_res (map_err (\<lambda>e. InvalidInterchange (''Invalid signing root hex: '' @ e)) (unhex (strip_0x s))) (\<lambda>bs.
     if length bs = 32 then Inr bs
     else Inl (InvalidInterchange (''Signing root must be 32 bytes, got '' @ show_nat (length bs))))"

definition parse_root_option ::
  "(string \<Rightarrow> (string, bytes) res) \<Rightarrow> string option \<Rightarrow> (validator_error, bytes) res" where
  "parse_root_option unhex r = (case r of Some s \<Rightarrow> parse_signing_root unhex s | None \<Rightarrow> Inr (replicate 32 0))"

definition parse_u64 :: "string \<Rightarrow> string \<Rightarrow> (validator_error, u64) res" where
  "parse_u64 what s =
     (case parse_uint 64 s of
        Some n \<Rightarrow> Inr (word_of_nat n)
      | None \<Rightarrow> Inl (InvalidInterchange (''Invalid '' @ what @ '': '' @ s)))"

definition max_opt :: "u64 option \<Rightarrow> u64 \<Rightarrow> u64 option" where
  "max_opt m x = Some (case m of None \<Rightarrow> x | Some y \<Rightarrow> max y x)"

definition parse_attestation ::
  "(string \<Rightarrow> (string, bytes) res) \<Rightarrow> signed_attestation \<Rightarrow> (validator_error, epoch \<times> epoch \<times> bytes) res" where
  "parse_attestation unhex a =
     bind_res (parse_u64 ''source epoch'' (sa_source_epoch a)) (\<lambda>src.
     bind_res (parse_u64 ''target epoch'' (sa_target_epoch a)) (\<lambda>tgt.
     bind_res (parse_root_option unhex (sa_signing_root a)) (\<lambda>root. Inr (src, tgt, root))))"

definition parse_block ::
  "(string \<Rightarrow> (string, bytes) res) \<Rightarrow> signed_block \<Rightarrow> (validator_error, slot \<times> bytes) res" where
  "parse_block unhex b =
     bind_res (parse_u64 ''slot'' (sb_slot b)) (\<lambda>sl.
     bind_res (parse_root_option unhex (sb_signing_root b)) (\<lambda>root. Inr (sl, root)))"

text \<open>The loop over the attestations of a validator. It threads the database, the counters, and the
  maximal source and target epoch.\<close>

fun import_attestations ::
  "'db sled \<Rightarrow> codec \<Rightarrow> (string \<Rightarrow> (string, bytes) res) \<Rightarrow> bytes \<Rightarrow> time \<Rightarrow> signed_attestation list \<Rightarrow>
   'db slashing_db \<times> import_result \<times> epoch option \<times> epoch option \<Rightarrow>
   'db slashing_db \<times> (validator_error, import_result \<times> epoch option \<times> epoch option) res" where
  "import_attestations S C unhex pk now [] (s, res, ms, mt) = (s, Inr (res, ms, mt))"
| "import_attestations S C unhex pk now (a # as) (s, res, ms, mt) =
     (case parse_attestation unhex a of
        Inl e \<Rightarrow> (s, Inl e)
      | Inr (src, tgt, root) \<Rightarrow>
          (case check_and_record_attestation S C s pk src tgt root now of
             (s', Inr _) \<Rightarrow> import_attestations S C unhex pk now as
               (s', res\<lparr>attestations_imported := attestations_imported res + 1\<rparr>, max_opt ms src, max_opt mt tgt)
           | (s', Inl _) \<Rightarrow> import_attestations S C unhex pk now as
               (s', res\<lparr>attestations_skipped := attestations_skipped res + 1\<rparr>, max_opt ms src, max_opt mt tgt)))"

fun import_blocks ::
  "'db sled \<Rightarrow> codec \<Rightarrow> (string \<Rightarrow> (string, bytes) res) \<Rightarrow> bytes \<Rightarrow> time \<Rightarrow> signed_block list \<Rightarrow>
   'db slashing_db \<times> import_result \<times> slot option \<Rightarrow>
   'db slashing_db \<times> (validator_error, import_result \<times> slot option) res" where
  "import_blocks S C unhex pk now [] (s, res, m) = (s, Inr (res, m))"
| "import_blocks S C unhex pk now (b # bs) (s, res, m) =
     (case parse_block unhex b of
        Inl e \<Rightarrow> (s, Inl e)
      | Inr (sl, root) \<Rightarrow>
          (case check_and_record_block S C s pk sl root now of
             (s', Inr _) \<Rightarrow> import_blocks S C unhex pk now bs
               (s', res\<lparr>blocks_imported := blocks_imported res + 1\<rparr>, max_opt m sl)
           | (s', Inl _) \<Rightarrow> import_blocks S C unhex pk now bs
               (s', res\<lparr>blocks_skipped := blocks_skipped res + 1\<rparr>, max_opt m sl)))"

text \<open>\<^verbatim>\<open>if let Some(min) = max \{ set(min)?; \}\<close>\<close>

definition set_if ::
  "(u64 \<Rightarrow> 's \<times> ('e, unit) res) \<Rightarrow> u64 option \<Rightarrow> 's \<Rightarrow> 's \<times> ('e, unit) res" where
  "set_if f m s = (case m of None \<Rightarrow> (s, Inr ()) | Some x \<Rightarrow> f x)"

definition register_if_new ::
  "'db sled \<Rightarrow> codec \<Rightarrow> bytes \<Rightarrow> time \<Rightarrow> 'db slashing_db \<Rightarrow> import_result \<Rightarrow>
   'db slashing_db \<times> (validator_error, import_result) res" where
  "register_if_new S C pk now s res =
     (case is_registered S s pk of
        Inl e \<Rightarrow> (s, Inl e)
      | Inr True \<Rightarrow> (s, Inr res)
      | Inr False \<Rightarrow>
          (case register_validator S C s pk now of
             (s', Inl e) \<Rightarrow> (s', Inl e)
           | (s', Inr _) \<Rightarrow> (s', Inr (res\<lparr>validators_imported := validators_imported res + 1\<rparr>))))"

definition import_validator ::
  "'db sled \<Rightarrow> codec \<Rightarrow> (string \<Rightarrow> (string, bytes) res) \<Rightarrow> time \<Rightarrow> interchange_validator \<Rightarrow>
   'db slashing_db \<Rightarrow> import_result \<Rightarrow> 'db slashing_db \<times> (validator_error, import_result) res" where
  "import_validator S C unhex now v s res =
     (case parse_hex_pubkey unhex (iv_pubkey v) of
        Inl e \<Rightarrow> (s, Inl e)
      | Inr pk \<Rightarrow>
     (case register_if_new S C pk now s res of
        (s1, Inl e) \<Rightarrow> (s1, Inl e)
      | (s1, Inr res1) \<Rightarrow>
     (case import_attestations S C unhex pk now (iv_signed_attestations v) (s1, res1, None, None) of
        (s2, Inl e) \<Rightarrow> (s2, Inl e)
      | (s2, Inr (res2, ms, mt)) \<Rightarrow>
     (case set_if (\<lambda>m. set_min_source_epoch S C s2 pk m now) ms s2 of
        (s3, Inl e) \<Rightarrow> (s3, Inl e)
      | (s3, Inr _) \<Rightarrow>
     (case set_if (\<lambda>m. set_min_target_epoch S C s3 pk m now) mt s3 of
        (s4, Inl e) \<Rightarrow> (s4, Inl e)
      | (s4, Inr _) \<Rightarrow>
     (case import_blocks S C unhex pk now (iv_signed_blocks v) (s4, res2, None) of
        (s5, Inl e) \<Rightarrow> (s5, Inl e)
      | (s5, Inr (res3, m)) \<Rightarrow>
     (case set_if (\<lambda>m. set_min_slot S C s5 pk m now) m s5 of
        (s6, Inl e) \<Rightarrow> (s6, Inl e)
      | (s6, Inr _) \<Rightarrow> (s6, Inr res3))))))))"

fun import_validators ::
  "'db sled \<Rightarrow> codec \<Rightarrow> (string \<Rightarrow> (string, bytes) res) \<Rightarrow> time \<Rightarrow> interchange_validator list \<Rightarrow>
   'db slashing_db \<Rightarrow> import_result \<Rightarrow> 'db slashing_db \<times> (validator_error, import_result) res" where
  "import_validators S C unhex now [] s res = (s, Inr res)"
| "import_validators S C unhex now (v # vs) s res =
     (case import_validator S C unhex now v s res of
        (s', Inl e) \<Rightarrow> (s', Inl e)
      | (s', Inr res') \<Rightarrow> import_validators S C unhex now vs s' res')"

text \<open>\<^verbatim>\<open>import\<close>: a version mismatch is only logged.\<close>

definition import_interchange ::
  "'db sled \<Rightarrow> codec \<Rightarrow> (string \<Rightarrow> (string, bytes) res) \<Rightarrow> time \<Rightarrow> interchange \<Rightarrow> 'db slashing_db \<Rightarrow>
   'db slashing_db \<times> (validator_error, import_result) res" where
  "import_interchange S C unhex now file s = import_validators S C unhex now (ic_data file) s default_result"

end
