(* ===== verification/Interchange_Properties.thy ===== *)
theory Interchange_Properties
  imports Interchange Slashing_Properties
begin

text \<open>
  What an import of an exported file does to the protection. Records survive the round trip: every
  attestation of an exported validator is recorded again by an import into a database without
  records of it. Minimum epochs do not: they are overwritten, so that importing an older file after
  a newer one lowers them.
\<close>

section \<open>Printing and parsing\<close>

definition unhex_laws :: "codec \<Rightarrow> (string \<Rightarrow> (string, bytes) res) \<Rightarrow> bool" where
  "unhex_laws C unhex \<longleftrightarrow> (\<forall>bs. unhex (hex_encode C bs) = Inr bs)"

lemma parse_show_u64 [simp]: "parse_u64 what (show_u64 w) = Inr w"
proof -
  have "parse_uint 64 (show_nat (unat w)) = Some (unat w)"
    by (rule parse_show_nat) (use unsigned_less [where ?'a = nat, of w] in simp)
  then show ?thesis by (simp add: parse_u64_def show_u64_def)
qed

lemma strip_to_hex [simp]: "strip_0x (to_hex C bs) = hex_encode C bs"
  by (simp add: strip_0x_def to_hex_def)

lemma parse_exported_attestation:
  "unhex_laws C unhex \<Longrightarrow> length (ad_signing_root a) = 32 \<Longrightarrow>
   parse_attestation unhex (export_attestation C a) = Inr (ad_source_epoch a, ad_target_epoch a, ad_signing_root a)"
  by (simp add: parse_attestation_def export_attestation_def parse_root_option_def parse_signing_root_def
      unhex_laws_def)

section \<open>An import of exported attestations\<close>

text \<open>At most one attestation per target epoch, and none surrounds another.\<close>

definition consistent :: "attestation_data set \<Rightarrow> bool" where
  "consistent A \<longleftrightarrow> (\<forall>a \<in> A. \<forall>b \<in> A.
     (ad_target_epoch a = ad_target_epoch b \<longrightarrow>
        ad_source_epoch a = ad_source_epoch b \<and> ad_signing_root a = ad_signing_root b) \<and>
     \<not> (ad_source_epoch a < ad_source_epoch b \<and> ad_target_epoch b < ad_target_epoch a))"

definition request_of :: "bytes \<Rightarrow> attestation_data \<Rightarrow> att_request" where
  "request_of pk a = (pk, ad_source_epoch a, ad_target_epoch a, ad_signing_root a, ad_signed_at a)"

text \<open>\<open>importing V C A pk s\<close>: the state of the loop. The validator is registered without minimum, and
  every record under its prefix is the record of an attestation of \<open>A\<close>.\<close>

definition importing ::
  "'db sled \<Rightarrow> ('db \<Rightarrow> content) \<Rightarrow> codec \<Rightarrow> attestation_data set \<Rightarrow> bytes \<Rightarrow> 'db slashing_db \<Rightarrow> bool" where
  "importing S V C A pk s \<longleftrightarrow>
     (\<exists>d. get_validator_data S C s pk = Inr d \<and> vd_public_key d = pk \<and>
        vd_min_source_epoch d = None \<and> vd_min_target_epoch d = None) \<and>
     (\<forall>k v. V (sdb s) ATTESTATIONS_TREE k = Some v \<and> prefix (attestation_key_prefix pk) k \<longrightarrow>
        (\<exists>a \<in> A. \<exists>b. k = attestation_key pk (ad_target_epoch a) \<and> de_attestation C v = Inr b \<and>
           ad_source_epoch b = ad_source_epoch a \<and> ad_target_epoch b = ad_target_epoch a \<and>
           ad_signing_root b = ad_signing_root a))"

lemma importing_entry:
  assumes "importing S V C A pk s" "V (sdb s) ATTESTATIONS_TREE (attestation_key pk t) = Some v"
  obtains c b where "c \<in> A" "t = ad_target_epoch c" "de_attestation C v = Inr b"
    "ad_source_epoch b = ad_source_epoch c" "ad_target_epoch b = ad_target_epoch c"
    "ad_signing_root b = ad_signing_root c"
proof -
  have "\<exists>a \<in> A. \<exists>b. attestation_key pk t = attestation_key pk (ad_target_epoch a) \<and> de_attestation C v = Inr b \<and>
      ad_source_epoch b = ad_source_epoch a \<and> ad_target_epoch b = ad_target_epoch a \<and>
      ad_signing_root b = ad_signing_root a"
    using assms prefix_attestation_key [of pk t] unfolding importing_def by blast
  then show ?thesis using that by (elim bexE exE conjE) simp
qed

lemma importing_granted:
  assumes laws: "sled_laws S V D" "fault_free S" "codec_total C"
    and con: "consistent A"
    and inv: "importing S V C A pk s" and a: "a \<in> A"
  shows "snd (check_and_record_attestation S C s pk (ad_source_epoch a) (ad_target_epoch a) (ad_signing_root a) now)
    = Inr ()"
proof -
  obtain d where d: "get_validator_data S C s pk = Inr d" "vd_min_source_epoch d = None" "vd_min_target_epoch d = None"
    using inv by (auto simp: importing_def)
  have entry: "\<exists>c \<in> A. \<exists>b. k = attestation_key pk (ad_target_epoch c) \<and> de_attestation C v = Inr b \<and>
      ad_source_epoch b = ad_source_epoch c \<and> ad_target_epoch b = ad_target_epoch c \<and>
      ad_signing_root b = ad_signing_root c"
    if "V (sdb s) ATTESTATIONS_TREE k = Some v" "prefix (attestation_key_prefix pk) k" for k v
    using inv that unfolding importing_def by blast
  have pair: "(ad_target_epoch c = ad_target_epoch a \<longrightarrow> ad_signing_root c = ad_signing_root a) \<and>
      \<not> (ad_source_epoch a < ad_source_epoch c \<and> ad_target_epoch c < ad_target_epoch a) \<and>
      \<not> (ad_source_epoch c < ad_source_epoch a \<and> ad_target_epoch a < ad_target_epoch c)" if "c \<in> A" for c
    using con a that unfolding consistent_def by blast
  have "vote_passes V C (sdb s) pk (ad_source_epoch a) (ad_target_epoch a)"
    unfolding vote_passes_def
  proof (intro allI impI)
    fix k v assume "V (sdb s) ATTESTATIONS_TREE k = Some v \<and> prefix (attestation_key_prefix pk) k"
    then obtain c b where "c \<in> A" "de_attestation C v = Inr b" "ad_source_epoch b = ad_source_epoch c"
      "ad_target_epoch b = ad_target_epoch c" using entry by blast
    then show "\<exists>b. de_attestation C v = Inr b \<and>
        \<not> (ad_source_epoch a < ad_source_epoch b \<and> ad_target_epoch b < ad_target_epoch a) \<and>
        \<not> (ad_source_epoch b < ad_source_epoch a \<and> ad_target_epoch a < ad_target_epoch b)"
      using pair by simp
  qed
  moreover have "\<exists>b. de_attestation C v = Inr b \<and> ad_signing_root b = ad_signing_root a"
    if "V (sdb s) ATTESTATIONS_TREE (attestation_key pk (ad_target_epoch a)) = Some v" for v
    using entry [OF that prefix_attestation_key] pair by auto
  ultimately show ?thesis
    unfolding attestation_granted_iff [OF laws d(1)]
    using d(2,3) by (auto simp: above_minimum_def split: option.splits)
qed

lemma importing_step:
  assumes laws: "sled_laws S V D" "fault_free S" "codec_laws C" "codec_total C"
    and inv: "importing S V C A pk s" and a: "a \<in> A"
    and run: "check_and_record_attestation S C s pk (ad_source_epoch a) (ad_target_epoch a) (ad_signing_root a) now
      = (s', r)"
  shows "importing S V C A pk s'"
proof -
  obtain d where d: "get_validator_data S C s pk = Inr d" "vd_public_key d = pk"
    "vd_min_source_epoch d = None" "vd_min_target_epoch d = None"
    using inv by (auto simp: importing_def)
  from attestation_steps [OF d(1) run] show ?thesis
  proof (elim disjE exE conjE)
    assume "sdb s' = sdb s"
    then show ?thesis using inv get_validator_data_cong [of s' s] by (simp add: importing_def)
  next
    fix s1
    assume s1: "sdb s1 = sdb s"
      and rec: "record_attestation S C s1 d pk (ad_source_epoch a) (ad_target_epoch a) (ad_signing_root a) now = (s', r)"
    obtain b e where be: "ser_attestation C (new_attestation (ad_source_epoch a) (ad_target_epoch a) (ad_signing_root a) now) = Inr b"
      "ser_validator C (d\<lparr>vd_updated_at := now\<rparr>) = Inr e"
      and view: "V (sdb s') = upd_content (upd_content (V (sdb s1)) ATTESTATIONS_TREE (attestation_key pk (ad_target_epoch a)) b)
        VALIDATORS_TREE (vd_public_key d) e"
      using record_attestation_exact [OF laws(1,2,4) rec] by blast
    have "get_validator_data S C s' pk = Inr (d\<lparr>vd_updated_at := now\<rparr>)"
      by (rule get_validator_data_view [OF laws(1,2), of _ _ e])
        (use view d(2) be(2) laws(3) in \<open>simp_all add: upd_content_def codec_laws_def\<close>)
    moreover have "V (sdb s') ATTESTATIONS_TREE = (V (sdb s) ATTESTATIONS_TREE)(attestation_key pk (ad_target_epoch a) \<mapsto> b)"
      using view s1 by (simp add: upd_content_def)
    moreover have "de_attestation C b = Inr (new_attestation (ad_source_epoch a) (ad_target_epoch a) (ad_signing_root a) now)"
      by (rule codec_attestation [OF laws(3) be(1)])
    ultimately show ?thesis
      using inv d a unfolding importing_def by (auto split: if_splits)
  qed
qed

lemma attestation_grows:
  assumes "sled_laws S V D" "dur_le V D ATTESTATIONS_TREE (sdb s)"
    and "check_and_record_attestation S C s pk src tgt root now = (s', r)"
  shows "tree_grows V D ATTESTATIONS_TREE (sdb s) (sdb s')"
    and "r = Inr () \<Longrightarrow> V (sdb s') ATTESTATIONS_TREE (attestation_key pk tgt) \<noteq> None"
proof -
  from assms have "tree_grows V D ATTESTATIONS_TREE (sdb s) (sdb s') \<and>
      (r = Inr () \<longrightarrow> V (sdb s') ATTESTATIONS_TREE (attestation_key pk tgt) \<noteq> None)"
    by (cases rule: attestation_effect) (simp_all add: tree_grows_refl [OF assms(2)] recorded_under_def)
  then show "tree_grows V D ATTESTATIONS_TREE (sdb s) (sdb s')"
    and "r = Inr () \<Longrightarrow> V (sdb s') ATTESTATIONS_TREE (attestation_key pk tgt) \<noteq> None" by blast+
qed

lemma import_attestations_loop:
  assumes laws: "sled_laws S V D" "fault_free S" "codec_laws C" "codec_total C" and hex: "unhex_laws C unhex"
    and A: "consistent A" "\<forall>a \<in> A. length (ad_signing_root a) = 32"
  shows "importing S V C A pk s \<Longrightarrow> dur_le V D ATTESTATIONS_TREE (sdb s) \<Longrightarrow> set as \<subseteq> A \<Longrightarrow>
    \<exists>s' res' ms' mt'. import_attestations S C unhex pk now (map (export_attestation C) as) (s, res, ms, mt)
        = (s', Inr (res', ms', mt')) \<and> importing S V C A pk s' \<and>
      V (sdb s) ATTESTATIONS_TREE \<subseteq>\<^sub>m V (sdb s') ATTESTATIONS_TREE \<and>
      attestations_skipped res' = attestations_skipped res \<and>
      (\<forall>a \<in> set as. V (sdb s') ATTESTATIONS_TREE (attestation_key pk (ad_target_epoch a)) \<noteq> None)"
proof (induction as arbitrary: s res ms mt)
  case Nil
  then show ?case by simp
next
  case (Cons a as)
  then have a: "a \<in> A" by simp
  obtain s1 where run: "check_and_record_attestation S C s pk (ad_source_epoch a) (ad_target_epoch a)
      (ad_signing_root a) now = (s1, Inr ())"
    using importing_granted [OF laws(1,2,4) A(1) Cons.prems(1) a, of now]
    by (cases "check_and_record_attestation S C s pk (ad_source_epoch a) (ad_target_epoch a) (ad_signing_root a) now") simp
  have inv: "importing S V C A pk s1" by (rule importing_step [OF laws Cons.prems(1) a run])
  note grows = attestation_grows [OF laws(1) Cons.prems(2) run]
  let ?res = "res\<lparr>attestations_imported := attestations_imported res + 1\<rparr>"
  have sub: "set as \<subseteq> A" using Cons.prems(3) by simp
  obtain s' res' ms' mt' where IH: "import_attestations S C unhex pk now (map (export_attestation C) as)
        (s1, ?res, max_opt ms (ad_source_epoch a), max_opt mt (ad_target_epoch a)) = (s', Inr (res', ms', mt'))"
      "importing S V C A pk s'" "V (sdb s1) ATTESTATIONS_TREE \<subseteq>\<^sub>m V (sdb s') ATTESTATIONS_TREE"
      "attestations_skipped res' = attestations_skipped ?res"
      "\<forall>a \<in> set as. V (sdb s') ATTESTATIONS_TREE (attestation_key pk (ad_target_epoch a)) \<noteq> None"
    using Cons.IH [OF inv tree_grows_dur_le [OF grows(1)] sub, of ?res "max_opt ms (ad_source_epoch a)"
        "max_opt mt (ad_target_epoch a)"] by (elim exE conjE) (rule that)
  have "import_attestations S C unhex pk now (map (export_attestation C) (a # as)) (s, res, ms, mt)
      = (s', Inr (res', ms', mt'))"
    using run parse_exported_attestation [OF hex, of a] A(2) a IH(1) by simp
  moreover have "V (sdb s') ATTESTATIONS_TREE (attestation_key pk (ad_target_epoch a)) \<noteq> None"
    using grows(2) IH(3) by (auto dest: map_le_SomeD)
  moreover have "V (sdb s) ATTESTATIONS_TREE \<subseteq>\<^sub>m V (sdb s') ATTESTATIONS_TREE"
    using grows(1) IH(3) unfolding tree_grows_def by (blast intro: map_le_trans)
  moreover have "attestations_skipped res' = attestations_skipped res" using IH(4) by simp
  ultimately show ?case using IH(2,5) by (intro exI conjI) (assumption | simp)+
qed


definition sample_record :: "u64 \<Rightarrow> u64 \<Rightarrow> byte \<Rightarrow> attestation_data" where
  "sample_record src tgt r =
     \<lparr>ad_source_epoch = src, ad_target_epoch = tgt, ad_signing_root = replicate 32 r, ad_signed_at = 0\<rparr>"

lemma sample_unhex_laws: "unhex_laws sample_codec sample_unhex"
  by (simp add: unhex_laws_def sample_codec_def)


section \<open>Imports in the wrong order\<close>

definition minimal_file :: "u64 \<Rightarrow> u64 \<Rightarrow> interchange" where
  "minimal_file src tgt = (interchange_new ''0x00'')\<lparr>ic_data := [\<lparr>iv_pubkey = to_hex sample_codec sample_pk,
     iv_signed_blocks = [], iv_signed_attestations = [export_attestation sample_codec (sample_record src tgt 1)]\<rparr>]\<rparr>"

definition after_newer :: "mem_db slashing_db" where
  "after_newer = fst (import_interchange mem_sled sample_codec sample_unhex 0 (minimal_file 9 10) (open_db ([], [])))"

definition after_older :: "mem_db slashing_db" where
  "after_older = fst (import_interchange mem_sled sample_codec sample_unhex 0 (minimal_file 4 5) after_newer)"

lemmas import_eval = import_interchange_def import_validator_def register_if_new_def is_registered_def
  parse_hex_pubkey_def set_if_def max_opt_def set_min_source_epoch_def set_min_target_epoch_def set_validator_data_def
  minimal_file_def parse_exported_attestation [OF sample_unhex_laws] sample_record_def

lemma hex_sample: "hex_encode sample_codec = sample_hex"
  by (simp add: sample_codec_def)

text \<open>importing an older file after a newer one weakens the protection. A file that says only that
  epochs 9 to 10 were signed makes the database refuse a vote from epoch 5 to 7. After the import of an
  older file, whose attestation is not even recorded, the minimum epochs are those of the older file, and
  the same vote is granted.\<close>

theorem older_import_lowers_minimum:
  "snd (check_and_record_attestation mem_sled sample_codec after_newer sample_pk 5 7 [3] 0)
     = Inl (SourceEpochTooLow 5 9) \<and>
   snd (check_and_record_attestation mem_sled sample_codec after_older sample_pk 5 7 [3] 0) = Inr ()"
proof
  show "snd (check_and_record_attestation mem_sled sample_codec after_newer sample_pk 5 7 [3] 0)
     = Inl (SourceEpochTooLow 5 9)"
    by (simp add: after_newer_def import_eval db_eval register_validator_def hex_sample)
  show "snd (check_and_record_attestation mem_sled sample_codec after_older sample_pk 5 7 [3] 0) = Inr ()"
    by (simp add: after_older_def after_newer_def import_eval db_eval register_validator_def hex_sample)
qed

end
