(* ===== verification/Audit_Chain.thy ===== *)
theory Audit_Chain
  imports Hsm_Prelude
begin

text \<open>
  The audit log: events (\<^verbatim>\<open>crates/audit/src/event.rs\<close>) and the hash chain
  (\<^verbatim>\<open>crates/audit/src/hash_chain.rs\<close>). The text encodings of an event's fields and the hash are a
  parameter \<open>K\<close>: \<^verbatim>\<open>to_rfc3339\<close> of \<^verbatim>\<open>chrono\<close>, \<^verbatim>\<open>serde_json::to_string\<close>, SHA-256 with hex output.
  Each operation of the chain takes its locks first, so it is one function on the state. The first
  part of the lemmas shows that a chain built by \<^verbatim>\<open>append\<close> verifies and how far a verified chain is
  determined by its last hash; the second part shows which changes verification cannot see.
\<close>

section \<open>Events\<close>

datatype event_type = KeyGeneration | KeyImport | KeyExport | KeyDeletion | KeyRotation
  | Sign | Verify | Encrypt | Decrypt | Authentication | Authorization | AccessDenied
  | SystemStartup | SystemShutdown | ConfigChange | AuditLogRotation | AuditVerification

datatype operation_result = Success | Failure string

record 'm audit_event =
  ae_timestamp :: int
  ae_sequence :: u64
  ae_event_type :: event_type
  ae_operation :: string
  ae_namespace :: string
  ae_client_id :: string
  ae_key_id :: "string option"
  ae_result :: operation_result
  ae_prev_hash :: string
  ae_current_hash :: string
  ae_metadata :: "'m option"

record 'm audit_codec =
  to_rfc3339 :: "int \<Rightarrow> string"
  ser_event_type :: "event_type \<Rightarrow> (string, string) res"
  ser_op_result :: "operation_result \<Rightarrow> (string, string) res"
  ser_metadata :: "'m \<Rightarrow> (string, string) res"
  digest_hex :: "bytes \<Rightarrow> string"

definition unwrap_or_default :: "(string, string) res \<Rightarrow> string" where
  "unwrap_or_default r = (case r of Inr s \<Rightarrow> s | Inl _ \<Rightarrow> '''')"

text \<open>The bytes the hasher is updated with, in order.\<close>

definition hash_input :: "'m audit_codec \<Rightarrow> 'm audit_event \<Rightarrow> bytes" where
  "hash_input K e =
     str_bytes (to_rfc3339 K (ae_timestamp e)) @ to_le_bytes (ae_sequence e) @
     str_bytes (unwrap_or_default (ser_event_type K (ae_event_type e))) @
     str_bytes (ae_operation e) @ str_bytes (ae_namespace e) @ str_bytes (ae_client_id e) @
     (case ae_key_id e of Some k \<Rightarrow> str_bytes k | None \<Rightarrow> []) @
     str_bytes (unwrap_or_default (ser_op_result K (ae_result e))) @
     str_bytes (ae_prev_hash e) @
     (case ae_metadata e of Some m \<Rightarrow> str_bytes (unwrap_or_default (ser_metadata K m)) | None \<Rightarrow> [])"

definition compute_hash :: "'m audit_codec \<Rightarrow> 'm audit_event \<Rightarrow> string" where
  "compute_hash K e = digest_hex K (hash_input K e)"

definition verify_hash :: "'m audit_codec \<Rightarrow> 'm audit_event \<Rightarrow> bool" where
  "verify_hash K e \<longleftrightarrow> ae_current_hash e = compute_hash K e"

definition genesis_hash :: string where
  "genesis_hash = replicate 64 (CHR ''0'')"

record 'm event_builder =
  eb_timestamp :: "int option"
  eb_sequence :: "u64 option"
  eb_event_type :: "event_type option"
  eb_operation :: "string option"
  eb_namespace :: "string option"
  eb_client_id :: "string option"
  eb_key_id :: "string option"
  eb_result :: "operation_result option"
  eb_prev_hash :: "string option"
  eb_metadata :: "'m option"

definition build_event :: "'m audit_codec \<Rightarrow> int \<Rightarrow> 'm event_builder \<Rightarrow> (string, 'm audit_event) res" where
  "build_event K now b =
     bind_res (ok_or ''sequence is required'' (eb_sequence b)) (\<lambda>sequence.
     bind_res (ok_or ''event_type is required'' (eb_event_type b)) (\<lambda>event_type.
     bind_res (ok_or ''operation is required'' (eb_operation b)) (\<lambda>operation.
     bind_res (ok_or ''namespace is required'' (eb_namespace b)) (\<lambda>namespace.
     bind_res (ok_or ''client_id is required'' (eb_client_id b)) (\<lambda>client_id.
     bind_res (ok_or ''result is required'' (eb_result b)) (\<lambda>result.
       let event = \<lparr>ae_timestamp = (case eb_timestamp b of Some t \<Rightarrow> t | None \<Rightarrow> now),
             ae_sequence = sequence, ae_event_type = event_type, ae_operation = operation,
             ae_namespace = namespace, ae_client_id = client_id, ae_key_id = eb_key_id b,
             ae_result = result,
             ae_prev_hash = (case eb_prev_hash b of Some h \<Rightarrow> h | None \<Rightarrow> genesis_hash),
             ae_current_hash = '''', ae_metadata = eb_metadata b\<rparr>
       in Inr (event\<lparr>ae_current_hash := compute_hash K event\<rparr>)))))))"

section \<open>The chain\<close>

datatype hash_chain_error =
    VerificationFailed u64
  | SequenceMismatch u64 u64
  | InvalidRange u64 u64
  | EventNotFound u64

record 'm hash_chain =
  hc_events :: "'m audit_event list"
  hc_last_hash :: string
  hc_sequence :: u64

definition hash_chain_new :: "'m hash_chain" where
  "hash_chain_new = \<lparr>hc_events = [], hc_last_hash = genesis_hash, hc_sequence = 0\<rparr>"

text \<open>\<^verbatim>\<open>append\<close>; the addition to the sequence number wraps.\<close>

definition append_event ::
  "'m audit_codec \<Rightarrow> 'm hash_chain \<Rightarrow> 'm audit_event \<Rightarrow> 'm hash_chain \<times> (hash_chain_error, string) res" where
  "append_event K c e =
     (let expected_seq = hc_sequence c + 1 in
      if ae_sequence e \<noteq> expected_seq then (c, Inl (SequenceMismatch expected_seq (ae_sequence e)))
      else
        let e1 = e\<lparr>ae_prev_hash := hc_last_hash c\<rparr>;
            e2 = e1\<lparr>ae_current_hash := compute_hash K e1\<rparr>
        in (\<lparr>hc_events = hc_events c @ [e2], hc_last_hash = ae_current_hash e2, hc_sequence = expected_seq\<rparr>,
            Inr (ae_current_hash e2)))"

fun verify_indices :: "'m audit_codec \<Rightarrow> 'm audit_event list \<Rightarrow> nat list \<Rightarrow> (hash_chain_error, unit) res" where
  "verify_indices K es [] = Inr ()"
| "verify_indices K es (i # is) =
     (let event = es ! i in
      if \<not> verify_hash K event then Inl (VerificationFailed (ae_sequence event))
      else if i > 0 \<and> ae_prev_hash event \<noteq> ae_current_hash (es ! (i - 1))
      then Inl (VerificationFailed (ae_sequence event))
      else verify_indices K es is)"

text \<open>\<^verbatim>\<open>verify\<close>: the range is checked before any index is used.\<close>

definition verify_range ::
  "'m audit_codec \<Rightarrow> 'm hash_chain \<Rightarrow> u64 \<Rightarrow> u64 \<Rightarrow> (hash_chain_error, unit) res" where
  "verify_range K c from to =
     (if from > to then Inl (InvalidRange from to)
      else if from = 0 \<or> to > word_of_nat (length (hc_events c)) then Inl (InvalidRange from to)
      else verify_indices K (hc_events c) [unat (from - 1)..<unat to])"

definition verify_all :: "'m audit_codec \<Rightarrow> 'm hash_chain \<Rightarrow> (hash_chain_error, unit) res" where
  "verify_all K c =
     (let len = word_of_nat (length (hc_events c)) in
      if len = 0 then Inr () else verify_range K c 1 len)"

definition get_event :: "'m hash_chain \<Rightarrow> u64 \<Rightarrow> (hash_chain_error, 'm audit_event) res" where
  "get_event c s =
     (if s = 0 \<or> s > word_of_nat (length (hc_events c)) then Inl (EventNotFound s)
      else Inr (hc_events c ! unat (s - 1)))"

definition get_events_range ::
  "'m hash_chain \<Rightarrow> u64 \<Rightarrow> u64 \<Rightarrow> (hash_chain_error, 'm audit_event list) res" where
  "get_events_range c from to =
     (if from > to then Inl (InvalidRange from to)
      else if from = 0 \<or> to > word_of_nat (length (hc_events c)) then Inl (InvalidRange from to)
      else Inr (take (unat to - unat (from - 1)) (drop (unat (from - 1)) (hc_events c))))"

section \<open>Linked lists of events\<close>

definition linked :: "'m audit_codec \<Rightarrow> 'm audit_event list \<Rightarrow> bool" where
  "linked K es \<longleftrightarrow> (\<forall>i < length es. verify_hash K (es ! i) \<and>
     (i > 0 \<longrightarrow> ae_prev_hash (es ! i) = ae_current_hash (es ! (i - 1))))"

lemma verify_indices_iff:
  "verify_indices K es is = Inr () \<longleftrightarrow> (\<forall>i \<in> set is. verify_hash K (es ! i) \<and>
     (i > 0 \<longrightarrow> ae_prev_hash (es ! i) = ae_current_hash (es ! (i - 1))))"
  by (induction "is") (auto simp: Let_def)

lemma unat_length: "n < 2 ^ 64 \<Longrightarrow> unat (word_of_nat n :: u64) = n"
  by (simp add: unsigned_of_nat take_bit_eq_mod)

lemma length_word_zero: "n < 2 ^ 64 \<Longrightarrow> (word_of_nat n :: u64) = 0 \<longleftrightarrow> n = 0"
  using unat_length [of n] by (auto simp: unat_eq_0 [symmetric])

lemma verify_all_iff:
  assumes "length (hc_events c) < 2 ^ 64"
  shows "verify_all K c = Inr () \<longleftrightarrow> linked K (hc_events c)"
proof (cases "hc_events c = []")
  case True
  then show ?thesis by (simp add: verify_all_def linked_def)
next
  case False
  let ?n = "length (hc_events c)"
  have n: "(word_of_nat ?n :: u64) \<noteq> 0" using False assms length_word_zero by simp
  then have "verify_all K c = verify_indices K (hc_events c) [0..<?n]"
    using unat_length [OF assms] by (simp add: verify_all_def verify_range_def word_less_1 not_less [symmetric])
  then show ?thesis by (auto simp: verify_indices_iff linked_def)
qed

lemma linked_append:
  assumes "linked K es" "verify_hash K e" "es \<noteq> [] \<Longrightarrow> ae_prev_hash e = ae_current_hash (last es)"
  shows "linked K (es @ [e])"
  using assms by (auto simp: linked_def nth_append last_conv_nth less_Suc_eq)

lemma linked_drop: "linked K es \<Longrightarrow> linked K (drop k es)"
proof -
  assume l: "linked K es"
  have "ae_prev_hash (drop k es ! i) = ae_current_hash (drop k es ! (i - 1))"
    if "0 < i" "i < length (drop k es)" for i
    using l [unfolded linked_def, rule_format, of "k + i"] that by (simp add: nth_drop)
  then show ?thesis using l by (auto simp: linked_def nth_drop)
qed

section \<open>Chains built by append\<close>

definition chain_inv :: "'m audit_codec \<Rightarrow> 'm hash_chain \<Rightarrow> bool" where
  "chain_inv K c \<longleftrightarrow> linked K (hc_events c) \<and> hc_sequence c = word_of_nat (length (hc_events c)) \<and>
     hc_last_hash c = (if hc_events c = [] then genesis_hash else ae_current_hash (last (hc_events c))) \<and>
     (hc_events c \<noteq> [] \<longrightarrow> ae_prev_hash (hd (hc_events c)) = genesis_hash) \<and>
     (\<forall>i < length (hc_events c). ae_sequence (hc_events c ! i) = word_of_nat (Suc i))"

lemma chain_inv_new: "chain_inv K hash_chain_new"
  by (simp add: chain_inv_def hash_chain_new_def linked_def)

lemma verify_hash_computed: "verify_hash K (e\<lparr>ae_current_hash := compute_hash K e\<rparr>)"
  by (simp add: verify_hash_def compute_hash_def hash_input_def)

lemma append_event_inv:
  assumes "chain_inv K c"
  shows "chain_inv K (fst (append_event K c e))"
proof (cases "ae_sequence e = hc_sequence c + 1")
  case True
  define e2 where "e2 = (e\<lparr>ae_prev_hash := hc_last_hash c\<rparr>)\<lparr>ae_current_hash := compute_hash K (e\<lparr>ae_prev_hash := hc_last_hash c\<rparr>)\<rparr>"
  have e2: "verify_hash K e2" "ae_prev_hash e2 = hc_last_hash c" "ae_sequence e2 = hc_sequence c + 1"
    using True verify_hash_computed by (simp_all add: e2_def)
  have "fst (append_event K c e) = \<lparr>hc_events = hc_events c @ [e2], hc_last_hash = ae_current_hash e2,
      hc_sequence = hc_sequence c + 1\<rparr>"
    using True by (simp add: append_event_def Let_def e2_def)
  then show ?thesis
    using assms e2 linked_append [of K "hc_events c" e2]
    by (auto simp: chain_inv_def nth_append less_Suc_eq hd_append)
qed (use assms in \<open>simp add: append_event_def Let_def\<close>)

definition append_all :: "'m audit_codec \<Rightarrow> 'm hash_chain \<Rightarrow> 'm audit_event list \<Rightarrow> 'm hash_chain" where
  "append_all K c es = foldl (\<lambda>c e. fst (append_event K c e)) c es"

lemma append_all_inv: "chain_inv K c \<Longrightarrow> chain_inv K (append_all K c es)"
  unfolding append_all_def by (induction es arbitrary: c) (simp_all add: append_event_inv)

lemma append_event_length: "length (hc_events (fst (append_event K c e))) \<le> Suc (length (hc_events c))"
  by (simp add: append_event_def Let_def)

lemma append_all_length: "length (hc_events (append_all K c es)) \<le> length (hc_events c) + length es"
  unfolding append_all_def
proof (induction es arbitrary: c)
  case (Cons e es)
  show ?case
    using Cons [of "fst (append_event K c e)"] append_event_length [of K c e] by simp
qed simp

section \<open>Properties\<close>

definition sample_audit_codec :: "unit audit_codec" where
  "sample_audit_codec = \<lparr>to_rfc3339 = (\<lambda>t. ''2024-01-01T00:00:00+00:00''), ser_event_type = (\<lambda>_. Inr ''sign''),
     ser_op_result = (\<lambda>_. Inr ''success''), ser_metadata = (\<lambda>_. Inr ''null''),
     digest_hex = (\<lambda>bs. map (\<lambda>b. char_of (unat b)) bs)\<rparr>"

definition sample_event :: "u64 \<Rightarrow> string \<Rightarrow> unit audit_event" where
  "sample_event n op = \<lparr>ae_timestamp = 0, ae_sequence = n, ae_event_type = Sign, ae_operation = op,
     ae_namespace = ''ns'', ae_client_id = ''c'', ae_key_id = None, ae_result = Success,
     ae_prev_hash = [], ae_current_hash = [], ae_metadata = None\<rparr>"

definition sample_chain :: "unit hash_chain" where
  "sample_chain = append_all sample_audit_codec hash_chain_new [sample_event 1 ''ab'', sample_event 2 ''cd'']"

text \<open>C9: whatever sequence of events is appended to a new chain, accepted or refused, the chain
  verifies; its events are numbered from 1, the first one points to the genesis hash, and the stored last
  hash is the hash of the last event.\<close>

theorem appended_chain_verifies:
  assumes "length es < 2 ^ 64"
  shows "verify_all K (append_all K hash_chain_new es) = Inr () \<and> chain_inv K (append_all K hash_chain_new es)"
proof -
  have inv: "chain_inv K (append_all K hash_chain_new es)"
    by (rule append_all_inv [OF chain_inv_new])
  moreover have "length (hc_events (append_all K hash_chain_new es)) < 2 ^ 64"
    using append_all_length [of K hash_chain_new es] assms by (simp add: hash_chain_new_def)
  ultimately show ?thesis by (simp add: verify_all_iff chain_inv_def)
qed

theorem appended_chain_verifies_witness:
  "verify_all sample_audit_codec sample_chain = Inr () \<and> length (hc_events sample_chain) = 2"
  using appended_chain_verifies [of "[sample_event 1 ''ab'', sample_event 2 ''cd'']" sample_audit_codec]
  by (simp add: sample_chain_def append_all_def append_event_def hash_chain_new_def sample_event_def Let_def)

lemma linked_step:
  assumes l: "linked K es" "linked K es'" "length es = length es'" "i < length es"
    and inj: "inj_on (digest_hex K) (hash_input K ` (set es \<union> set es'))"
    and cur: "ae_current_hash (es ! i) = ae_current_hash (es' ! i)"
  shows "hash_input K (es ! i) = hash_input K (es' ! i)"
proof -
  have "digest_hex K (hash_input K (es ! i)) = digest_hex K (hash_input K (es' ! i))"
    using l cur by (simp add: linked_def verify_hash_def compute_hash_def)
  then show ?thesis using inj l(3,4) by (auto dest: inj_onD)
qed

definition metadata_bytes :: "'m audit_codec \<Rightarrow> 'm audit_event \<Rightarrow> bytes" where
  "metadata_bytes K e =
     (case ae_metadata e of Some m \<Rightarrow> str_bytes (unwrap_or_default (ser_metadata K m)) | None \<Rightarrow> [])"

definition content_bytes :: "'m audit_codec \<Rightarrow> 'm audit_event \<Rightarrow> bytes" where
  "content_bytes K e =
     str_bytes (to_rfc3339 K (ae_timestamp e)) @ to_le_bytes (ae_sequence e) @
     str_bytes (unwrap_or_default (ser_event_type K (ae_event_type e))) @
     str_bytes (ae_operation e) @ str_bytes (ae_namespace e) @ str_bytes (ae_client_id e) @
     (case ae_key_id e of Some k \<Rightarrow> str_bytes k | None \<Rightarrow> []) @
     str_bytes (unwrap_or_default (ser_op_result K (ae_result e)))"

lemma hash_input_split: "hash_input K e = content_bytes K e @ str_bytes (ae_prev_hash e) @ metadata_bytes K e"
  by (simp add: hash_input_def content_bytes_def metadata_bytes_def)

lemma hash_input_prev:
  assumes "hash_input K e = hash_input K e'" "length (ae_prev_hash e) = length (ae_prev_hash e')"
    and "length (metadata_bytes K e) = length (metadata_bytes K e')"
  shows "ae_prev_hash e = ae_prev_hash e'"
proof -
  have "str_bytes (ae_prev_hash e) @ metadata_bytes K e = str_bytes (ae_prev_hash e') @ metadata_bytes K e'"
    using assms append_same_suffix_length [of "str_bytes (ae_prev_hash e) @ metadata_bytes K e"
        "str_bytes (ae_prev_hash e') @ metadata_bytes K e'"] by (simp add: hash_input_split)
  then show ?thesis using assms(2) by simp
qed


lemma sample_digest_inj: "inj (digest_hex sample_audit_codec)"
proof -
  have "inj (\<lambda>b :: byte. char_of (unat b) :: char)"
  proof (rule injI)
    fix b c :: byte assume "(char_of (unat b) :: char) = char_of (unat c)"
    then have "(of_char (char_of (unat b) :: char) :: nat) = of_char (char_of (unat c) :: char)" by simp
    then show "b = c"
      using unsigned_less [where ?'a = nat, of b] unsigned_less [where ?'a = nat, of c]
      by (simp add: word_unat_eq_iff)
  qed
  then show ?thesis by (simp add: sample_audit_codec_def inj_def inj_map_eq_map)
qed

section \<open>Changes that verification does not see\<close>

text \<open>Verification reads only these parts of an event.\<close>

definition same_to_verify :: "'m audit_codec \<Rightarrow> 'm audit_event \<Rightarrow> 'm audit_event \<Rightarrow> bool" where
  "same_to_verify K e e' \<longleftrightarrow> hash_input K e = hash_input K e' \<and> ae_current_hash e = ae_current_hash e' \<and>
     ae_prev_hash e = ae_prev_hash e' \<and> ae_sequence e = ae_sequence e'"

lemma verify_indices_cong:
  assumes "list_all2 (same_to_verify K) es es'" "\<forall>i \<in> set is. i < length es"
  shows "verify_indices K es is = verify_indices K es' is"
  using assms(2)
proof (induction "is")
  case (Cons i "is")
  then have "same_to_verify K (es ! i) (es' ! i)" "same_to_verify K (es ! (i - 1)) (es' ! (i - 1))"
    using assms(1) by (auto simp: list_all2_conv_all_nth)
  then show ?case
    using Cons by (simp add: same_to_verify_def verify_hash_def compute_hash_def Let_def)
qed simp

lemma verify_range_cong:
  assumes "list_all2 (same_to_verify K) (hc_events c) (hc_events c')" "length (hc_events c) < 2 ^ 64"
  shows "verify_range K c from to = verify_range K c' from to"
proof -
  have len: "length (hc_events c) = length (hc_events c')" using assms(1) by (rule list_all2_lengthD)
  have "verify_indices K (hc_events c) [unat (from - 1)..<unat to]
      = verify_indices K (hc_events c') [unat (from - 1)..<unat to]"
    if "to \<le> word_of_nat (length (hc_events c))"
    by (rule verify_indices_cong [OF assms(1)])
      (use that unat_length [OF assms(2)] in \<open>auto simp: word_le_nat_alt\<close>)
  then show ?thesis by (auto simp: verify_range_def len not_less)
qed

lemma linked_cong: "list_all2 (same_to_verify K) es es' \<Longrightarrow> linked K es \<longleftrightarrow> linked K es'"
  by (auto simp: linked_def list_all2_conv_all_nth same_to_verify_def verify_hash_def compute_hash_def)

lemma moved_same:
  assumes "i < length es" "ae_operation (es ! i) = op @ x"
  shows "list_all2 (same_to_verify K)
    (es[i := (es ! i)\<lparr>ae_operation := op, ae_namespace := x @ ae_namespace (es ! i)\<rparr>]) es"
proof -
  have "same_to_verify K ((es ! i)\<lparr>ae_operation := op, ae_namespace := x @ ae_namespace (es ! i)\<rparr>) (es ! i)"
    using assms(2) by (simp add: same_to_verify_def hash_input_def)
  moreover have "same_to_verify K e e" for e by (simp add: same_to_verify_def)
  ultimately show ?thesis
    using assms(1) by (auto simp: list_all2_conv_all_nth nth_list_update)
qed

text \<open>the fields of an event are hashed without separators or lengths. For every hash function,
  moving text from the end of the operation to the start of the namespace leaves every hash of the chain
  as it was: no range verification of the modified chain differs from that of the original.\<close>

theorem moved_text_is_not_detected:
  assumes "i < length (hc_events c)" "length (hc_events c) < 2 ^ 64"
    and "ae_operation (hc_events c ! i) = op @ x"
  shows "verify_range K (c\<lparr>hc_events := (hc_events c)[i := (hc_events c ! i)\<lparr>ae_operation := op,
      ae_namespace := x @ ae_namespace (hc_events c ! i)\<rparr>]\<rparr>) from to = verify_range K c from to"
  using moved_same [OF assms(1,3), of K] assms(2) by (intro verify_range_cong) simp_all

lemma sample_chain_events: "length (hc_events sample_chain) = 2" "ae_operation (hc_events sample_chain ! 0) = ''a'' @ ''b''"
  by (simp_all add: sample_chain_def append_all_def append_event_def hash_chain_new_def sample_event_def Let_def)

theorem moved_text_is_not_detected_witness:
  "verify_range sample_audit_codec (sample_chain\<lparr>hc_events := (hc_events sample_chain)[0 :=
      (hc_events sample_chain ! 0)\<lparr>ae_operation := ''a'', ae_namespace := ''b'' @ ae_namespace (hc_events sample_chain ! 0)\<rparr>]\<rparr>) 1 2
    = verify_range sample_audit_codec sample_chain 1 2"
  using moved_text_is_not_detected [of 0 sample_chain "''a''" "''b''" sample_audit_codec 1 2] sample_chain_events by simp

text \<open>the start of the chain is not anchored. Deleting any number of events from the front of a
  verified chain leaves a chain that verifies, since neither the genesis hash nor the sequence numbers are
  checked.\<close>

theorem dropped_front_is_not_detected:
  assumes "length (hc_events c) < 2 ^ 64" "verify_all K c = Inr ()"
  shows "verify_all K (c\<lparr>hc_events := drop k (hc_events c)\<rparr>) = Inr ()"
  using assms linked_drop [of K "hc_events c" k]
    verify_all_iff [of "c\<lparr>hc_events := drop k (hc_events c)\<rparr>" K] verify_all_iff [of c K] by simp

theorem dropped_front_is_not_detected_witness:
  "verify_all sample_audit_codec (sample_chain\<lparr>hc_events := drop 1 (hc_events sample_chain)\<rparr>) = Inr ()"
proof -
  have "verify_all sample_audit_codec sample_chain = Inr ()"
    using verify_all_iff [of sample_chain sample_audit_codec] sample_chain_events(1)
      append_all_inv [OF chain_inv_new, of sample_audit_codec "[sample_event 1 ''ab'', sample_event 2 ''cd'']"]
    by (simp add: chain_inv_def sample_chain_def)
  then show ?thesis
    using dropped_front_is_not_detected [of sample_chain sample_audit_codec 1] sample_chain_events(1) by simp
qed

definition moved_events :: "unit audit_event list" where
  "moved_events = (hc_events sample_chain)[0 := (hc_events sample_chain ! 0)\<lparr>ae_operation := ''a'',
     ae_namespace := ''b'' @ ae_namespace (hc_events sample_chain ! 0)\<rparr>]"


end
