(* ===== verification/Merkle.thy ===== *)
theory Merkle
  imports Hsm_Prelude Sample_Hex
begin

text \<open>
  The Merkle tree over audit events, \<^verbatim>\<open>crates/audit/src/merkle_tree.rs\<close>. SHA-256 with hex output and
  hex decoding are the parameter \<open>H\<close>. Levels are lists of digests, a level is computed from the one
  below by pairing, and an odd last digest is paired with itself, as the loops of \<^verbatim>\<open>rebuild\<close> and
  \<^verbatim>\<open>generate_proof\<close> do. A proof that the tree generates verifies (completeness), and a proof that
  verifies is for a leaf of the tree, or exhibits a hash collision (soundness).
\<close>

section \<open>Digests\<close>

record merkle_hash =
  sha_hex :: "bytes \<Rightarrow> string"
  hex_decode :: "string \<Rightarrow> (string, bytes) res"

definition leaf_input :: "string \<Rightarrow> bytes" where
  "leaf_input v = 0 # str_bytes v"

definition hash_leaf :: "merkle_hash \<Rightarrow> string \<Rightarrow> string" where
  "hash_leaf H v = sha_hex H (leaf_input v)"

definition node_input :: "merkle_hash \<Rightarrow> string \<Rightarrow> string \<Rightarrow> bytes" where
  "node_input H l r =
     1 # (case (hex_decode H l, hex_decode H r) of
            (Inr a, Inr b) \<Rightarrow> a @ b
          | _ \<Rightarrow> str_bytes l @ str_bytes r)"

definition hash_node :: "merkle_hash \<Rightarrow> string \<Rightarrow> string \<Rightarrow> string" where
  "hash_node H l r = sha_hex H (node_input H l r)"

section \<open>The tree\<close>

datatype merkle_error = EmptyTree | HashNotFound | InvalidProof

record merkle_tree =
  mt_root :: "string option"
  mt_leaves :: "string list"
  mt_leaf_indices :: "string \<Rightarrow> nat option"

record proof_element =
  pe_hash :: string
  pe_is_left :: bool

record merkle_proof =
  mp_leaf_hash :: string
  mp_elements :: "proof_element list"

definition merkle_new :: merkle_tree where
  "merkle_new = \<lparr>mt_root = None, mt_leaves = [], mt_leaf_indices = Map.empty\<rparr>"

text \<open>One pass over the chunks of two.\<close>

fun next_level :: "merkle_hash \<Rightarrow> string list \<Rightarrow> string list" where
  "next_level H (a # b # xs) = hash_node H a b # next_level H xs"
| "next_level H [a] = [hash_node H a a]"
| "next_level H [] = []"

lemma length_next_level [simp]: "length (next_level H xs) = (length xs + 1) div 2"
  by (induction H xs rule: next_level.induct) auto

text \<open>The loop of \<^verbatim>\<open>rebuild\<close>: pair levels until one digest is left.\<close>

function top_level :: "merkle_hash \<Rightarrow> string list \<Rightarrow> string list" where
  "top_level H nodes = (if length nodes > 1 then top_level H (next_level H nodes) else nodes)"
  by pat_completeness auto
termination
  by (relation "measure (\<lambda>(H, nodes). length nodes)") auto

declare top_level.simps [simp del]

definition rebuild :: "merkle_hash \<Rightarrow> merkle_tree \<Rightarrow> merkle_tree" where
  "rebuild H t =
     (if mt_leaves t = [] then t\<lparr>mt_root := None\<rparr>
      else t\<lparr>mt_root := Some (hd (top_level H (map (hash_leaf H) (mt_leaves t))))\<rparr>)"

definition update_tree :: "merkle_hash \<Rightarrow> merkle_tree \<Rightarrow> string \<Rightarrow> merkle_tree" where
  "update_tree H t v =
     rebuild H (t\<lparr>mt_leaf_indices := (mt_leaf_indices t)(v \<mapsto> length (mt_leaves t)),
       mt_leaves := mt_leaves t @ [v]\<rparr>)"

fun insert_hashes :: "string list \<Rightarrow> nat \<Rightarrow> merkle_tree \<Rightarrow> merkle_tree" where
  "insert_hashes [] idx t = t"
| "insert_hashes (v # vs) idx t =
     insert_hashes vs (Suc idx) (t\<lparr>mt_leaf_indices := (mt_leaf_indices t)(v \<mapsto> idx),
       mt_leaves := mt_leaves t @ [v]\<rparr>)"

definition from_hashes :: "merkle_hash \<Rightarrow> string list \<Rightarrow> merkle_tree" where
  "from_hashes H hashes = rebuild H (insert_hashes hashes 0 merkle_new)"

definition get_root :: "merkle_tree \<Rightarrow> (merkle_error, string) res" where
  "get_root t = ok_or EmptyTree (mt_root t)"

definition verify_inclusion :: "merkle_tree \<Rightarrow> string \<Rightarrow> bool" where
  "verify_inclusion t v \<longleftrightarrow> mt_leaf_indices t v \<noteq> None"

text \<open>The loop of \<^verbatim>\<open>generate_proof\<close>.\<close>

function proof_elements :: "merkle_hash \<Rightarrow> string list \<Rightarrow> nat \<Rightarrow> proof_element list" where
  "proof_elements H level i =
     (if length level > 1
      then let sibling_index = (if i mod 2 = 0 then i + 1 else i - 1);
               sibling = (if sibling_index < length level then level ! sibling_index else level ! i)
           in \<lparr>pe_hash = sibling, pe_is_left = (i mod 2 \<noteq> 0)\<rparr> # proof_elements H (next_level H level) (i div 2)
      else [])"
  by pat_completeness auto
termination
  by (relation "measure (\<lambda>(H, level, i). length level)") auto

declare proof_elements.simps [simp del]

definition generate_proof :: "merkle_hash \<Rightarrow> merkle_tree \<Rightarrow> string \<Rightarrow> (merkle_error, merkle_proof) res" where
  "generate_proof H t v =
     bind_res (ok_or HashNotFound (mt_leaf_indices t v)) (\<lambda>index.
     Inr \<lparr>mp_leaf_hash = v, mp_elements = proof_elements H (map (hash_leaf H) (mt_leaves t)) index\<rparr>)"

definition climb :: "merkle_hash \<Rightarrow> string \<Rightarrow> proof_element \<Rightarrow> string" where
  "climb H current e =
     (if pe_is_left e then hash_node H (pe_hash e) current else hash_node H current (pe_hash e))"

definition verify_merkle :: "merkle_hash \<Rightarrow> merkle_proof \<Rightarrow> string \<Rightarrow> bool" where
  "verify_merkle H p root \<longleftrightarrow> foldl (climb H) (hash_leaf H (mp_leaf_hash p)) (mp_elements p) = root"

definition verify_proof :: "merkle_hash \<Rightarrow> merkle_tree \<Rightarrow> merkle_proof \<Rightarrow> (merkle_error, bool) res" where
  "verify_proof H t p = bind_res (get_root t) (\<lambda>root. Inr (verify_merkle H p root))"

section \<open>The invariant of the tree\<close>

definition indexed :: "merkle_tree \<Rightarrow> bool" where
  "indexed t \<longleftrightarrow> (\<forall>v i. mt_leaf_indices t v = Some i \<longrightarrow> i < length (mt_leaves t) \<and> mt_leaves t ! i = v) \<and>
     dom (mt_leaf_indices t) = set (mt_leaves t)"

definition merkle_inv :: "merkle_hash \<Rightarrow> merkle_tree \<Rightarrow> bool" where
  "merkle_inv H t \<longleftrightarrow> indexed t \<and>
     mt_root t = (if mt_leaves t = [] then None
       else Some (hd (top_level H (map (hash_leaf H) (mt_leaves t)))))"

lemma rebuild_inv: "indexed t \<Longrightarrow> merkle_inv H (rebuild H t)"
  by (auto simp: merkle_inv_def indexed_def rebuild_def)

lemma mt_leaves_rebuild [simp]: "mt_leaves (rebuild H t) = mt_leaves t"
  by (simp add: rebuild_def)

lemma indexed_push:
  assumes "indexed t"
  shows "indexed (t\<lparr>mt_leaf_indices := (mt_leaf_indices t)(v \<mapsto> length (mt_leaves t)),
     mt_leaves := mt_leaves t @ [v]\<rparr>)"
proof -
  have "i < Suc (length (mt_leaves t)) \<and> (mt_leaves t @ [v]) ! i = w"
    if "((mt_leaf_indices t)(v \<mapsto> length (mt_leaves t))) w = Some i" for w i
    using assms that by (cases "w = v") (auto simp: indexed_def nth_append less_Suc_eq)
  then show ?thesis using assms by (auto simp: indexed_def)
qed

lemma merkle_new_inv: "merkle_inv H merkle_new"
  by (simp add: merkle_inv_def indexed_def merkle_new_def)

lemma update_tree_inv: "merkle_inv H t \<Longrightarrow> merkle_inv H (update_tree H t v)"
  unfolding update_tree_def by (intro rebuild_inv indexed_push) (simp add: merkle_inv_def)

lemma insert_hashes_indexed:
  "indexed t \<Longrightarrow> idx = length (mt_leaves t) \<Longrightarrow>
   indexed (insert_hashes vs idx t) \<and> mt_leaves (insert_hashes vs idx t) = mt_leaves t @ vs"
proof (induction vs idx t rule: insert_hashes.induct)
  case (2 v vs idx t)
  then show ?case using indexed_push [of t v] by simp
qed simp

lemma from_hashes_inv: "merkle_inv H (from_hashes H vs) \<and> mt_leaves (from_hashes H vs) = vs"
proof -
  have "indexed merkle_new" "mt_leaves merkle_new = []" by (simp_all add: indexed_def merkle_new_def)
  then show ?thesis
    using insert_hashes_indexed [of merkle_new 0 vs] rebuild_inv by (simp add: from_hashes_def)
qed

section \<open>Completeness\<close>

lemma next_level_nth:
  "i < length (next_level H xs) \<Longrightarrow> next_level H xs ! i =
     (if 2 * i + 1 < length xs then hash_node H (xs ! (2 * i)) (xs ! (2 * i + 1))
      else hash_node H (xs ! (2 * i)) (xs ! (2 * i)))"
proof (induction H xs arbitrary: i rule: next_level.induct)
  case (1 H a b xs)
  then show ?case by (cases i) auto
qed auto

text \<open>One step of a generated proof goes to the parent.\<close>

lemma climb_parent:
  assumes "i < length level"
  shows "climb H (level ! i) \<lparr>pe_hash = (let si = (if i mod 2 = 0 then i + 1 else i - 1) in
      if si < length level then level ! si else level ! i), pe_is_left = (i mod 2 \<noteq> 0)\<rparr>
    = next_level H level ! (i div 2)"
proof -
  have len: "i div 2 < length (next_level H level)" using assms by simp
  show ?thesis
  proof (cases "even i")
    case True
    then show ?thesis using next_level_nth [OF len] assms by (auto simp: climb_def elim!: evenE)
  next
    case False
    then show ?thesis using next_level_nth [OF len] assms by (auto simp: climb_def elim!: oddE)
  qed
qed

lemma generated_proof_climbs:
  "i < length level \<Longrightarrow> foldl (climb H) (level ! i) (proof_elements H level i) = hd (top_level H level)"
proof (induction H level i rule: proof_elements.induct)
  case (1 H level i)
  show ?case
  proof (cases "length level > 1")
    case True
    then have "foldl (climb H) (level ! i) (proof_elements H level i)
        = foldl (climb H) (next_level H level ! (i div 2)) (proof_elements H (next_level H level) (i div 2))"
      using climb_parent [OF 1(2), of H] by (subst proof_elements.simps) (simp add: Let_def)
    also have "\<dots> = hd (top_level H (next_level H level))"
      using 1 True by (auto simp: Let_def)
    finally show ?thesis using True by (simp add: top_level.simps [of H level])
  next
    case False
    then obtain x where "level = [x]" "i = 0" using 1(2) by (cases level) auto
    then show ?thesis by (simp add: proof_elements.simps top_level.simps)
  qed
qed

text \<open>C11: completeness. For every value that was inserted, \<^verbatim>\<open>generate_proof\<close> returns a proof and
  \<^verbatim>\<open>verify_proof\<close> accepts it, in every tree built from hashes and updates, for every hash function.\<close>

theorem generated_proof_verifies:
  assumes "merkle_inv H t" "v \<in> set (mt_leaves t)"
  shows "\<exists>p. generate_proof H t v = Inr p \<and> mp_leaf_hash p = v \<and> verify_proof H t p = Inr True"
proof -
  obtain i where i: "mt_leaf_indices t v = Some i" "i < length (mt_leaves t)" "mt_leaves t ! i = v"
    using assms by (fastforce simp: merkle_inv_def indexed_def dom_def)
  have ne: "mt_leaves t \<noteq> []" using assms(2) by auto
  have "foldl (climb H) (hash_leaf H v) (proof_elements H (map (hash_leaf H) (mt_leaves t)) i)
      = hd (top_level H (map (hash_leaf H) (mt_leaves t)))"
    using generated_proof_climbs [of i "map (hash_leaf H) (mt_leaves t)" H] i by simp
  then show ?thesis
    using assms(1) i(1) ne by (simp add: generate_proof_def verify_proof_def verify_merkle_def get_root_def merkle_inv_def)
qed

section \<open>Soundness\<close>

text \<open>What is used of SHA-256 and hex: digests of 32 bytes, printed with two characters per byte and
  read back.\<close>

definition digest_laws :: "merkle_hash \<Rightarrow> bool" where
  "digest_laws H \<longleftrightarrow> (\<exists>sha hex. (\<forall>x. sha_hex H x = hex (sha x) \<and> length (sha x) = 32) \<and>
     (\<forall>d. hex_decode H (hex d) = Inr d \<and> length (hex d) = 2 * length d))"

lemma digest_decode:
  assumes "digest_laws H"
  obtains d where "hex_decode H (sha_hex H x) = Inr d" "length d = 32" "length (sha_hex H x) = 64"
  using assms by (auto simp: digest_laws_def)

lemma digest_decode_inject:
  assumes "digest_laws H" "hex_decode H (sha_hex H x) = hex_decode H (sha_hex H y)"
  shows "sha_hex H x = sha_hex H y"
  using assms by (auto simp: digest_laws_def)

lemma decode_empty: "digest_laws H \<Longrightarrow> hex_decode H [] = Inr []"
  unfolding digest_laws_def by (metis length_0_conv mult_0_right list.size(3))

lemma node_input_inject:
  assumes laws: "digest_laws H"
    and eq: "node_input H (if left then s else v) (if left then v else s) = node_input H a b"
    and v: "v = sha_hex H x" and a: "a = sha_hex H y" and b: "b = sha_hex H z"
  shows "v = (if left then b else a)"
proof -
  obtain dv where dv: "hex_decode H v = Inr dv" "length dv = 32" "length v = 64" using digest_decode [OF laws] v by blast
  obtain da where da: "hex_decode H a = Inr da" "length da = 32" using digest_decode [OF laws] a by blast
  obtain db where db: "hex_decode H b = Inr db" "length db = 32" using digest_decode [OF laws] b by blast
  have ab: "node_input H a b = 1 # da @ db" using da db by (simp add: node_input_def)
  show ?thesis
  proof (cases "hex_decode H s")
    case (Inl e)
    then have "length s > 0" using decode_empty [OF laws] by auto
    moreover have "length (node_input H (if left then s else v) (if left then v else s)) = Suc (length s + 64)"
      using Inl dv by (simp add: node_input_def)
    ultimately show ?thesis using eq ab da db by simp
  next
    case (Inr ds)
    then have "length ds = 32" "dv = (if left then db else da)"
      using eq ab dv da db by (auto simp: node_input_def split: if_splits dest: arg_cong [where f = length])
    then show ?thesis
      using dv da db digest_decode_inject [OF laws] v a b by (metis)
  qed
qed

text \<open>The inputs the hash function gets while the tree is rebuilt and while a proof is verified.\<close>

fun pair_inputs :: "merkle_hash \<Rightarrow> string list \<Rightarrow> bytes set" where
  "pair_inputs H (a # b # xs) = insert (node_input H a b) (pair_inputs H xs)"
| "pair_inputs H [a] = {node_input H a a}"
| "pair_inputs H [] = {}"

function level_inputs :: "merkle_hash \<Rightarrow> string list \<Rightarrow> bytes set" where
  "level_inputs H nodes =
     (if length nodes > 1 then pair_inputs H nodes \<union> level_inputs H (next_level H nodes) else {})"
  by pat_completeness auto
termination
  by (relation "measure (\<lambda>(H, nodes). length nodes)") auto

declare level_inputs.simps [simp del]

definition tree_inputs :: "merkle_hash \<Rightarrow> string list \<Rightarrow> bytes set" where
  "tree_inputs H vs = leaf_input ` set vs \<union> level_inputs H (map (hash_leaf H) vs)"

definition climb_input :: "merkle_hash \<Rightarrow> string \<Rightarrow> proof_element \<Rightarrow> bytes" where
  "climb_input H c e = node_input H (if pe_is_left e then pe_hash e else c) (if pe_is_left e then c else pe_hash e)"

definition proof_inputs :: "merkle_hash \<Rightarrow> merkle_proof \<Rightarrow> bytes set" where
  "proof_inputs H p = insert (leaf_input (mp_leaf_hash p))
     {climb_input H (foldl (climb H) (hash_leaf H (mp_leaf_hash p)) es) e | es e. prefix (es @ [e]) (mp_elements p)}"

lemma climb_sha: "climb H c e = sha_hex H (climb_input H c e)"
  by (simp add: climb_def climb_input_def hash_node_def)

lemma foldl_climb_sha: "c = sha_hex H x \<Longrightarrow> \<exists>y. foldl (climb H) c es = sha_hex H y"
  by (induction es rule: rev_induct) (auto simp: climb_sha)

lemma next_level_member:
  "x \<in> set (next_level H xs) \<Longrightarrow> \<exists>a b. a \<in> set xs \<and> b \<in> set xs \<and> x = hash_node H a b \<and> node_input H a b \<in> pair_inputs H xs"
proof (induction H xs rule: next_level.induct)
  case (1 H a b xs)
  then show ?case by auto
qed auto

text \<open>The climb of a verified proof passes through every level of the tree.\<close>

lemma climb_meets_level:
  assumes "digest_laws H" "c = hash_leaf H x" "foldl (climb H) c es = hd (top_level H level)" "level \<noteq> []"
    and "\<forall>n \<in> set level. \<exists>y. n = sha_hex H y"
    and "\<forall>i \<in> level_inputs H level. sha_hex H i = sha_hex H (leaf_input x) \<longrightarrow> i = leaf_input x"
    and "\<forall>i \<in> level_inputs H level. \<forall>es1 e. prefix (es1 @ [e]) es \<longrightarrow>
       sha_hex H i = sha_hex H (climb_input H (foldl (climb H) c es1) e) \<longrightarrow> i = climb_input H (foldl (climb H) c es1) e"
  shows "\<exists>es1. prefix es1 es \<and> foldl (climb H) c es1 \<in> set level"
  using assms(3-7)
proof (induction level rule: length_induct)
  case (1 level)
  show ?case
  proof (cases "length level > 1")
    case False
    then obtain n where "level = [n]" using "1.prems"(2) by (cases level) auto
    then show ?thesis using "1.prems"(1) by (auto simp: top_level.simps)
  next
    case True
    let ?next = "next_level H level"
    have sub: "level_inputs H level = pair_inputs H level \<union> level_inputs H ?next"
      using True by (subst level_inputs.simps) simp
    have sha: "\<forall>n \<in> set ?next. \<exists>y. n = sha_hex H y"
      using next_level_member by (fastforce simp: hash_node_def)
    have fold: "foldl (climb H) c es = hd (top_level H ?next)"
      using "1.prems"(1) True by (simp add: top_level.simps [of H level])
    have len: "length ?next < length level" "?next \<noteq> []" using True by (auto simp flip: length_0_conv)
    have "\<exists>es1. prefix es1 es \<and> foldl (climb H) c es1 \<in> set ?next"
      by (rule "1.IH" [rule_format, OF len(1) fold len(2)])
        (use sha "1.prems"(4,5) in \<open>simp_all add: sub\<close>)
    then obtain es1 where es1: "prefix es1 es" "foldl (climb H) c es1 \<in> set ?next" by blast
    obtain a b where ab: "a \<in> set level" "b \<in> set level" "foldl (climb H) c es1 = hash_node H a b"
      "node_input H a b \<in> pair_inputs H level"
      using next_level_member [OF es1(2)] by blast
    show ?thesis
    proof (cases es1 rule: rev_cases)
      case Nil
      then have "node_input H a b = leaf_input x"
        using ab(3,4) "1.prems"(4) sub assms(2) by (simp add: hash_node_def hash_leaf_def)
      then show ?thesis by (simp add: node_input_def leaf_input_def)
    next
      case (snoc es2 e)
      let ?v = "foldl (climb H) c es2"
      have "sha_hex H (node_input H a b) = sha_hex H (climb_input H ?v e)"
        using ab(3) snoc by (simp add: hash_node_def climb_sha)
      then have "node_input H a b = climb_input H ?v e"
        using "1.prems"(5) ab(4) sub es1(1) snoc by blast
      moreover obtain w where w: "?v = sha_hex H w" using foldl_climb_sha assms(2) by (metis hash_leaf_def)
      moreover obtain y z where "a = sha_hex H y" "b = sha_hex H z" using "1.prems"(3) ab(1,2) by blast
      ultimately have "?v = (if pe_is_left e then b else a)"
        using node_input_inject [OF assms(1), of "pe_is_left e" "pe_hash e" ?v a b w y z] by (simp add: climb_input_def)
      then have "?v \<in> set level" using ab(1,2) by simp
      moreover have "prefix es2 es" using es1(1) snoc by (auto simp: prefix_def)
      ultimately show ?thesis by blast
    qed
  qed
qed

text \<open>C12: soundness. If a proof, whoever made it, verifies against the root of a tree, then its value is
  a leaf of the tree, unless a hash input of the tree and a hash input of the verification collide.\<close>

theorem verified_proof_is_for_a_leaf:
  assumes "digest_laws H" "merkle_inv H t" "verify_proof H t p = Inr True"
    and "\<forall>i \<in> tree_inputs H (mt_leaves t). \<forall>j \<in> proof_inputs H p. sha_hex H i = sha_hex H j \<longrightarrow> i = j"
  shows "mp_leaf_hash p \<in> set (mt_leaves t)"
proof -
  let ?level = "map (hash_leaf H) (mt_leaves t)" and ?c = "hash_leaf H (mp_leaf_hash p)"
  have ne: "mt_leaves t \<noteq> []"
    using assms(2,3) by (auto simp: verify_proof_def get_root_def merkle_inv_def)
  have top: "foldl (climb H) ?c (mp_elements p) = hd (top_level H ?level)"
    using assms(2,3) ne by (simp add: verify_proof_def get_root_def merkle_inv_def verify_merkle_def)
  have free: "i = j" if "i \<in> tree_inputs H (mt_leaves t)" "j \<in> proof_inputs H p" "sha_hex H i = sha_hex H j" for i j
    using assms(4) that by blast
  have sha: "\<forall>n \<in> set ?level. \<exists>y. n = sha_hex H y" by (auto simp: hash_leaf_def)
  have leaf: "\<forall>i \<in> level_inputs H ?level. sha_hex H i = sha_hex H (leaf_input (mp_leaf_hash p)) \<longrightarrow> i = leaf_input (mp_leaf_hash p)"
    by (intro ballI impI free) (simp_all add: tree_inputs_def proof_inputs_def)
  have node: "\<forall>i \<in> level_inputs H ?level. \<forall>es1 e. prefix (es1 @ [e]) (mp_elements p) \<longrightarrow>
      sha_hex H i = sha_hex H (climb_input H (foldl (climb H) ?c es1) e) \<longrightarrow> i = climb_input H (foldl (climb H) ?c es1) e"
    by (intro ballI allI impI free) (auto simp: tree_inputs_def proof_inputs_def)
  have level: "?level \<noteq> []" using ne by simp
  obtain es where es: "prefix es (mp_elements p)" "foldl (climb H) ?c es \<in> set ?level"
    using climb_meets_level [OF assms(1) refl top level sha leaf node] by blast
  then obtain y where y: "y \<in> set (mt_leaves t)" "foldl (climb H) ?c es = hash_leaf H y" by auto
  show ?thesis
  proof (cases es rule: rev_cases)
    case Nil
    then have "leaf_input y = leaf_input (mp_leaf_hash p)"
      using y by (intro free) (auto simp: tree_inputs_def proof_inputs_def hash_leaf_def)
    then show ?thesis using y(1) by (simp add: leaf_input_def)
  next
    case (snoc es' e)
    have "leaf_input y = climb_input H (foldl (climb H) ?c es') e"
      using y es(1) snoc by (intro free) (auto simp: tree_inputs_def proof_inputs_def hash_leaf_def climb_sha)
    then show ?thesis by (simp add: leaf_input_def climb_input_def node_input_def)
  qed
qed

definition sample_merkle_hash :: merkle_hash where
  "sample_merkle_hash = \<lparr>sha_hex = (\<lambda>x. sample_hex (pad32 x)), hex_decode = sample_unhex\<rparr>"

lemma sample_digest_laws: "digest_laws sample_merkle_hash"
  unfolding digest_laws_def
  by (rule exI [of _ pad32], rule exI [of _ sample_hex]) (simp add: sample_merkle_hash_def)

lemma sample_no_collision:
  "sha_hex sample_merkle_hash (a # b # x) = sha_hex sample_merkle_hash (c # d # y) \<Longrightarrow> a = c \<and> b = d"
  using take_pad32 [of 2 "a # b # x"] take_pad32 [of 2 "c # d # y"] by (simp add: sample_merkle_hash_def)

theorem generated_proof_verifies_witness:
  "\<exists>p. generate_proof sample_merkle_hash (from_hashes sample_merkle_hash [''a'', ''b'', ''c'']) ''c'' = Inr p \<and>
     verify_proof sample_merkle_hash (from_hashes sample_merkle_hash [''a'', ''b'', ''c'']) p = Inr True"
  using generated_proof_verifies [of sample_merkle_hash "from_hashes sample_merkle_hash [''a'', ''b'', ''c'']" "''c''"]
    from_hashes_inv [of sample_merkle_hash "[''a'', ''b'', ''c'']"] by auto

definition sample_proof :: merkle_proof where
  "sample_proof = \<lparr>mp_leaf_hash = ''a'',
     mp_elements = [\<lparr>pe_hash = hash_leaf sample_merkle_hash ''b'', pe_is_left = False\<rparr>]\<rparr>"

lemma sample_proof_verifies:
  "verify_proof sample_merkle_hash (from_hashes sample_merkle_hash [''a'', ''b'']) sample_proof = Inr True"
  by (simp add: verify_proof_def verify_merkle_def sample_proof_def from_hashes_def rebuild_def get_root_def
      merkle_new_def climb_def top_level.simps)

theorem verified_proof_is_for_a_leaf_witness:
  "mp_leaf_hash sample_proof \<in> set (mt_leaves (from_hashes sample_merkle_hash [''a'', ''b'']))"
proof (rule verified_proof_is_for_a_leaf [OF sample_digest_laws _ sample_proof_verifies])
  let ?t = "from_hashes sample_merkle_hash [''a'', ''b'']" and ?n = "node_input sample_merkle_hash
    (hash_leaf sample_merkle_hash ''a'') (hash_leaf sample_merkle_hash ''b'')"
  show "merkle_inv sample_merkle_hash ?t" using from_hashes_inv by blast
  obtain da where da: "hex_decode sample_merkle_hash (hash_leaf sample_merkle_hash ''a'') = Inr da" "length da = 32"
    unfolding hash_leaf_def by (rule digest_decode [OF sample_digest_laws])
  obtain db where db: "hex_decode sample_merkle_hash (hash_leaf sample_merkle_hash ''b'') = Inr db"
    unfolding hash_leaf_def by (rule digest_decode [OF sample_digest_laws])
  obtain b x where n: "?n = 1 # b # x"
    using da db by (cases da) (auto simp: node_input_def)
  have t: "tree_inputs sample_merkle_hash (mt_leaves ?t) = {leaf_input ''a'', leaf_input ''b'', ?n}"
    using from_hashes_inv [of sample_merkle_hash "[''a'', ''b'']"]
    by (auto simp: tree_inputs_def level_inputs.simps)
  have p: "proof_inputs sample_merkle_hash sample_proof \<subseteq> {leaf_input ''a'', ?n}"
    by (auto simp: proof_inputs_def sample_proof_def climb_input_def prefix_Cons)
  show "\<forall>i \<in> tree_inputs sample_merkle_hash (mt_leaves ?t). \<forall>j \<in> proof_inputs sample_merkle_hash sample_proof.
      sha_hex sample_merkle_hash i = sha_hex sample_merkle_hash j \<longrightarrow> i = j"
    using p unfolding t n by (auto simp: leaf_input_def str_bytes_def dest!: sample_no_collision)
qed

end
