(* ===== verification/Ttlv.thy ===== *)
theory Ttlv
  imports Hsm_Prelude
begin

text \<open>
  The KMIP wire format, \<^verbatim>\<open>crates/kmip-server/src/ttlv\<close>: \<^verbatim>\<open>types.rs\<close>, \<^verbatim>\<open>encoder.rs\<close> and \<^verbatim>\<open>decoder.rs\<close>.
  A buffer is the list of its remaining bytes. Reading past its end, which panics in the \<^verbatim>\<open>bytes\<close>
  crate, is the outcome \<open>Panicked\<close>, so that the absence of panics is a property of the model. A text
  string is the list of its UTF-8 bytes. Signed integers are their two's complement words.
  \<open>decode_item k\<close> has \<open>k\<close> levels of nesting left: it is \<^verbatim>\<open>decode_item\<close> at depth \<open>64 - k\<close>. The loop over
  the items of a structure has the length of the structure as fuel, and running out of it would be
  the outcome \<open>Diverged\<close>.
\<close>

unbundle bit_operations_syntax

section \<open>Types\<close>

type_synonym ttlv_tag = u32

datatype ttlv_type = TStructure | TInteger | TLongInteger | TBigInteger | TEnumeration | TBoolean
  | TTextString | TByteString | TDateTime | TInterval

datatype ttlv = Ttlv (ttlv_tag: ttlv_tag) (ttlv_value: ttlv_value)
and ttlv_value =
    Structure "ttlv list"
  | Integer "32 word"
  | LongInteger "64 word"
  | BigInteger bytes
  | Enumeration u32
  | Boolean bool
  | TextString bytes
  | ByteString bytes
  | DateTime "64 word"
  | Interval u32

datatype ttlv_error = InvalidType byte | UnexpectedEof | InvalidEncoding string | InvalidUtf8
  | LengthOverflow nat | Io string

datatype ttlv_fail = Error ttlv_error | Panicked | Diverged

primrec type_byte :: "ttlv_type \<Rightarrow> byte" where
  "type_byte TStructure = 1"
| "type_byte TInteger = 2"
| "type_byte TLongInteger = 3"
| "type_byte TBigInteger = 4"
| "type_byte TEnumeration = 5"
| "type_byte TBoolean = 6"
| "type_byte TTextString = 7"
| "type_byte TByteString = 8"
| "type_byte TDateTime = 9"
| "type_byte TInterval = 10"

definition type_try_from :: "byte \<Rightarrow> (ttlv_error, ttlv_type) res" where
  "type_try_from b =
     (if b = 1 then Inr TStructure else if b = 2 then Inr TInteger else if b = 3 then Inr TLongInteger
      else if b = 4 then Inr TBigInteger else if b = 5 then Inr TEnumeration else if b = 6 then Inr TBoolean
      else if b = 7 then Inr TTextString else if b = 8 then Inr TByteString else if b = 9 then Inr TDateTime
      else if b = 10 then Inr TInterval else Inl (InvalidType b))"

primrec value_type :: "ttlv_value \<Rightarrow> ttlv_type" where
  "value_type (Structure _) = TStructure"
| "value_type (Integer _) = TInteger"
| "value_type (LongInteger _) = TLongInteger"
| "value_type (BigInteger _) = TBigInteger"
| "value_type (Enumeration _) = TEnumeration"
| "value_type (Boolean _) = TBoolean"
| "value_type (TextString _) = TTextString"
| "value_type (ByteString _) = TByteString"
| "value_type (DateTime _) = TDateTime"
| "value_type (Interval _) = TInterval"

definition ttlv_get :: "ttlv \<Rightarrow> ttlv_tag \<Rightarrow> ttlv option" where
  "ttlv_get t tag = (case ttlv_value t of Structure items \<Rightarrow> find (\<lambda>i. ttlv_tag i = tag) items | _ \<Rightarrow> None)"

definition ttlv_get_all :: "ttlv \<Rightarrow> ttlv_tag \<Rightarrow> ttlv list" where
  "ttlv_get_all t tag = (case ttlv_value t of Structure items \<Rightarrow> filter (\<lambda>i. ttlv_tag i = tag) items | _ \<Rightarrow> [])"

text \<open>The validity of \<^verbatim>\<open>String::from_utf8\<close>: no overlong forms, no surrogates, at most U+10FFFF.\<close>

definition utf8_cont :: "byte \<Rightarrow> bool" where
  "utf8_cont b \<longleftrightarrow> 0x80 \<le> b \<and> b \<le> 0xBF"

fun utf8_valid :: "bytes \<Rightarrow> bool" where
  "utf8_valid [] = True"
| "utf8_valid (a # r) =
     (if a \<le> 0x7F then utf8_valid r
      else if 0xC2 \<le> a \<and> a \<le> 0xDF then
        (case r of b # r' \<Rightarrow> utf8_cont b \<and> utf8_valid r' | _ \<Rightarrow> False)
      else if 0xE0 \<le> a \<and> a \<le> 0xEF then
        (case r of b # c # r' \<Rightarrow> utf8_cont b \<and> utf8_cont c \<and> (a = 0xE0 \<longrightarrow> 0xA0 \<le> b) \<and>
             (a = 0xED \<longrightarrow> b \<le> 0x9F) \<and> utf8_valid r' | _ \<Rightarrow> False)
      else if 0xF0 \<le> a \<and> a \<le> 0xF4 then
        (case r of b # c # d # r' \<Rightarrow> utf8_cont b \<and> utf8_cont c \<and> utf8_cont d \<and> (a = 0xF0 \<longrightarrow> 0x90 \<le> b) \<and>
             (a = 0xF4 \<longrightarrow> b \<le> 0x8F) \<and> utf8_valid r' | _ \<Rightarrow> False)
      else False)"

section \<open>Encoder\<close>

definition put_u32 :: "32 word \<Rightarrow> bytes" where
  "put_u32 w = be_digits 4 (unat w)"

definition put_u64 :: "64 word \<Rightarrow> bytes" where
  "put_u64 w = be_digits 8 (unat w)"

definition padding :: "nat \<Rightarrow> nat" where
  "padding len = (8 - len mod 8) mod 8"

definition pad_to_8 :: "nat \<Rightarrow> bytes" where
  "pad_to_8 len = replicate (padding len) 0"

definition put_tag :: "ttlv_tag \<Rightarrow> bytes" where
  "put_tag tag = [ucast (drop_bit 16 tag), ucast (drop_bit 8 tag), ucast tag]"

text \<open>The length field of variable data is the length \<^verbatim>\<open>as u32\<close>.\<close>

fun encode_item :: "ttlv \<Rightarrow> bytes" and encode_value :: "ttlv_value \<Rightarrow> bytes" where
  "encode_item (Ttlv tag v) = put_tag tag @ type_byte (value_type v) # encode_value v"
| "encode_value (Structure items) =
     (let child_buf = concat (map encode_item items) in put_u32 (word_of_nat (length child_buf)) @ child_buf)"
| "encode_value (Integer v) = put_u32 4 @ put_u32 v @ put_u32 0"
| "encode_value (LongInteger v) = put_u32 8 @ put_u64 v"
| "encode_value (BigInteger v) = put_u32 (word_of_nat (length v)) @ v @ pad_to_8 (length v)"
| "encode_value (Enumeration v) = put_u32 4 @ put_u32 v @ put_u32 0"
| "encode_value (Boolean v) = put_u32 8 @ put_u64 (if v then 1 else 0)"
| "encode_value (TextString v) = put_u32 (word_of_nat (length v)) @ v @ pad_to_8 (length v)"
| "encode_value (ByteString v) = put_u32 (word_of_nat (length v)) @ v @ pad_to_8 (length v)"
| "encode_value (DateTime v) = put_u32 8 @ put_u64 v"
| "encode_value (Interval v) = put_u32 4 @ put_u32 v @ put_u32 0"

definition padded_len :: "nat \<Rightarrow> nat" where
  "padded_len len = len + padding len"

fun encoded_size :: "ttlv \<Rightarrow> nat" and value_size :: "ttlv_value \<Rightarrow> nat" where
  "encoded_size (Ttlv tag v) = 8 + value_size v"
| "value_size (Structure items) = sum_list (map encoded_size items)"
| "value_size (Integer _) = 8"
| "value_size (LongInteger _) = 8"
| "value_size (BigInteger v) = padded_len (length v)"
| "value_size (Enumeration _) = 8"
| "value_size (Boolean _) = 8"
| "value_size (TextString v) = padded_len (length v)"
| "value_size (ByteString v) = padded_len (length v)"
| "value_size (DateTime _) = 8"
| "value_size (Interval _) = 8"

section \<open>Decoder\<close>

definition copy_to_bytes :: "nat \<Rightarrow> bytes \<Rightarrow> (ttlv_fail, bytes \<times> bytes) res" where
  "copy_to_bytes n buf = (if n \<le> length buf then Inr (take n buf, drop n buf) else Inl Panicked)"

definition advance :: "nat \<Rightarrow> bytes \<Rightarrow> (ttlv_fail, bytes) res" where
  "advance n buf = (if n \<le> length buf then Inr (drop n buf) else Inl Panicked)"

definition get_u8 :: "bytes \<Rightarrow> (ttlv_fail, byte \<times> bytes) res" where
  "get_u8 buf = (case buf of b # r \<Rightarrow> Inr (b, r) | [] \<Rightarrow> Inl Panicked)"

definition get_u32 :: "bytes \<Rightarrow> (ttlv_fail, 32 word \<times> bytes) res" where
  "get_u32 buf = bind_res (copy_to_bytes 4 buf) (\<lambda>(bs, r). Inr (word_of_nat (be_value bs), r))"

definition get_u64 :: "bytes \<Rightarrow> (ttlv_fail, 64 word \<times> bytes) res" where
  "get_u64 buf = bind_res (copy_to_bytes 8 buf) (\<lambda>(bs, r). Inr (word_of_nat (be_value bs), r))"

definition padded_length :: "ttlv_type \<Rightarrow> nat \<Rightarrow> nat" where
  "padded_length ty len =
     (case ty of TStructure \<Rightarrow> len
      | TBigInteger \<Rightarrow> len + padding len | TTextString \<Rightarrow> len + padding len | TByteString \<Rightarrow> len + padding len
      | _ \<Rightarrow> 8)"

definition skip_padding :: "bytes \<Rightarrow> nat \<Rightarrow> (ttlv_fail, bytes) res" where
  "skip_padding buf len =
     (if padding len > 0 \<and> length buf \<ge> padding len then advance (padding len) buf else Inr buf)"

definition make_tag :: "byte \<Rightarrow> byte \<Rightarrow> byte \<Rightarrow> ttlv_tag" where
  "make_tag a b c = push_bit 16 (ucast a) OR push_bit 8 (ucast b) OR ucast c"

text \<open>The loop \<^verbatim>\<open>while structure_bytes.has_remaining()\<close>.\<close>

fun decode_items ::
  "(bytes \<Rightarrow> (ttlv_fail, ttlv \<times> bytes) res) \<Rightarrow> nat \<Rightarrow> bytes \<Rightarrow> (ttlv_fail, ttlv list) res" where
  "decode_items item fuel [] = Inr []"
| "decode_items item 0 (b # bs) = Inl Diverged"
| "decode_items item (Suc fuel) (b # bs) =
     bind_res (item (b # bs)) (\<lambda>(t, rest).
     bind_res (decode_items item fuel rest) (\<lambda>ts. Inr (t # ts)))"

definition padded_u32 :: "(32 word \<Rightarrow> ttlv_value) \<Rightarrow> bytes \<Rightarrow> (ttlv_fail, ttlv_value \<times> bytes) res" where
  "padded_u32 con buf =
     bind_res (get_u32 buf) (\<lambda>(v, buf). bind_res (advance 4 buf) (\<lambda>buf. Inr (con v, buf)))"

definition padded_bytes :: "(bytes \<Rightarrow> ttlv_value) \<Rightarrow> nat \<Rightarrow> bytes \<Rightarrow> (ttlv_fail, ttlv_value \<times> bytes) res" where
  "padded_bytes con len buf =
     bind_res (copy_to_bytes len buf) (\<lambda>(v, buf). bind_res (skip_padding buf len) (\<lambda>buf. Inr (con v, buf)))"

definition decode_value ::
  "(bytes \<Rightarrow> (ttlv_fail, ttlv \<times> bytes) res) \<Rightarrow> ttlv_type \<Rightarrow> nat \<Rightarrow> bytes \<Rightarrow> (ttlv_fail, ttlv_value \<times> bytes) res" where
  "decode_value item ty len buf =
     (case ty of
        TStructure \<Rightarrow>
          bind_res (copy_to_bytes len buf) (\<lambda>(sb, buf).
          bind_res (decode_items item (length sb) sb) (\<lambda>items. Inr (Structure items, buf)))
      | TInteger \<Rightarrow> padded_u32 Integer buf
      | TLongInteger \<Rightarrow> bind_res (get_u64 buf) (\<lambda>(v, buf). Inr (LongInteger v, buf))
      | TBigInteger \<Rightarrow> padded_bytes BigInteger len buf
      | TEnumeration \<Rightarrow> padded_u32 Enumeration buf
      | TBoolean \<Rightarrow> bind_res (get_u64 buf) (\<lambda>(v, buf). Inr (Boolean (v \<noteq> 0), buf))
      | TTextString \<Rightarrow>
          bind_res (copy_to_bytes len buf) (\<lambda>(v, buf).
          if utf8_valid v
          then bind_res (skip_padding buf len) (\<lambda>buf. Inr (TextString v, buf))
          else Inl (Error InvalidUtf8))
      | TByteString \<Rightarrow> padded_bytes ByteString len buf
      | TDateTime \<Rightarrow> bind_res (get_u64 buf) (\<lambda>(v, buf). Inr (DateTime v, buf))
      | TInterval \<Rightarrow> padded_u32 Interval buf)"

primrec decode_item :: "nat \<Rightarrow> bytes \<Rightarrow> (ttlv_fail, ttlv \<times> bytes) res" where
  "decode_item 0 buf = Inl (Error (InvalidEncoding ''TTLV nesting depth exceeds maximum of 64''))"
| "decode_item (Suc k) buf =
     (if length buf < 8 then Inl (Error UnexpectedEof)
      else
        bind_res (get_u8 buf) (\<lambda>(a, buf). bind_res (get_u8 buf) (\<lambda>(b, buf). bind_res (get_u8 buf) (\<lambda>(c, buf).
        bind_res (get_u8 buf) (\<lambda>(ty_byte, buf).
        bind_res (map_err Error (type_try_from ty_byte)) (\<lambda>ty.
        bind_res (get_u32 buf) (\<lambda>(len, buf).
        if length buf < padded_length ty (unat len) then Inl (Error UnexpectedEof)
        else
          bind_res (decode_value (decode_item k) ty (unat len) buf) (\<lambda>(v, buf).
          Inr (Ttlv (make_tag a b c) v, buf)))))))))"

definition MAX_TTLV_DEPTH :: nat where "MAX_TTLV_DEPTH = 64"

definition decode :: "bytes \<Rightarrow> (ttlv_fail, ttlv) res" where
  "decode data = bind_res (decode_item MAX_TTLV_DEPTH data) (\<lambda>(t, _). Inr t)"

definition peek_message_length :: "bytes \<Rightarrow> nat option" where
  "peek_message_length data =
     (if length data < 8 then None
      else Some (8 + unat (word_of_nat (be_value (take 4 (drop 4 data))) :: u32)))"

section \<open>Sizes\<close>

lemma type_try_from_byte [simp]: "type_try_from (type_byte ty) = Inr ty"
  by (cases ty) (simp_all add: type_try_from_def)

lemma length_put [simp]: "length (put_u32 a) = 4" "length (put_u64 b) = 8" "length (put_tag c) = 3"
    "length (pad_to_8 n) = padding n"
  by (simp_all add: put_u32_def put_u64_def put_tag_def pad_to_8_def)

lemma padded_8_dvd: "8 dvd len + padding len"
proof -
  have "len mod 8 < 8" by simp
  then consider "len mod 8 = 0" | "0 < len mod 8" "len mod 8 < 8" by linarith
  then show ?thesis
  proof cases
    case 2
    then have "len + padding len = len - len mod 8 + 8" by (simp add: padding_def)
    moreover have "8 dvd len - len mod 8 + 8" by (intro dvd_add dvd_minus_mod) simp
    ultimately show ?thesis by (simp only:)
  qed (simp add: padding_def dvd_eq_mod_eq_0)
qed

lemma length_encode:
  shows "length (encode_item t) = encoded_size t" and "length (encode_value v) = 4 + value_size v"
  by (induction t and v rule: encode_item_encode_value.induct)
    (simp_all add: Let_def length_concat padded_len_def comp_def cong: map_cong)

section \<open>Reading back what was written\<close>

lemma get_u8_Cons [simp]: "get_u8 (b # r) = Inr (b, r)"
  by (simp add: get_u8_def)

lemma copy_to_bytes_append [simp]: "length xs = n \<Longrightarrow> copy_to_bytes n (xs @ r) = Inr (xs, r)"
  by (simp add: copy_to_bytes_def)

lemma advance_append [simp]: "length xs = n \<Longrightarrow> advance n (xs @ r) = Inr r"
  by (simp add: advance_def)

lemma skip_pad_to_8 [simp]: "skip_padding (pad_to_8 n @ r) n = Inr r"
  by (cases "padding n = 0") (simp_all add: skip_padding_def pad_to_8_def)

lemma get_put_u32 [simp]: "get_u32 (put_u32 w @ r) = Inr (w, r)"
proof -
  have "unat w < 256 ^ 4" using unsigned_less [where ?'a = nat, of w] by simp
  then have "be_value (put_u32 w) = unat w" by (simp add: put_u32_def be_value_digits)
  then show ?thesis by (simp add: get_u32_def)
qed

lemma get_put_u64 [simp]: "get_u64 (put_u64 w @ r) = Inr (w, r)"
proof -
  have "unat w < 256 ^ 8" using unsigned_less [where ?'a = nat, of w] by simp
  then have "be_value (put_u64 w) = unat w" by (simp add: put_u64_def be_value_digits)
  then show ?thesis by (simp add: get_u64_def)
qed

lemma make_put_tag:
  assumes "tag < 2 ^ 24"
  shows "make_tag (ucast (drop_bit 16 tag)) (ucast (drop_bit 8 tag)) (ucast tag) = tag"
proof (rule bit_word_eqI)
  fix n assume "n < LENGTH(32)"
  then have n: "n < 32" by simp
  have high: "\<not> bit tag n" if "24 \<le> n"
  proof -
    have "take_bit 24 tag = tag"
      using assms by (simp add: take_bit_eq_mod mod_word_less)
    then have "bit tag n = bit (take_bit 24 tag) n" by simp
    with that show ?thesis by (simp add: bit_take_bit_iff)
  qed
  show "bit (make_tag (ucast (drop_bit 16 tag)) (ucast (drop_bit 8 tag)) (ucast tag)) n = bit tag n"
  proof -
    consider "n < 8" | "8 \<le> n" "n < 16" | "16 \<le> n" "n < 24" | "24 \<le> n" by linarith
    then show ?thesis
      using n high by cases (simp_all add: make_tag_def bit_simps less_diff_conv2)
  qed
qed

section \<open>Round trip\<close>

fun ttlv_depth :: "ttlv \<Rightarrow> nat" and value_depth :: "ttlv_value \<Rightarrow> nat" where
  "ttlv_depth (Ttlv _ v) = Suc (value_depth v)"
| "value_depth (Structure items) = foldr max (map ttlv_depth items) 0"
| "value_depth _ = 0"

text \<open>The items the format can carry: three-byte tags and texts that are UTF-8.\<close>

fun wf_ttlv :: "ttlv \<Rightarrow> bool" and wf_value :: "ttlv_value \<Rightarrow> bool" where
  "wf_ttlv (Ttlv tag v) \<longleftrightarrow> tag < 2 ^ 24 \<and> wf_value v"
| "wf_value (Structure items) \<longleftrightarrow> list_all wf_ttlv items"
| "wf_value (TextString s) \<longleftrightarrow> utf8_valid s"
| "wf_value _ \<longleftrightarrow> True"

lemma foldr_max_le: "foldr max (map f xs) 0 \<le> (n::nat) \<longleftrightarrow> (\<forall>x\<in>set xs. f x \<le> n)"
  by (induction xs) auto

lemma decode_header:
  assumes "tag < 2 ^ 24"
  shows "decode_item (Suc k) (put_tag tag @ type_byte ty # put_u32 len @ buf) =
    (if length buf < padded_length ty (unat len) then Inl (Error UnexpectedEof)
     else bind_res (decode_value (decode_item k) ty (unat len) buf) (\<lambda>(v, buf). Inr (Ttlv tag v, buf)))"
  using make_put_tag [OF assms] by (simp add: put_tag_def)

lemma unat_length_u32: "n < 2 ^ 32 \<Longrightarrow> unat (word_of_nat n :: u32) = n"
  by (simp add: unat_of_nat)

lemma encoded_size_pos: "8 \<le> encoded_size t"
  by (cases t) simp

lemma encode_item_not_Nil [simp]: "encode_item t \<noteq> []"
  using length_encode(1) [of t] encoded_size_pos [of t] by auto

lemma decode_items_concat:
  assumes "\<And>t r. t \<in> set ts \<Longrightarrow> item (encode_item t @ r) = Inr (t, r)"
    and "length ts \<le> fuel"
  shows "decode_items item fuel (concat (map encode_item ts)) = Inr ts"
  using assms
proof (induction ts arbitrary: fuel)
  case (Cons t ts)
  then obtain n where n: "fuel = Suc n" "length ts \<le> n" by (cases fuel) auto
  obtain b bs where b: "encode_item t @ concat (map encode_item ts) = b # bs"
    by (cases "encode_item t") auto
  have "decode_items item fuel (b # bs) =
      bind_res (item (b # bs)) (\<lambda>(t, rest). bind_res (decode_items item n rest) (\<lambda>ts. Inr (t # ts)))"
    by (simp add: n)
  also have "item (b # bs) = Inr (t, concat (map encode_item ts))"
    using Cons.prems(1) [of t "concat (map encode_item ts)"] b by simp
  finally show ?case
    using Cons.IH [OF Cons.prems(1) n(2)] b by simp
qed simp

lemma length_concat_encode: "length (concat (map encode_item ts)) = sum_list (map encoded_size ts)"
  by (simp add: length_concat comp_def length_encode)

lemma length_le_sum_encoded: "length ts \<le> sum_list (map encoded_size ts)"
proof (induction ts)
  case (Cons t ts)
  then show ?case using encoded_size_pos [of t] by simp
qed simp

lemma decode_encode_bytes:
  assumes "tag < 2 ^ 24" and "length s < 2 ^ 32"
  shows "decode_item (Suc k) (put_tag tag @ type_byte TBigInteger # put_u32 (word_of_nat (length s)) @ s @
      pad_to_8 (length s) @ r) = Inr (Ttlv tag (BigInteger s), r)"
    and "decode_item (Suc k) (put_tag tag @ type_byte TByteString # put_u32 (word_of_nat (length s)) @ s @
      pad_to_8 (length s) @ r) = Inr (Ttlv tag (ByteString s), r)"
    and "utf8_valid s \<Longrightarrow> decode_item (Suc k) (put_tag tag @ type_byte TTextString #
      put_u32 (word_of_nat (length s)) @ s @ pad_to_8 (length s) @ r) = Inr (Ttlv tag (TextString s), r)"
  using unat_length_u32 [OF assms(2)]
  by (simp_all only: decode_header [OF assms(1)])
    (simp_all add: padded_length_def decode_value_def padded_bytes_def)

lemma decode_encode_u32:
  assumes "tag < 2 ^ 24"
  shows "decode_item (Suc k) (put_tag tag @ type_byte TInteger # put_u32 4 @ put_u32 w @ put_u32 0 @ r) =
      Inr (Ttlv tag (Integer w), r)"
    and "decode_item (Suc k) (put_tag tag @ type_byte TEnumeration # put_u32 4 @ put_u32 w @ put_u32 0 @ r) =
      Inr (Ttlv tag (Enumeration w), r)"
    and "decode_item (Suc k) (put_tag tag @ type_byte TInterval # put_u32 4 @ put_u32 w @ put_u32 0 @ r) =
      Inr (Ttlv tag (Interval w), r)"
  by (simp_all only: decode_header [OF assms])
    (simp_all add: padded_length_def decode_value_def padded_u32_def)

lemma decode_encode_u64:
  assumes "tag < 2 ^ 24"
  shows "decode_item (Suc k) (put_tag tag @ type_byte TLongInteger # put_u32 8 @ put_u64 w @ r) =
      Inr (Ttlv tag (LongInteger w), r)"
    and "decode_item (Suc k) (put_tag tag @ type_byte TDateTime # put_u32 8 @ put_u64 w @ r) =
      Inr (Ttlv tag (DateTime w), r)"
    and "decode_item (Suc k) (put_tag tag @ type_byte TBoolean # put_u32 8 @ put_u64 w @ r) =
      Inr (Ttlv tag (Boolean (w \<noteq> 0)), r)"
  by (simp_all only: decode_header [OF assms])
    (simp_all add: padded_length_def decode_value_def)

lemma decode_encode_structure:
  assumes "tag < 2 ^ 24" and "sum_list (map encoded_size ts) < 2 ^ 32"
    and items: "\<And>t r. t \<in> set ts \<Longrightarrow> decode_item k (encode_item t @ r) = Inr (t, r)"
  shows "decode_item (Suc k) (encode_item (Ttlv tag (Structure ts)) @ r) = Inr (Ttlv tag (Structure ts), r)"
proof -
  let ?b = "concat (map encode_item ts)"
  have len: "length ?b = sum_list (map encoded_size ts)" by (rule length_concat_encode)
  then have u: "unat (word_of_nat (length ?b) :: u32) = length ?b"
    using assms(2) by (intro unat_length_u32) simp
  have enc: "encode_item (Ttlv tag (Structure ts)) @ r =
      put_tag tag @ type_byte TStructure # put_u32 (word_of_nat (length ?b)) @ ?b @ r"
    by (simp add: Let_def)
  have "decode_items (decode_item k) (length ?b) ?b = Inr ts"
    using items length_le_sum_encoded [of ts] len by (intro decode_items_concat) simp_all
  then show ?thesis
    unfolding enc decode_header [OF assms(1)] u by (simp add: padded_length_def decode_value_def)
qed

lemma size_member: "t \<in> set ts \<Longrightarrow> encoded_size t \<le> sum_list (map encoded_size ts)"
  by (simp add: member_le_sum_list)

lemma padded_len_less: "padded_len n < m \<Longrightarrow> n < m"
  by (simp add: padded_len_def)

lemma decode_encode:
  "wf_ttlv t \<Longrightarrow> ttlv_depth t \<le> k \<Longrightarrow> encoded_size t < 2 ^ 32 \<Longrightarrow>
     decode_item k (encode_item t @ r) = Inr (t, r)"
  "wf_value v \<Longrightarrow> value_depth v \<le> k \<Longrightarrow> value_size v < 2 ^ 32 \<Longrightarrow> tag < 2 ^ 24 \<Longrightarrow>
     decode_item (Suc k) (encode_item (Ttlv tag v) @ r) = Inr (Ttlv tag v, r)"
proof (induction t and v arbitrary: k r and k r tag rule: encode_item_encode_value.induct)
  case (1 tag v)
  then obtain n where "k = Suc n" by (cases k) auto
  with 1 show ?case by auto
next
  case (2 items)
  show ?case
  proof (rule decode_encode_structure)
    fix t r assume t: "t \<in> set items"
    then show "decode_item k (encode_item t @ r) = Inr (t, r)"
      using 2 size_member [OF t] by (intro "2.IH") (auto simp: list_all_iff foldr_max_le)
  qed (use 2 in simp_all)
qed (simp_all del: decode_item.simps type_byte.simps add: decode_encode_bytes decode_encode_u32 decode_encode_u64
    padded_len_less)

section \<open>What the decoder accepts\<close>

text \<open>
  A regular outcome of decoding at \<open>k\<close> levels: an error of the source, or an item that the format can
  carry together with the rest of the buffer, the consumed part having the item's encoded size.
\<close>

definition regular_item :: "nat \<Rightarrow> bytes \<Rightarrow> (ttlv_fail, ttlv \<times> bytes) res \<Rightarrow> bool" where
  "regular_item k buf res \<longleftrightarrow>
     (case res of Inl f \<Rightarrow> (\<exists>e. f = Error e)
      | Inr (t, r) \<Rightarrow> wf_ttlv t \<and> ttlv_depth t \<le> k \<and> (\<exists>c. buf = c @ r \<and> length c = encoded_size t))"

definition regular_value :: "nat \<Rightarrow> bytes \<Rightarrow> (ttlv_fail, ttlv_value \<times> bytes) res \<Rightarrow> bool" where
  "regular_value k buf res \<longleftrightarrow>
     (case res of Inl f \<Rightarrow> (\<exists>e. f = Error e)
      | Inr (v, r) \<Rightarrow> wf_value v \<and> value_depth v \<le> k \<and> (\<exists>c. buf = c @ r \<and> length c = value_size v))"

definition regular_list :: "nat \<Rightarrow> bytes \<Rightarrow> (ttlv_fail, ttlv list) res \<Rightarrow> bool" where
  "regular_list k buf res \<longleftrightarrow>
     (case res of Inl f \<Rightarrow> (\<exists>e. f = Error e)
      | Inr ts \<Rightarrow> wf_value (Structure ts) \<and> value_depth (Structure ts) \<le> k \<and>
          sum_list (map encoded_size ts) = length buf)"

lemma decode_items_regular:
  assumes item: "\<And>buf. regular_item k buf (item buf)" and "length buf \<le> fuel"
  shows "regular_list k buf (decode_items item fuel buf)"
  using assms(2)
proof (induction fuel arbitrary: buf)
  case 0
  then show ?case by (simp add: regular_list_def)
next
  case (Suc fuel)
  show ?case
  proof (cases buf)
    case (Cons b bs)
    show ?thesis
    proof (cases "item buf")
      case (Inl f)
      with item [of buf] Cons show ?thesis by (auto simp: regular_item_def regular_list_def)
    next
      case (Inr p)
      then obtain t r where p: "item buf = Inr (t, r)" by (cases p) simp
      then obtain c where c: "wf_ttlv t" "ttlv_depth t \<le> k" "buf = c @ r" "length c = encoded_size t"
        using item [of buf] by (auto simp: regular_item_def)
      then have "length r \<le> fuel" using Suc.prems encoded_size_pos [of t] by simp
      then have "regular_list k r (decode_items item fuel r)" by (rule Suc.IH)
      moreover have "decode_items item (Suc fuel) buf =
          bind_res (decode_items item fuel r) (\<lambda>ts. Inr (t # ts))"
        using p Cons by simp
      ultimately show ?thesis
        using c(1,2,4) by (cases "decode_items item fuel r") (auto simp: regular_list_def c(3))
    qed
  qed (simp add: regular_list_def)
qed

lemma regular_value_fixed: "8 \<le> length buf \<Longrightarrow> regular_value k buf (padded_u32 Integer buf)"
    "8 \<le> length buf \<Longrightarrow> regular_value k buf (padded_u32 Enumeration buf)"
    "8 \<le> length buf \<Longrightarrow> regular_value k buf (padded_u32 Interval buf)"
    "8 \<le> length buf \<Longrightarrow> regular_value k buf (bind_res (get_u64 buf) (\<lambda>(v, buf). Inr (LongInteger v, buf)))"
    "8 \<le> length buf \<Longrightarrow> regular_value k buf (bind_res (get_u64 buf) (\<lambda>(v, buf). Inr (DateTime v, buf)))"
    "8 \<le> length buf \<Longrightarrow> regular_value k buf (bind_res (get_u64 buf) (\<lambda>(v, buf). Inr (Boolean (v \<noteq> 0), buf)))"
  by (auto simp: regular_value_def padded_u32_def get_u32_def get_u64_def copy_to_bytes_def advance_def
      intro: exI [of _ "take 8 buf"])

lemma skip_padding_ok:
  "padding len \<le> length buf \<Longrightarrow> skip_padding buf len = Inr (drop (padding len) buf)"
  by (simp add: skip_padding_def advance_def)

lemma drop_padded: "\<exists>c. buf = c @ drop (p + len) buf \<and> length c = len + p" if "len + p \<le> length buf"
  using that by (intro exI [of _ "take (p + len) buf"]) (simp add: add.commute)

lemma regular_value_bytes:
  assumes "len + padding len \<le> length buf"
  shows "regular_value k buf (padded_bytes BigInteger len buf)"
    and "regular_value k buf (padded_bytes ByteString len buf)"
    and "regular_value k buf (bind_res (copy_to_bytes len buf) (\<lambda>(v, buf).
          if utf8_valid v then bind_res (skip_padding buf len) (\<lambda>buf. Inr (TextString v, buf))
          else Inl (Error InvalidUtf8)))"
  using assms drop_padded [OF assms]
  by (auto simp: regular_value_def padded_bytes_def copy_to_bytes_def skip_padding_ok padded_len_def)

lemma decode_value_regular:
  assumes "\<And>buf. regular_item k buf (item buf)" and "padded_length ty len \<le> length buf"
  shows "regular_value k buf (decode_value item ty len buf)"
proof (cases ty)
  case TStructure
  then have len: "len \<le> length buf" using assms(2) by (simp add: padded_length_def)
  have "regular_list k (take len buf) (decode_items item (length (take len buf)) (take len buf))"
    using assms(1) by (rule decode_items_regular) simp
  then show ?thesis
    using len TStructure
    by (cases "decode_items item (length (take len buf)) (take len buf)")
      (auto simp: decode_value_def copy_to_bytes_def regular_list_def regular_value_def
        intro: exI [of _ "take len buf"])
qed (use assms(2) in \<open>simp_all add: decode_value_def padded_length_def regular_value_fixed regular_value_bytes\<close>)

lemma make_tag_bound: "make_tag a b c < 2 ^ 24"
proof -
  have "take_bit 24 (make_tag a b c) = make_tag a b c"
    by (rule bit_word_eqI) (auto simp: make_tag_def bit_simps dest: bit_imp_le_length)
  then have "make_tag a b c = make_tag a b c mod 2 ^ 24" by (simp add: take_bit_eq_mod)
  also have "\<dots> < 2 ^ 24" by (rule word_mod_less_divisor) simp
  finally show ?thesis .
qed

lemma decode_item_regular: "regular_item k buf (decode_item k buf)"
proof (induction k arbitrary: buf)
  case (Suc k)
  show ?case
  proof (cases "length buf < 8")
    case False
    then obtain a b c ty r where buf: "buf = a # b # c # ty # r" "4 \<le> length r"
      by (cases buf; cases "tl buf"; cases "tl (tl buf)"; cases "tl (tl (tl buf))") auto
    define len :: u32 where "len = word_of_nat (be_value (take 4 r))"
    have get: "get_u32 r = Inr (len, drop 4 r)" using buf(2) by (simp add: get_u32_def copy_to_bytes_def len_def)
    show ?thesis
    proof (cases "type_try_from ty")
      case (Inl e)
      then show ?thesis by (simp add: buf regular_item_def)
    next
      case (Inr ty')
      show ?thesis
      proof (cases "length (drop 4 r) < padded_length ty' (unat len)")
        case True
        with Inr buf show ?thesis by (simp add: get regular_item_def)
      next
        case False
        then have "regular_value k (drop 4 r) (decode_value (decode_item k) ty' (unat len) (drop 4 r))"
          by (intro decode_value_regular Suc.IH) simp
        moreover have "decode_item (Suc k) buf = bind_res (decode_value (decode_item k) ty' (unat len) (drop 4 r))
            (\<lambda>(v, buf). Inr (Ttlv (make_tag a b c) v, buf))"
          using False Inr buf by (simp add: get)
        moreover have "\<exists>x. buf = x @ r' \<and> length x = 8 + n" if "drop 4 r = y @ r'" "length y = n" for y r' n
          using that buf append_take_drop_id [of 4 r]
          by (intro exI [of _ "a # b # c # ty # take 4 r @ y"]) simp
        ultimately show ?thesis
          by (auto simp: regular_item_def regular_value_def bind_res_def make_tag_bound [simplified] split: sum.splits)
      qed
    qed
  qed (simp add: regular_item_def)
qed (simp add: regular_item_def)

section \<open>The nesting limit\<close>

abbreviation too_deep :: ttlv_fail where
  "too_deep \<equiv> Error (InvalidEncoding ''TTLV nesting depth exceeds maximum of 64'')"

lemma decode_items_error:
  assumes "\<And>t r. t \<in> set pre \<Longrightarrow> item (encode_item t @ r) = Inr (t, r)"
    and "\<And>r. item (encode_item t @ r) = Inl e"
    and "length pre < fuel"
  shows "decode_items item fuel (concat (map encode_item (pre @ t # post))) = Inl e"
  using assms
proof (induction pre arbitrary: fuel)
  case Nil
  then obtain n where "fuel = Suc n" by (cases fuel) auto
  moreover obtain b bs where "encode_item t = b # bs" by (cases "encode_item t") auto
  ultimately show ?case using Nil(2) [of "concat (map encode_item post)"] by simp
next
  case (Cons p pre)
  then obtain n where n: "fuel = Suc n" "length pre < n" by (cases fuel) auto
  have rest: "decode_items item n (concat (map encode_item (pre @ t # post))) = Inl e"
    using Cons.prems(1,2) n(2) by (intro Cons.IH) simp_all
  moreover obtain b bs where "encode_item p = b # bs" by (cases "encode_item p") auto
  ultimately show ?case
    using Cons.prems(1) [of p "concat (map encode_item (pre @ t # post))"] n by simp
qed

lemma decode_too_deep:
  "wf_ttlv t \<Longrightarrow> encoded_size t < 2 ^ 32 \<Longrightarrow> k < ttlv_depth t \<Longrightarrow>
     decode_item k (encode_item t @ r) = Inl too_deep"
proof (induction k arbitrary: t r)
  case (Suc k)
  obtain tag v where t: "t = Ttlv tag v" by (cases t)
  with Suc.prems obtain ts where v: "v = Structure ts" and deep: "k < foldr max (map ttlv_depth ts) 0"
    by (cases v) auto
  let ?b = "concat (map encode_item ts)"
  have wf: "tag < 2 ^ 24" "\<And>x. x \<in> set ts \<Longrightarrow> wf_ttlv x" and size: "sum_list (map encoded_size ts) < 2 ^ 32"
    using Suc.prems t v by (auto simp: list_all_iff)
  have small: "encoded_size x < 2 ^ 32" if "x \<in> set ts" for x
    using size_member [OF that] size by simp
  have "\<exists>x\<in>set ts. k < ttlv_depth x"
    using deep foldr_max_le [of ttlv_depth ts k] by (auto simp: not_le)
  then obtain pre x post where split: "ts = pre @ x # post" "k < ttlv_depth x"
      "\<forall>y\<in>set pre. \<not> k < ttlv_depth y"
    by (elim split_list_first_propE)
  have u: "unat (word_of_nat (length ?b) :: u32) = length ?b"
    using size by (intro unat_length_u32) (simp add: length_concat_encode)
  have "length ts \<le> length ?b" by (simp add: length_concat_encode length_le_sum_encoded)
  then have "decode_items (decode_item k) (length ?b) (concat (map encode_item (pre @ x # post))) = Inl too_deep"
    using split wf(2) small by (intro decode_items_error decode_encode(1) Suc.IH) (auto simp: split(1))
  then have items: "decode_items (decode_item k) (length ?b) ?b = Inl too_deep" by (simp only: split(1))
  have enc: "encode_item t @ r = put_tag tag @ type_byte TStructure # put_u32 (word_of_nat (length ?b)) @ ?b @ r"
    by (simp add: t v Let_def)
  show ?case
    unfolding enc decode_header [OF wf(1)] u by (simp add: padded_length_def decode_value_def items)
qed simp

section \<open>Properties\<close>

text \<open>C13: Decoding what the encoder wrote gives the item back, whatever its shape, when its tags have
  three bytes, its texts are UTF-8, it nests at most 64 deep and it is shorter than 4 GiB.\<close>

theorem ttlv_round_trip:
  assumes "wf_ttlv t" and "ttlv_depth t \<le> MAX_TTLV_DEPTH" and "encoded_size t < 2 ^ 32"
  shows "decode (encode_item t) = Inr t"
  using decode_encode(1) [OF assms, of "[]"] by (simp add: decode_def)

definition sample_item :: ttlv where
  "sample_item = Ttlv 0x420078 (Structure [Ttlv 0x420069 (Structure [Ttlv 0x42006A (Integer 1)]),
     Ttlv 0x420094 (TextString [0xC3, 0xA9]), Ttlv 0x4200A2 (Boolean True)])"

theorem ttlv_round_trip_witness: "decode (encode_item sample_item) = Inr sample_item"
  by (rule ttlv_round_trip) (simp_all add: sample_item_def utf8_cont_def MAX_TTLV_DEPTH_def padded_len_def padding_def)

text \<open>C14: On any bytes the decoder returns without reading past the end of the buffer: it gives an error of
  the source, or an item with three-byte tags, UTF-8 texts and at most 64 levels whose encoding is no longer
  than the input.\<close>

theorem ttlv_decode_is_total:
  "case decode data of Inl f \<Rightarrow> \<exists>e. f = Error e
   | Inr t \<Rightarrow> wf_ttlv t \<and> ttlv_depth t \<le> MAX_TTLV_DEPTH \<and> length (encode_item t) \<le> length data"
  using decode_item_regular [of MAX_TTLV_DEPTH data]
  by (auto simp: decode_def regular_item_def bind_res_def length_encode split: sum.splits prod.splits)

text \<open>A well-formed message that nests deeper than 64 levels is refused with the error of the nesting
  limit, at any position of the deep part.\<close>

theorem ttlv_nesting_limit:
  assumes "wf_ttlv t" and "encoded_size t < 2 ^ 32" and "MAX_TTLV_DEPTH < ttlv_depth t"
  shows "decode (encode_item t) = Inl (Error (InvalidEncoding ''TTLV nesting depth exceeds maximum of 64''))"
  using decode_too_deep [OF assms, of "[]"] by (simp add: decode_def)

primrec nested_item :: "nat \<Rightarrow> ttlv" where
  "nested_item 0 = Ttlv 0x420078 (Structure [])"
| "nested_item (Suc n) = Ttlv 0x420078 (Structure [nested_item n])"

lemma nested_item_facts: "ttlv_depth (nested_item n) = Suc n" "wf_ttlv (nested_item n)"
    "encoded_size (nested_item n) = 8 * Suc n"
  by (induction n) simp_all

theorem ttlv_nesting_limit_witness:
  "decode (encode_item (nested_item 64)) =
     Inl (Error (InvalidEncoding ''TTLV nesting depth exceeds maximum of 64''))"
  by (rule ttlv_nesting_limit) (simp_all add: nested_item_facts MAX_TTLV_DEPTH_def)

text \<open>The length that a reader peeks at the start of a stream is exactly the length of the message at its
  front, when that is a structure.\<close>

theorem peek_is_message_length:
  assumes "encoded_size (Ttlv tag (Structure ts)) < 2 ^ 32"
  shows "peek_message_length (encode_item (Ttlv tag (Structure ts)) @ rest) =
    Some (length (encode_item (Ttlv tag (Structure ts))))"
proof -
  have "unat (word_of_nat (sum_list (map encoded_size ts)) :: u32) = sum_list (map encoded_size ts)"
    using assms by (intro unat_length_u32) simp
  moreover have "be_value (put_u32 w) = unat w" for w
    using unsigned_less [where ?'a = nat, of w] by (simp add: put_u32_def be_value_digits)
  ultimately show ?thesis
    by (simp add: peek_message_length_def put_tag_def Let_def length_concat_encode)
qed

theorem peek_is_message_length_witness:
  "peek_message_length (encode_item (Ttlv 0x420078 (Structure [Ttlv 0x42006A (Integer 1)])) @ [1, 2, 3]) =
    Some (length (encode_item (Ttlv 0x420078 (Structure [Ttlv 0x42006A (Integer 1)]))))"
  by (rule peek_is_message_length) simp

end
