(* ===== verification/Raft_Log.thy ===== *)
theory Raft_Log
  imports Sled_Store
begin

text \<open>
  The replicated log, \<^verbatim>\<open>crates/cluster/src/consensus/log.rs\<close>, with the commands of
  \<^verbatim>\<open>node.rs\<close> and the errors of \<^verbatim>\<open>error.rs\<close>. The optional persistent store is the \<^verbatim>\<open>sled\<close> parameter
  of \<open>Sled_Store\<close>, the JSON form of an entry is a parameter too. Indices and terms are
  64-bit words. The two \<^verbatim>\<open>while\<close> loops may run forever, so \<open>truncate_after\<close>, \<open>compact\<close> and what
  calls them return an option that is \<open>None\<close> exactly when the code does not return.
\<close>

section \<open>Data\<close>

datatype cluster_error =
    NotLeader "string option"
  | NoLeader
  | QuorumNotReached nat nat
  | NodeNotFound string
  | NodeAlreadyExists string
  | ReplicationFailed string
  | ConsensusTimeout u64
  | Storage string
  | Transport string
  | Encryption string
  | Configuration string
  | SplitBrain
  | DoubleSigningAttempt string
  | Internal string
  | Io string
  | Serialization string

datatype command =
    StoreKey string bytes
  | DeleteKey string
  | RecordSigningAttempt string bytes
  | CreateSession string bytes
  | DeleteSession string

record log_entry =
  le_index :: u64
  le_term :: u64
  le_command :: command
  le_timestamp :: "64 word"

record 'db raft_log =
  lg_entries :: "log_entry list"
  first_index :: u64
  last_applied :: u64
  commit_index :: u64
  lg_storage :: "'db option"

text \<open>\<^verbatim>\<open>serde_json::to_vec\<close> and \<^verbatim>\<open>from_slice\<close> on log entries.\<close>

record log_codec =
  entry_to_vec :: "log_entry \<Rightarrow> (string, bytes) res"
  entry_from_slice :: "bytes \<Rightarrow> (string, log_entry) res"

definition log_codec_laws :: "log_codec \<Rightarrow> bool" where
  "log_codec_laws C \<longleftrightarrow>
     (\<forall>e. \<exists>v. entry_to_vec C e = Inr v \<and> entry_from_slice C v = Inr e)"

definition default_tree :: string where
  "default_tree = ''__sled__default''"

definition log_key :: "u64 \<Rightarrow> bytes" where
  "log_key i = str_bytes (''log:'' @ show_nat (unat i))"

section \<open>Operations\<close>

definition raft_log_new :: "'db raft_log" where
  "raft_log_new = \<lparr>lg_entries = [], first_index = 1, last_applied = 0, commit_index = 0, lg_storage = None\<rparr>"

definition last_index :: "'db raft_log \<Rightarrow> u64" where
  "last_index l =
     (if lg_entries l = [] then (if first_index l = 0 then 0 else first_index l - 1)
      else first_index l + word_of_nat (length (lg_entries l)) - 1)"

definition last_term :: "'db raft_log \<Rightarrow> u64" where
  "last_term l = (if lg_entries l = [] then 0 else le_term (last (lg_entries l)))"

definition get_entry :: "'db raft_log \<Rightarrow> u64 \<Rightarrow> log_entry option" where
  "get_entry l index =
     (if index < first_index l then None
      else let offset = unat (index - first_index l)
           in if offset < length (lg_entries l) then Some (lg_entries l ! offset) else None)"

text \<open>The store part of the operations: nothing without a store.\<close>

definition persist_entry ::
  "'db sled \<Rightarrow> log_codec \<Rightarrow> 'db raft_log \<Rightarrow> log_entry \<Rightarrow> 'db raft_log \<times> (cluster_error, unit) res" where
  "persist_entry S C l e =
     (case lg_storage l of
        None \<Rightarrow> (l, Inr ())
      | Some db \<Rightarrow>
          (case entry_to_vec C e of
             Inl msg \<Rightarrow> (l, Inl (Serialization msg))
           | Inr v \<Rightarrow>
               let (db', r) = s_insert S db default_tree (log_key (le_index e)) v
               in (l\<lparr>lg_storage := Some db'\<rparr>, map_err Storage r)))"

definition flush_log :: "'db sled \<Rightarrow> 'db raft_log \<Rightarrow> 'db raft_log \<times> (cluster_error, unit) res" where
  "flush_log S l =
     (case lg_storage l of
        None \<Rightarrow> (l, Inr ())
      | Some db \<Rightarrow> let (db', r) = s_flush S db in (l\<lparr>lg_storage := Some db'\<rparr>, map_err Storage r))"

definition remove_stored ::
  "'db sled \<Rightarrow> 'db raft_log \<Rightarrow> log_entry \<Rightarrow> 'db raft_log \<times> (cluster_error, unit) res" where
  "remove_stored S l e =
     (case lg_storage l of
        None \<Rightarrow> (l, Inr ())
      | Some db \<Rightarrow>
          let (db', r) = s_remove S db default_tree (log_key (le_index e))
          in (l\<lparr>lg_storage := Some db'\<rparr>, map_err Storage r))"

definition push_back :: "'db raft_log \<Rightarrow> log_entry \<Rightarrow> 'db raft_log" where
  "push_back l e = l\<lparr>lg_entries := lg_entries l @ [e]\<rparr>"

definition append_log ::
  "'db sled \<Rightarrow> log_codec \<Rightarrow> 64 word \<Rightarrow> 'db raft_log \<Rightarrow> u64 \<Rightarrow> command \<Rightarrow> 'db raft_log \<times> (cluster_error, u64) res" where
  "append_log S C now l tm cmd =
     (let index = last_index l + 1;
          e = \<lparr>le_index = index, le_term = tm, le_command = cmd, le_timestamp = now\<rparr>
      in case persist_entry S C l e of
           (l1, Inl err) \<Rightarrow> (l1, Inl err)
         | (l1, Inr _) \<Rightarrow>
             (case flush_log S l1 of
                (l2, Inl err) \<Rightarrow> (l2, Inl err)
              | (l2, Inr _) \<Rightarrow> (push_back l2 e, Inr index)))"

partial_function (option) truncate_after ::
  "'db sled \<Rightarrow> 'db raft_log \<Rightarrow> u64 \<Rightarrow> ('db raft_log \<times> (cluster_error, unit) res) option" where
  "truncate_after S l index =
     (if last_index l > index then
        (case lg_entries l of
           [] \<Rightarrow> truncate_after S l index
         | _ # _ \<Rightarrow>
             (case remove_stored S (l\<lparr>lg_entries := butlast (lg_entries l)\<rparr>) (last (lg_entries l)) of
                (l1, Inl err) \<Rightarrow> Some (l1, Inl err)
              | (l1, Inr _) \<Rightarrow> truncate_after S l1 index))
      else Some (l, Inr ()))"

fun append_loop ::
  "'db sled \<Rightarrow> log_codec \<Rightarrow> 'db raft_log \<Rightarrow> log_entry list \<Rightarrow> ('db raft_log \<times> (cluster_error, bool) res) option" where
  "append_loop S C l [] =
     (case flush_log S l of (l1, Inl err) \<Rightarrow> Some (l1, Inl err) | (l1, Inr _) \<Rightarrow> Some (l1, Inr True))"
| "append_loop S C l (e # es) =
     (let push = (\<lambda>l. case persist_entry S C l e of
                        (l1, Inl err) \<Rightarrow> Some (l1, Inl err)
                      | (l1, Inr _) \<Rightarrow> append_loop S C (push_back l1 e) es)
      in if le_index e \<le> last_index l then
           (case get_entry l (le_index e) of
              None \<Rightarrow> push l
            | Some x \<Rightarrow>
                if le_term x = le_term e then append_loop S C l es
                else
                  (case truncate_after S l (le_index e) of
                     None \<Rightarrow> None
                   | Some (l1, Inl err) \<Rightarrow> Some (l1, Inl err)
                   | Some (l1, Inr _) \<Rightarrow> push l1))
         else push l)"

definition append_entries ::
  "'db sled \<Rightarrow> log_codec \<Rightarrow> 'db raft_log \<Rightarrow> u64 \<Rightarrow> u64 \<Rightarrow> log_entry list \<Rightarrow>
     ('db raft_log \<times> (cluster_error, bool) res) option" where
  "append_entries S C l prev_index prev_term es =
     (if prev_index > 0 then
        (case get_entry l prev_index of
           Some prev_entry \<Rightarrow>
             if le_term prev_entry \<noteq> prev_term then
               (case truncate_after S l prev_index of
                  None \<Rightarrow> None
                | Some (l1, Inl err) \<Rightarrow> Some (l1, Inl err)
                | Some (l1, Inr _) \<Rightarrow> Some (l1, Inr False))
             else append_loop S C l es
         | None \<Rightarrow> if prev_index \<ge> first_index l then Some (l, Inr False) else append_loop S C l es)
      else append_loop S C l es)"

definition commit :: "'db raft_log \<Rightarrow> u64 \<Rightarrow> 'db raft_log" where
  "commit l index = (if index > commit_index l then l\<lparr>commit_index := index\<rparr> else l)"

definition mark_applied :: "'db raft_log \<Rightarrow> u64 \<Rightarrow> 'db raft_log" where
  "mark_applied l index = (if index > last_applied l then l\<lparr>last_applied := index\<rparr> else l)"

text \<open>The inclusive ranges \<^verbatim>\<open>a..=b\<close> of the two loops.\<close>

definition u64_range :: "u64 \<Rightarrow> u64 \<Rightarrow> u64 list" where
  "u64_range a b = map word_of_nat [unat a..<Suc (unat b)]"

definition entries_to_apply :: "'db raft_log \<Rightarrow> log_entry list" where
  "entries_to_apply l = List.map_filter (get_entry l) (u64_range (last_applied l + 1) (commit_index l))"

definition entries_from :: "'db raft_log \<Rightarrow> u64 \<Rightarrow> log_entry list" where
  "entries_from l start_index = List.map_filter (get_entry l) (u64_range start_index (last_index l))"

partial_function (option) compact_loop ::
  "'db sled \<Rightarrow> 'db raft_log \<Rightarrow> u64 \<Rightarrow> ('db raft_log \<times> (cluster_error, unit) res) option" where
  "compact_loop S l index =
     (if first_index l \<le> index then
        (case lg_entries l of
           [] \<Rightarrow> compact_loop S (l\<lparr>first_index := first_index l + 1\<rparr>) index
         | e # es \<Rightarrow>
             (case remove_stored S (l\<lparr>lg_entries := es\<rparr>) e of
                (l1, Inl err) \<Rightarrow> Some (l1, Inl err)
              | (l1, Inr _) \<Rightarrow> compact_loop S (l1\<lparr>first_index := first_index l1 + 1\<rparr>) index))
      else Some (l, Inr ()))"

definition compact_log ::
  "'db sled \<Rightarrow> 'db raft_log \<Rightarrow> u64 \<Rightarrow> ('db raft_log \<times> (cluster_error, unit) res) option" where
  "compact_log S l index =
     (if index < first_index l then Some (l, Inr ())
      else case compact_loop S l index of
             None \<Rightarrow> None
           | Some (l1, Inl err) \<Rightarrow> Some (l1, Inl err)
           | Some (l1, Inr _) \<Rightarrow> Some (flush_log S l1))"

definition load_entry :: "log_codec \<Rightarrow> (string, bytes \<times> bytes) res \<Rightarrow> (cluster_error, log_entry) res" where
  "load_entry C item =
     bind_res (map_err Storage item) (\<lambda>(k, v). map_err Serialization (entry_from_slice C v))"

definition load_from_storage :: "'db sled \<Rightarrow> log_codec \<Rightarrow> 'db raft_log \<Rightarrow> (cluster_error, 'db raft_log) res" where
  "load_from_storage S C l =
     (case lg_storage l of
        None \<Rightarrow> Inr l
      | Some db \<Rightarrow>
          bind_res (map_res (load_entry C) (s_scan_prefix S db default_tree (str_bytes ''log:''))) (\<lambda>loaded.
          let vec = sort_key le_index (lg_entries l @ loaded)
          in Inr (l\<lparr>lg_entries := vec, first_index := (case vec of [] \<Rightarrow> first_index l | e # _ \<Rightarrow> le_index e)\<rparr>)))"

text \<open>\<^verbatim>\<open>sled::open\<close> has succeeded with \<open>db\<close>.\<close>

definition log_with_storage :: "'db sled \<Rightarrow> log_codec \<Rightarrow> 'db \<Rightarrow> (cluster_error, 'db raft_log) res" where
  "log_with_storage S C db = load_from_storage S C (raft_log_new\<lparr>lg_storage := Some db\<rparr>)"

section \<open>Well-formed logs\<close>

text \<open>The entry at position \<open>k\<close> has index \<open>first_index + k\<close>, indices start above zero and do not wrap.\<close>

definition log_ok :: "'db raft_log \<Rightarrow> bool" where
  "log_ok l \<longleftrightarrow> 0 < unat (first_index l) \<and> unat (first_index l) + length (lg_entries l) < 2 ^ 64 \<and>
     (\<forall>k < length (lg_entries l). unat (le_index (lg_entries l ! k)) = unat (first_index l) + k)"

lemma log_okD:
  assumes "log_ok l"
  shows "0 < unat (first_index l)" "unat (first_index l) + length (lg_entries l) < 2 ^ 64"
    "k < length (lg_entries l) \<Longrightarrow> unat (le_index (lg_entries l ! k)) = unat (first_index l) + k"
  using assms by (auto simp: log_ok_def)

lemma unat_word_of_nat_u64: "n < 2 ^ 64 \<Longrightarrow> unat (word_of_nat n :: u64) = n"
  by (simp add: unsigned_of_nat take_bit_eq_mod)

lemma unat_max_u64: "unat (- 1 :: u64) = 2 ^ 64 - 1"
  by (simp add: unsigned_minus_1_eq_mask mask_eq_exp_minus_1)

lemma unat_last_index:
  assumes "log_ok l"
  shows "unat (last_index l) = unat (first_index l) + length (lg_entries l) - 1"
proof (cases "lg_entries l = []")
  case True
  then show ?thesis using log_okD(1) [OF assms] by (auto simp: last_index_def unat_minus_one unat_gt_0)
next
  case False
  let ?n = "unat (first_index l) + length (lg_entries l)"
  have eq: "last_index l = word_of_nat (?n - 1)"
    using False log_okD(1) [OF assms] by (simp add: last_index_def)
  show ?thesis
    unfolding eq using log_okD(2) [OF assms] by (intro unat_word_of_nat_u64) simp
qed

lemma last_index_Suc:
  assumes "log_ok l"
  shows "unat (last_index l + 1) = unat (first_index l) + length (lg_entries l)"
proof -
  have "unat (last_index l) + 1 < 2 ^ 64"
    using unat_last_index [OF assms] log_okD(1,2) [OF assms] by linarith
  then have "unat (last_index l + 1) = unat (last_index l) + 1" by (simp add: unat_word_ariths)
  then show ?thesis using unat_last_index [OF assms] log_okD(1) [OF assms] by simp
qed

lemma get_entry_eq:
  assumes "log_ok l"
  shows "get_entry l i =
    (if unat (first_index l) \<le> unat i \<and> unat i < unat (first_index l) + length (lg_entries l)
     then Some (lg_entries l ! (unat i - unat (first_index l))) else None)"
proof (cases "i < first_index l")
  case True
  then show ?thesis by (simp add: get_entry_def word_less_nat_alt)
next
  case False
  then have "first_index l \<le> i" by simp
  then have "unat (i - first_index l) = unat i - unat (first_index l)"
    by (simp add: unat_sub)
  with False show ?thesis
    by (auto simp: get_entry_def Let_def word_less_nat_alt not_less)
qed

lemma log_ok_push:
  assumes "log_ok l" and "unat (first_index l) + length (lg_entries l) + 1 < 2 ^ 64"
    and "unat (le_index e) = unat (first_index l) + length (lg_entries l)"
  shows "log_ok (push_back l e)"
  using assms by (auto simp: log_ok_def push_back_def nth_append less_Suc_eq)

lemma log_ok_storage [simp]: "log_ok (l\<lparr>lg_storage := s\<rparr>) = log_ok l"
  by (simp add: log_ok_def)

lemma distinct_indices:
  assumes "log_ok l"
  shows "distinct (map le_index (lg_entries l))"
  unfolding distinct_conv_nth
proof (intro allI impI)
  fix i j assume "i < length (map le_index (lg_entries l))" "j < length (map le_index (lg_entries l))" "i \<noteq> j"
  then have "unat (le_index (lg_entries l ! i)) \<noteq> unat (le_index (lg_entries l ! j))"
    using log_okD(3) [OF assms, of i] log_okD(3) [OF assms, of j] by simp
  with \<open>i < _\<close> \<open>j < _\<close> show "map le_index (lg_entries l) ! i \<noteq> map le_index (lg_entries l) ! j" by auto
qed

lemma sorted_indices: "log_ok l \<Longrightarrow> sorted (map le_index (lg_entries l))"
  by (auto simp: sorted_iff_nth_mono word_le_nat_alt log_okD(3))

text \<open>An index names at most one entry, the one \<open>get_entry\<close> finds.\<close>

lemma get_entry_index: "log_ok l \<Longrightarrow> get_entry l i = Some e \<Longrightarrow> le_index e = i"
  by (auto simp: get_entry_eq word_unat_eq_iff log_okD(3) split: if_splits)

lemma get_entry_iff: "log_ok l \<Longrightarrow> get_entry l i = Some e \<longleftrightarrow> e \<in> set (lg_entries l) \<and> le_index e = i"
proof
  assume ok: "log_ok l" and "e \<in> set (lg_entries l) \<and> le_index e = i"
  then obtain k where k: "k < length (lg_entries l)" "e = lg_entries l ! k" "le_index e = i"
    by (auto simp: in_set_conv_nth)
  then have "unat i = unat (first_index l) + k" using log_okD(3) [OF ok, of k] by simp
  with k ok show "get_entry l i = Some e" by (simp add: get_entry_eq)
next
  assume "log_ok l" and get: "get_entry l i = Some e"
  moreover from this have "e \<in> set (lg_entries l)" by (auto simp: get_entry_eq split: if_splits)
  ultimately show "e \<in> set (lg_entries l) \<and> le_index e = i" by (simp add: get_entry_index)
qed

section \<open>The loops\<close>

lemma truncate_after_done: "last_index l \<le> index \<Longrightarrow> truncate_after S l index = Some (l, Inr ())"
  by (subst truncate_after.simps) (simp only: leD if_False)

lemma compact_loop_done: "index < first_index l \<Longrightarrow> compact_loop S l index = Some (l, Inr ())"
  by (subst compact_loop.simps) (simp only: if_not_P not_le)

lemma remove_stored_entries:
  assumes "remove_stored S l e = (l', r)"
  shows "lg_entries l' = lg_entries l" "first_index l' = first_index l"
    "last_applied l' = last_applied l" "commit_index l' = commit_index l"
  using assms by (auto simp: remove_stored_def Let_def split: option.splits prod.splits)

text \<open>The compaction loop returns unless the index is the largest one.\<close>

lemma compact_loop_returns:
  assumes "index \<noteq> - 1"
  shows "\<exists>r. compact_loop S l index = Some r"
  using assms
proof (induction "Suc (unat index) - unat (first_index l)" arbitrary: l rule: less_induct)
  case less
  show ?case
  proof (cases "index < first_index l")
    case True
    then show ?thesis by (simp add: compact_loop_done)
  next
    case False
    have "unat index \<noteq> unat (- 1 :: u64)" using less.prems by (simp add: word_unat_eq_iff)
    then have "unat index < 2 ^ 64 - 1"
      using unsigned_less [where ?'a = nat, of index] by (simp add: unat_max_u64)
    moreover have "unat (first_index l) \<le> unat index" using False by (simp add: word_less_nat_alt not_less)
    ultimately have step: "unat (first_index l + 1) = unat (first_index l) + 1"
      by (simp add: unat_word_ariths)
    have IH: "\<exists>r. compact_loop S (l'\<lparr>first_index := first_index l + 1\<rparr>) index = Some r" for l'
      using less.hyps [of "l'\<lparr>first_index := first_index l + 1\<rparr>"] less.prems step \<open>_ \<le> unat index\<close> by simp
    show ?thesis
    proof (cases "lg_entries l")
      case Nil
      then show ?thesis using False IH [of l] by (subst compact_loop.simps) simp
    next
      case (Cons e es)
      obtain l1 r where rm: "remove_stored S (l\<lparr>lg_entries := es\<rparr>) e = (l1, r)" by fastforce
      then have "first_index l1 = first_index l" using remove_stored_entries(2) by fastforce
      then show ?thesis
        using False IH [of l1] Cons rm by (subst compact_loop.simps) (simp split: sum.split)
    qed
  qed
qed

text \<open>The effect of the truncation loop when no call of the store fails.\<close>

definition cut_log :: "'db raft_log \<Rightarrow> nat \<Rightarrow> log_entry list" where
  "cut_log l n = take (Suc n - unat (first_index l)) (lg_entries l)"

lemma fault_free_remove_stored:
  assumes "fault_free S"
  obtains l' where "remove_stored S l e = (l', Inr ())"
proof (cases "lg_storage l")
  case None
  then show ?thesis using that by (simp add: remove_stored_def)
next
  case (Some db)
  moreover obtain db' r where "s_remove S db default_tree (log_key (le_index e)) = (db', r)" by fastforce
  moreover from this have "r = Inr ()" using assms unfolding fault_free_def by (metis snd_conv)
  ultimately show ?thesis using that by (simp add: remove_stored_def)
qed

lemma truncate_after_entries:
  assumes "fault_free S" and "log_ok l" and "unat (first_index l) \<le> Suc (unat index)"
  shows "\<exists>l'. truncate_after S l index = Some (l', Inr ()) \<and> lg_entries l' = cut_log l (unat index) \<and>
    first_index l' = first_index l \<and> last_applied l' = last_applied l \<and> commit_index l' = commit_index l"
  using assms
proof (induction "length (lg_entries l)" arbitrary: l rule: less_induct)
  case less
  show ?case
  proof (cases "last_index l \<le> index")
    case True
    then have "unat (first_index l) + length (lg_entries l) \<le> Suc (unat index)"
      using unat_last_index [OF less.prems(2)] log_okD(1) [OF less.prems(2)] by (simp add: word_le_nat_alt)
    with True show ?thesis by (simp add: truncate_after_done cut_log_def)
  next
    case False
    then have big: "Suc (unat index) < unat (first_index l) + length (lg_entries l)"
      using unat_last_index [OF less.prems(2)] log_okD(1) [OF less.prems(2)] by (simp add: word_le_nat_alt)
    with less.prems(3) have ne: "lg_entries l \<noteq> []" by auto
    obtain l1 where rm: "remove_stored S (l\<lparr>lg_entries := butlast (lg_entries l)\<rparr>) (last (lg_entries l)) =
        (l1, Inr ())"
      using fault_free_remove_stored [OF less.prems(1)] by blast
    note l1 = remove_stored_entries [OF rm, simplified]
    have step: "truncate_after S l index = truncate_after S l1 index"
    proof (cases "lg_entries l")
      case (Cons y ys)
      have "index < last_index l" using False by simp
      with Cons rm show ?thesis by (subst truncate_after.simps) (simp add: Cons)
    qed (use ne in simp)
    have "log_ok l1" using less.prems(2) l1 by (auto simp: log_ok_def nth_butlast)
    then obtain l' where "truncate_after S l1 index = Some (l', Inr ())" "lg_entries l' = cut_log l1 (unat index)"
        "first_index l' = first_index l1" "last_applied l' = last_applied l1" "commit_index l' = commit_index l1"
      using less.hyps [of l1] less.prems(1,3) l1 ne by (auto simp: length_butlast)
    moreover have "cut_log l1 (unat index) = cut_log l (unat index)"
      using big less.prems(3) l1 by (simp add: cut_log_def take_butlast)
    ultimately show ?thesis using step l1 by simp
  qed
qed

definition same_log :: "'db raft_log \<Rightarrow> 'db raft_log \<Rightarrow> bool" where
  "same_log l l' \<longleftrightarrow> lg_entries l' = lg_entries l \<and> first_index l' = first_index l \<and>
     last_applied l' = last_applied l \<and> commit_index l' = commit_index l"

lemma same_logD:
  assumes "same_log l l'"
  shows "lg_entries l' = lg_entries l" "first_index l' = first_index l" "log_ok l' = log_ok l"
    "last_index l' = last_index l" "get_entry l' = get_entry l"
  using assms by (auto simp: same_log_def log_ok_def last_index_def get_entry_def Let_def fun_eq_iff)

lemma fault_free_persist:
  assumes "fault_free S" and "log_codec_laws C"
  obtains l1 where "persist_entry S C l e = (l1, Inr ())" "same_log l l1"
proof (cases "lg_storage l")
  case None
  then show ?thesis using that by (simp add: persist_entry_def same_log_def)
next
  case (Some db)
  obtain v where v: "entry_to_vec C e = Inr v" using assms(2) by (auto simp: log_codec_laws_def)
  obtain db' r where ins: "s_insert S db default_tree (log_key (le_index e)) v = (db', r)" by fastforce
  then have "r = Inr ()" using assms(1) unfolding fault_free_def by (metis snd_conv)
  with Some v ins show ?thesis using that by (simp add: persist_entry_def same_log_def)
qed

lemma fault_free_flush_log:
  assumes "fault_free S"
  obtains l1 where "flush_log S l = (l1, Inr ())" "same_log l l1"
proof (cases "lg_storage l")
  case None
  then show ?thesis using that by (simp add: flush_log_def same_log_def)
next
  case (Some db)
  obtain db' r where fl: "s_flush S db = (db', r)" by fastforce
  then have "r = Inr ()" using assms(1) unfolding fault_free_def by (metis snd_conv)
  with Some fl show ?thesis using that by (simp add: flush_log_def same_log_def)
qed

text \<open>What replication requires of the entries of one request: consecutive indices.\<close>

definition consecutive :: "nat \<Rightarrow> log_entry list \<Rightarrow> bool" where
  "consecutive n es \<longleftrightarrow> (\<forall>k < length es. unat (le_index (es ! k)) = n + k)"

lemma consecutive_Cons:
  "consecutive n (e # es) \<longleftrightarrow> unat (le_index e) = n \<and> consecutive (Suc n) es"
  by (auto simp: consecutive_def nth_Cons less_Suc_eq_0_disj split: nat.splits)

lemma get_push_back:
  assumes "log_ok l" "unat (first_index l) + length (lg_entries l) + 1 < 2 ^ 64"
    "unat (le_index e) = unat (first_index l) + length (lg_entries l)"
  shows "get_entry (push_back l e) i = (if i = le_index e then Some e else get_entry l i)"
  unfolding get_entry_eq [OF log_ok_push [OF assms]] get_entry_eq [OF assms(1)]
  using assms(3) by (auto simp: push_back_def nth_append word_unat_eq_iff)

lemma append_loop_without_conflict:
  assumes "fault_free S" and "log_codec_laws C" and "log_ok l" and "consecutive n es"
    and "unat (first_index l) \<le> n" and "n \<le> unat (first_index l) + length (lg_entries l)"
    and "n + length es < 2 ^ 64"
    and "\<And>e x. e \<in> set es \<Longrightarrow> get_entry l (le_index e) = Some x \<Longrightarrow> le_term x = le_term e"
  shows "\<exists>l'. append_loop S C l es = Some (l', Inr True) \<and> log_ok l' \<and> first_index l' = first_index l \<and>
    (\<forall>e\<in>set es. \<exists>x. get_entry l' (le_index e) = Some x \<and> le_term x = le_term e) \<and>
    (\<forall>i x. get_entry l i = Some x \<longrightarrow> get_entry l' i = Some x)"
  using assms(3-)
proof (induction es arbitrary: l n)
  case Nil
  obtain l1 where "flush_log S l = (l1, Inr ())" "same_log l l1" by (rule fault_free_flush_log [OF assms(1)])
  with Nil show ?case by (auto simp: same_logD [OF \<open>same_log l l1\<close>])
next
  case (Cons e es)
  have n: "unat (le_index e) = n" "consecutive (Suc n) es" using Cons.prems(2) by (simp_all add: consecutive_Cons)
  show ?case
  proof (cases "get_entry l (le_index e)")
    case (Some x)
    have "le_term x = le_term e" using Cons.prems(6) [of e x] Some by simp
    moreover have lt: "n < unat (first_index l) + length (lg_entries l)"
      using Some n Cons.prems(1) by (auto simp: get_entry_eq split: if_splits)
    moreover have "le_index e \<le> last_index l"
      using lt n unat_last_index [OF Cons.prems(1)] by (simp add: word_le_nat_alt)
    ultimately have step: "append_loop S C l (e # es) = append_loop S C l es" using Some by simp
    have "\<exists>l'. append_loop S C l es = Some (l', Inr True) \<and> log_ok l' \<and> first_index l' = first_index l \<and>
        (\<forall>e\<in>set es. \<exists>x. get_entry l' (le_index e) = Some x \<and> le_term x = le_term e) \<and>
        (\<forall>i x. get_entry l i = Some x \<longrightarrow> get_entry l' i = Some x)"
    proof (rule Cons.IH [of l "Suc n"])
      show "le_term x = le_term e'" if "e' \<in> set es" "get_entry l (le_index e') = Some x" for e' x
        using Cons.prems(6) [of e' x] that by simp
    qed (use Cons.prems(1,3,5) n(2) lt in simp_all)
    with step Some \<open>le_term x = le_term e\<close> show ?thesis by auto
  next
    case None
    then have eq: "n = unat (first_index l) + length (lg_entries l)"
      using Cons.prems(1,3,4) n by (auto simp: get_entry_eq split: if_splits)
    obtain l1 where p: "persist_entry S C l e = (l1, Inr ())" "same_log l l1"
      by (rule fault_free_persist [OF assms(1,2)])
    let ?l2 = "push_back l1 e"
    have ok: "log_ok l1" "unat (first_index l1) + length (lg_entries l1) + 1 < 2 ^ 64"
        "unat (le_index e) = unat (first_index l1) + length (lg_entries l1)"
      using Cons.prems(1,5) eq n(1) by (simp_all add: same_logD [OF p(2)])
    have step: "append_loop S C l (e # es) = append_loop S C ?l2 es" using None p(1) by (simp add: Let_def)
    have "\<exists>l'. append_loop S C ?l2 es = Some (l', Inr True) \<and> log_ok l' \<and> first_index l' = first_index ?l2 \<and>
        (\<forall>e\<in>set es. \<exists>x. get_entry l' (le_index e) = Some x \<and> le_term x = le_term e) \<and>
        (\<forall>i x. get_entry ?l2 i = Some x \<longrightarrow> get_entry l' i = Some x)"
    proof (rule Cons.IH [of ?l2 "Suc n"])
      fix e' x assume e': "e' \<in> set es" "get_entry ?l2 (le_index e') = Some x"
      show "le_term x = le_term e'"
      proof (cases "le_index e' = le_index e")
        case True
        then show ?thesis using e'(1) n by (auto simp: consecutive_def in_set_conv_nth)
      next
        case False
        then show ?thesis using Cons.prems(6) [of e' x] e' by (simp add: get_push_back [OF ok] same_logD(5) [OF p(2)])
      qed
    qed (use ok n(2) eq Cons.prems(3,5) in
        \<open>simp_all add: log_ok_push, simp_all add: push_back_def same_logD [OF p(2)]\<close>)
    then obtain l' where l': "append_loop S C ?l2 es = Some (l', Inr True)" "log_ok l'"
        "first_index l' = first_index ?l2"
        "\<forall>e\<in>set es. \<exists>x. get_entry l' (le_index e) = Some x \<and> le_term x = le_term e"
        "\<forall>i x. get_entry ?l2 i = Some x \<longrightarrow> get_entry l' i = Some x"
      by (elim exE conjE) (rule that)
    have g: "get_entry ?l2 i = (if i = le_index e then Some e else get_entry l i)" for i
      by (simp add: get_push_back [OF ok] same_logD(5) [OF p(2)])
    have "first_index l' = first_index l" using l'(3) by (simp add: push_back_def same_logD [OF p(2)])
    moreover have "get_entry l' (le_index e) = Some e" using l'(5) g by simp
    moreover have "get_entry l i = Some x \<Longrightarrow> get_entry l' i = Some x" for i x
      using l'(5) g [of i] None by (cases "i = le_index e") auto
    ultimately show ?thesis unfolding step using l'(1,2,4) by auto
  qed
qed

end
