(* ===== verification/Raft_Node.thy ===== *)
theory Raft_Node
  imports Raft_Log "HOL-Library.AList"
begin

text \<open>
  A node of the cluster, \<^verbatim>\<open>crates/cluster/src\<close>: its configuration (\<^verbatim>\<open>config.rs\<close>), the consensus state
  (\<^verbatim>\<open>consensus/state.rs\<close>), the membership manager (\<^verbatim>\<open>membership/mod.rs\<close>) and the node itself
  (\<^verbatim>\<open>node.rs\<close>) with its vote handling and the replicated state machine. Hash maps are
  association lists, whose order stands for one iteration order. Timers and spawned tasks, which do
  nothing in the source, are left out; the clock is an argument.
\<close>

section \<open>Configuration\<close>

type_synonym node_id = string

record peer_config =
  pc_node_id :: node_id
  pc_addr :: string
  pc_voting :: bool

record raft_config =
  election_timeout_min_ms :: u64
  election_timeout_max_ms :: u64
  heartbeat_interval_ms :: u64
  snapshot_threshold :: u64
  max_entries_per_append :: u64
  pre_vote :: bool
  leader_lease_ms :: u64

record replication_config =
  max_lag_ms :: u64
  sync_writes :: bool
  rp_batch_size :: nat
  retry_interval_ms :: u64
  max_retries :: u32

record transport_config =
  tls_enabled :: bool
  tls_cert_path :: "string option"
  tls_key_path :: "string option"
  tls_ca_path :: "string option"
  encrypt_sensitive :: bool

record cluster_config =
  cc_node_id :: node_id
  cc_bind_addr :: string
  cc_peers :: "peer_config list"
  cc_raft :: raft_config
  cc_replication :: replication_config
  cc_transport :: transport_config

definition raft_config_default :: raft_config where
  "raft_config_default = \<lparr>election_timeout_min_ms = 150, election_timeout_max_ms = 300, heartbeat_interval_ms = 50,
     snapshot_threshold = 10000, max_entries_per_append = 100, pre_vote = True, leader_lease_ms = 100\<rparr>"

definition replication_config_default :: replication_config where
  "replication_config_default = \<lparr>max_lag_ms = 100, sync_writes = True, rp_batch_size = 100, retry_interval_ms = 50,
     max_retries = 3\<rparr>"

definition transport_config_default :: transport_config where
  "transport_config_default = \<lparr>tls_enabled = True, tls_cert_path = None, tls_key_path = None, tls_ca_path = None,
     encrypt_sensitive = True\<rparr>"

definition cluster_config_default :: cluster_config where
  "cluster_config_default = \<lparr>cc_node_id = ''node-1'', cc_bind_addr = ''0.0.0.0:7000'', cc_peers = [],
     cc_raft = raft_config_default, cc_replication = replication_config_default,
     cc_transport = transport_config_default\<rparr>"

section \<open>Consensus state\<close>

record 'db raft_state =
  rs_log :: "'db raft_log"
  rs_current_term :: u64
  rs_voted_for :: "string option"

definition raft_state_new :: "'db raft_state" where
  "raft_state_new = \<lparr>rs_log = raft_log_new, rs_current_term = 0, rs_voted_for = None\<rparr>"

definition update_term :: "'db raft_state \<Rightarrow> u64 \<Rightarrow> 'db raft_state" where
  "update_term s tm = (if tm > rs_current_term s then s\<lparr>rs_current_term := tm, rs_voted_for := None\<rparr> else s)"

definition vote_for :: "'db raft_state \<Rightarrow> string \<Rightarrow> 'db raft_state" where
  "vote_for s candidate_id = s\<lparr>rs_voted_for := Some candidate_id\<rparr>"

definition append_entry ::
  "'db sled \<Rightarrow> log_codec \<Rightarrow> 64 word \<Rightarrow> 'db raft_state \<Rightarrow> command \<Rightarrow> 'db raft_state \<times> (cluster_error, u64) res" where
  "append_entry S C now s cmd =
     (let (l, r) = append_log S C now (rs_log s) (rs_current_term s) cmd in (s\<lparr>rs_log := l\<rparr>, r))"

section \<open>Membership\<close>

datatype peer_health = Healthy | Unhealthy | Unknown

record peer_state =
  ps_config :: peer_config
  ps_health :: peer_health
  ps_last_heartbeat :: "int option"
  ps_failed_heartbeats :: u32
  ps_match_index :: u64
  ps_next_index :: u64

definition peer_state_new :: "peer_config \<Rightarrow> peer_state" where
  "peer_state_new cfg = \<lparr>ps_config = cfg, ps_health = Unknown, ps_last_heartbeat = None,
     ps_failed_heartbeats = 0, ps_match_index = 0, ps_next_index = 1\<rparr>"

definition peer_record_heartbeat :: "int \<Rightarrow> peer_state \<Rightarrow> peer_state" where
  "peer_record_heartbeat now p = p\<lparr>ps_last_heartbeat := Some now, ps_failed_heartbeats := 0, ps_health := Healthy\<rparr>"

definition peer_record_failure :: "u32 \<Rightarrow> peer_state \<Rightarrow> peer_state" where
  "peer_record_failure threshold p =
     (let p' = p\<lparr>ps_failed_heartbeats := ps_failed_heartbeats p + 1\<rparr>
      in if ps_failed_heartbeats p' \<ge> threshold then p'\<lparr>ps_health := Unhealthy\<rparr> else p')"

record membership =
  mm_config :: cluster_config
  mm_peers :: "(node_id \<times> peer_state) list"
  connected_count :: u32
  mm_running :: bool

definition membership_new :: "cluster_config \<Rightarrow> membership" where
  "membership_new cfg = \<lparr>mm_config = cfg,
     mm_peers = foldl (\<lambda>m p. AList.update (pc_node_id p) (peer_state_new p) m) [] (cc_peers cfg),
     connected_count = 0, mm_running = False\<rparr>"

definition failure_threshold :: "membership \<Rightarrow> u32" where
  "failure_threshold m =
     (let heartbeat = max (heartbeat_interval_ms (cc_raft (mm_config m))) 1;
          election = election_timeout_max_ms (cc_raft (mm_config m))
      in max (ucast (election div heartbeat)) 1)"

definition get_peer :: "membership \<Rightarrow> node_id \<Rightarrow> peer_state option" where
  "get_peer m nid = map_of (mm_peers m) nid"

definition update_peer :: "membership \<Rightarrow> node_id \<Rightarrow> (peer_state \<Rightarrow> peer_state) \<Rightarrow> membership" where
  "update_peer m nid f =
     (case map_of (mm_peers m) nid of
        None \<Rightarrow> m
      | Some p \<Rightarrow> m\<lparr>mm_peers := AList.update nid (f p) (mm_peers m)\<rparr>)"

definition count_peers :: "(peer_state \<Rightarrow> bool) \<Rightarrow> membership \<Rightarrow> nat" where
  "count_peers P m = length (filter (\<lambda>(_, p). P p) (mm_peers m))"

definition update_connected_count :: "membership \<Rightarrow> membership" where
  "update_connected_count m = m\<lparr>connected_count := word_of_nat (count_peers (\<lambda>p. ps_health p = Healthy) m)\<rparr>"

definition record_heartbeat :: "int \<Rightarrow> membership \<Rightarrow> node_id \<Rightarrow> membership" where
  "record_heartbeat now m nid = update_connected_count (update_peer m nid (peer_record_heartbeat now))"

definition record_failure :: "membership \<Rightarrow> node_id \<Rightarrow> membership" where
  "record_failure m nid = update_connected_count (update_peer m nid (peer_record_failure (failure_threshold m)))"

definition voting_peers :: "membership \<Rightarrow> node_id list" where
  "voting_peers m = map fst (filter (\<lambda>(_, p). pc_voting (ps_config p)) (mm_peers m))"

definition healthy_peers :: "membership \<Rightarrow> node_id list" where
  "healthy_peers m = map fst (filter (\<lambda>(_, p). ps_health p = Healthy) (mm_peers m))"

definition has_quorum :: "membership \<Rightarrow> bool" where
  "has_quorum m =
     (let voting_count = count_peers (\<lambda>p. pc_voting (ps_config p)) m;
          healthy_voting = count_peers (\<lambda>p. pc_voting (ps_config p) \<and> ps_health p = Healthy) m;
          quorum_size = (voting_count + 1) div 2 + 1
      in healthy_voting + 1 \<ge> quorum_size)"

definition add_peer :: "membership \<Rightarrow> peer_config \<Rightarrow> membership \<times> (cluster_error, unit) res" where
  "add_peer m cfg =
     (if map_of (mm_peers m) (pc_node_id cfg) \<noteq> None then (m, Inl (NodeAlreadyExists (pc_node_id cfg)))
      else (m\<lparr>mm_peers := AList.update (pc_node_id cfg) (peer_state_new cfg) (mm_peers m)\<rparr>, Inr ()))"

definition remove_peer :: "membership \<Rightarrow> node_id \<Rightarrow> membership \<times> (cluster_error, unit) res" where
  "remove_peer m nid =
     (if map_of (mm_peers m) nid = None then (m, Inl (NodeNotFound nid))
      else (update_connected_count (m\<lparr>mm_peers := AList.delete nid (mm_peers m)\<rparr>), Inr ()))"

section \<open>Node\<close>

datatype cluster_state = Starting | Follower | Candidate | Leader | Partitioned | ShuttingDown

datatype command_result = Success | Failed string

record state_machine =
  sm_keys :: "(string \<times> bytes) list"
  sm_sessions :: "(string \<times> bytes) list"
  signing_records :: "(string \<times> bytes list) list"

record 'db cluster_node =
  cn_config :: cluster_config
  cn_state :: cluster_state
  cn_raft_state :: "'db raft_state"
  cn_membership :: membership
  cn_current_term :: u64
  cn_voted_for :: "node_id option"
  cn_leader_id :: "node_id option"
  cn_state_machine :: state_machine

definition cluster_node_new :: "cluster_config \<Rightarrow> 'db cluster_node" where
  "cluster_node_new cfg = \<lparr>cn_config = cfg, cn_state = Starting, cn_raft_state = raft_state_new,
     cn_membership = membership_new cfg, cn_current_term = 0, cn_voted_for = None, cn_leader_id = None,
     cn_state_machine = \<lparr>sm_keys = [], sm_sessions = [], signing_records = []\<rparr>\<rparr>"

definition is_leader :: "'db cluster_node \<Rightarrow> bool" where
  "is_leader n \<longleftrightarrow> cn_state n = Leader"

definition start_node :: "'db cluster_node \<Rightarrow> 'db cluster_node" where
  "start_node n = n\<lparr>cn_state := Follower, cn_membership := (cn_membership n)\<lparr>mm_running := True\<rparr>\<rparr>"

definition stop_node :: "'db cluster_node \<Rightarrow> 'db cluster_node" where
  "stop_node n = n\<lparr>cn_state := ShuttingDown, cn_membership := (cn_membership n)\<lparr>mm_running := False\<rparr>\<rparr>"

definition is_double_signing :: "state_machine \<Rightarrow> string \<Rightarrow> bytes \<Rightarrow> bool" where
  "is_double_signing sm key_id message_hash =
     (case map_of (signing_records sm) key_id of None \<Rightarrow> False | Some hashes \<Rightarrow> list_ex (\<lambda>h. h = message_hash) hashes)"

fun apply_command :: "state_machine \<Rightarrow> command \<Rightarrow> state_machine \<times> (cluster_error, command_result) res" where
  "apply_command sm (StoreKey key_id data) = (sm\<lparr>sm_keys := AList.update key_id data (sm_keys sm)\<rparr>, Inr Success)"
| "apply_command sm (DeleteKey key_id) = (sm\<lparr>sm_keys := AList.delete key_id (sm_keys sm)\<rparr>, Inr Success)"
| "apply_command sm (RecordSigningAttempt key_id message_hash) =
     (if is_double_signing sm key_id message_hash then (sm, Inl (DoubleSigningAttempt key_id))
      else (sm\<lparr>signing_records := AList.update key_id
              ((case map_of (signing_records sm) key_id of None \<Rightarrow> [] | Some hs \<Rightarrow> hs) @ [message_hash])
              (signing_records sm)\<rparr>, Inr Success))"
| "apply_command sm (CreateSession session_id data) =
     (sm\<lparr>sm_sessions := AList.update session_id data (sm_sessions sm)\<rparr>, Inr Success)"
| "apply_command sm (DeleteSession session_id) =
     (sm\<lparr>sm_sessions := AList.delete session_id (sm_sessions sm)\<rparr>, Inr Success)"

definition quorum_size :: "cluster_config \<Rightarrow> nat" where
  "quorum_size cfg = (length (cc_peers cfg) + 1) div 2 + 1"

text \<open>\<^verbatim>\<open>replicate_entry\<close> of the source answers \<^verbatim>\<open>Ok(true)\<close> without a call to any follower.\<close>

definition replicate_entry :: "'db cluster_node \<Rightarrow> u64 \<Rightarrow> (cluster_error, bool) res" where
  "replicate_entry n index = Inr True"

definition propose ::
  "'db sled \<Rightarrow> log_codec \<Rightarrow> 64 word \<Rightarrow> 'db cluster_node \<Rightarrow> command \<Rightarrow>
     'db cluster_node \<times> (cluster_error, command_result) res" where
  "propose S C now n cmd =
     (if \<not> is_leader n then (n, Inl (NotLeader (cn_leader_id n)))
      else case append_entry S C now (cn_raft_state n) cmd of
        (rs, Inl err) \<Rightarrow> (n\<lparr>cn_raft_state := rs\<rparr>, Inl err)
      | (rs, Inr index) \<Rightarrow>
          let n1 = n\<lparr>cn_raft_state := rs\<rparr>
          in case replicate_entry n1 index of
               Inl err \<Rightarrow> (n1, Inl err)
             | Inr replicated \<Rightarrow>
                 if \<not> replicated then (n1, Inl (QuorumNotReached (quorum_size (cn_config n)) 1))
                 else let (sm, r) = apply_command (cn_state_machine n1) cmd
                      in (n1\<lparr>cn_state_machine := sm\<rparr>, r))"

definition handle_request_vote :: "'db cluster_node \<Rightarrow> u64 \<Rightarrow> node_id \<Rightarrow> u64 \<Rightarrow> u64 \<Rightarrow> 'db cluster_node \<times> bool" where
  "handle_request_vote n tm candidate_id last_log_index last_log_term =
     (if tm < cn_current_term n then (n, False)
      else
        let n1 = (if tm > cn_current_term n
                  then n\<lparr>cn_current_term := tm, cn_voted_for := None, cn_leader_id := None\<rparr> else n)
        in case cn_voted_for n1 of
             Some existing \<Rightarrow> (n1, existing = candidate_id)
           | None \<Rightarrow> (n1\<lparr>cn_voted_for := Some candidate_id\<rparr>, True))"

record cluster_health =
  ch_state :: cluster_state
  ch_has_leader :: bool
  ch_is_healthy :: bool
  ch_connected_peers :: nat
  ch_total_peers :: nat
  ch_leader_id :: "node_id option"

definition health_status :: "'db cluster_node \<Rightarrow> cluster_health" where
  "health_status n = \<lparr>ch_state = cn_state n, ch_has_leader = (cn_leader_id n \<noteq> None),
     ch_is_healthy = ((cn_state n = Follower \<or> cn_state n = Leader) \<and> cn_leader_id n \<noteq> None),
     ch_connected_peers = unat (connected_count (cn_membership n)),
     ch_total_peers = length (cc_peers (cn_config n)), ch_leader_id = cn_leader_id n\<rparr>"

end
