(* ===== verification/Raft_Properties.thy ===== *)
theory Raft_Properties
  imports Raft_Log
begin

text \<open>
  Properties of the replicated log: what replication without a conflict achieves, what happens on a
  conflict, that compaction returns and drops exactly the entries up to its index, and that a log
  reopened after a crash has the entries it had.
\<close>

section \<open>Compaction\<close>

lemma log_ok_tl:
  assumes "log_ok l" and "lg_entries l = e # es" and "lg_entries l' = es"
    and "first_index l' = first_index l + 1"
  shows "log_ok l'" and "unat (first_index l + 1) = Suc (unat (first_index l))"
proof -
  have "unat (first_index l) + 1 < 2 ^ 64" using log_okD(2) [OF assms(1)] assms(2) by simp
  then show u: "unat (first_index l + 1) = Suc (unat (first_index l))" by (simp add: unat_word_ariths)
  have "unat (le_index (es ! k)) = Suc (unat (first_index l)) + k" if "k < length es" for k
    using log_okD(3) [OF assms(1), of "Suc k"] assms(2) that by simp
  then show "log_ok l'" using u assms(3,4) log_okD(2) [OF assms(1)] assms(2) by (simp add: log_ok_def)
qed

definition drop_log :: "'db raft_log \<Rightarrow> u64 \<Rightarrow> log_entry list" where
  "drop_log l index = drop (Suc (unat index) - unat (first_index l)) (lg_entries l)"

lemma compact_loop_entries:
  assumes "fault_free S" and "index \<noteq> - 1" and "log_ok l"
  shows "\<exists>l'. compact_loop S l index = Some (l', Inr ()) \<and> lg_entries l' = drop_log l index \<and>
    log_ok l' \<and> first_index l' = (if index < first_index l then first_index l else index + 1) \<and>
    last_applied l' = last_applied l \<and> commit_index l' = commit_index l"
  using assms(3)
proof (induction "Suc (unat index) - unat (first_index l)" arbitrary: l rule: less_induct)
  case less
  show ?case
  proof (cases "index < first_index l")
    case True
    with less.prems show ?thesis by (simp add: compact_loop_done drop_log_def word_less_nat_alt)
  next
    case False
    then have le: "unat (first_index l) \<le> unat index" by (simp add: word_less_nat_alt not_less)
    have "unat index \<noteq> unat (- 1 :: u64)" using assms(2) by (simp add: word_unat_eq_iff)
    then have max: "unat index < 2 ^ 64 - 1"
      using unsigned_less [where ?'a = nat, of index] by (simp add: unat_max_u64)
    with le have fi: "unat (first_index l + 1) = Suc (unat (first_index l))"
      by (simp add: unat_word_ariths)
    have next_iff: "index < first_index l + 1 \<longleftrightarrow> index = first_index l"
      using le fi by (auto simp: word_less_nat_alt word_unat_eq_iff)
    obtain l1 where l1: "compact_loop S l index = compact_loop S l1 index" "lg_entries l1 = tl (lg_entries l)"
        "first_index l1 = first_index l + 1" "last_applied l1 = last_applied l" "commit_index l1 = commit_index l"
    proof (cases "lg_entries l")
      case Nil
      have "first_index l \<le> index" using False by simp
      with Nil show ?thesis
        by (intro that [of "l\<lparr>first_index := first_index l + 1\<rparr>"]) (subst compact_loop.simps, simp_all)
    next
      case (Cons e es)
      obtain l2 where rm: "remove_stored S (l\<lparr>lg_entries := es\<rparr>) e = (l2, Inr ())"
        using fault_free_remove_stored [OF assms(1)] by blast
      note l2 = remove_stored_entries [OF rm, simplified]
      show ?thesis
      proof (rule that [of "l2\<lparr>first_index := first_index l2 + 1\<rparr>"])
        show "compact_loop S l index = compact_loop S (l2\<lparr>first_index := first_index l2 + 1\<rparr>) index"
          using leI [OF False] Cons rm by (subst compact_loop.simps) simp
      qed (simp_all add: l2 Cons)
    qed
    have ok: "log_ok l1"
    proof (cases "lg_entries l")
      case Nil
      then show ?thesis using l1(2,3) fi max le by (simp add: log_ok_def)
    next
      case (Cons e es)
      then show ?thesis using log_ok_tl(1) [OF less.prems Cons] l1 by simp
    qed
    have "drop_log l1 index = drop_log l index"
      using l1(2,3) le fi by (simp add: drop_log_def drop_Suc Suc_diff_le)
    then show ?thesis
      using less.hyps [of l1] ok le fi l1 next_iff False by auto
  qed
qed

text \<open>Compaction up to any index but the largest one returns, keeps the log well-formed, and removes exactly
  the entries up to that index: every later entry is still found under its index.\<close>

theorem compaction_keeps_later_entries:
  assumes "fault_free S" and "index \<noteq> - 1" and "log_ok l"
  shows "\<exists>l'. compact_log S l index = Some (l', Inr ()) \<and> log_ok l' \<and>
    (\<forall>i. get_entry l' i = (if i \<le> index then None else get_entry l i))"
proof (cases "index < first_index l")
  case True
  then have "get_entry l i = None" if "i \<le> index" for i
    using that by (simp add: get_entry_def order.strict_trans1)
  with True assms(3) show ?thesis by (auto simp: compact_log_def)
next
  case False
  obtain l1 where l1: "compact_loop S l index = Some (l1, Inr ())" "lg_entries l1 = drop_log l index" "log_ok l1"
      "first_index l1 = index + 1"
    using compact_loop_entries [OF assms] False by auto
  obtain l2 where l2: "flush_log S l1 = (l2, Inr ())" "same_log l1 l2" by (rule fault_free_flush_log [OF assms(1)])
  have "unat index \<noteq> unat (- 1 :: u64)" using assms(2) by (simp add: word_unat_eq_iff)
  then have fi: "unat (index + 1) = Suc (unat index)"
    using unsigned_less [where ?'a = nat, of index] by (simp add: unat_max_u64 unat_word_ariths)
  have le: "unat (first_index l) \<le> unat index" using False by (simp add: word_less_nat_alt not_less)
  have "get_entry l1 i = (if i \<le> index then None else get_entry l i)" for i
    unfolding get_entry_eq [OF l1(3)] get_entry_eq [OF assms(3)]
    using fi le by (auto simp: l1(2,4) drop_log_def word_le_nat_alt)
  then show ?thesis
    using l1 l2 False by (auto simp: compact_log_def same_logD [OF l2(2)])
qed

section \<open>A JSON form of the entries\<close>

text \<open>One concrete codec that satisfies the laws, to evaluate the model: fixed-width numbers, a tag for the
  command, an identifier in which each character follows a one and that a zero ends, then the data.\<close>

definition put_text :: "string \<Rightarrow> bytes" where
  "put_text s = concat (map (\<lambda>c. [1, word_of_nat (of_char c)]) s) @ [0]"

fun get_text :: "bytes \<Rightarrow> (string \<times> bytes) option" where
  "get_text (m # r) =
     (if m = 0 then Some ([], r)
      else (case r of b # r' \<Rightarrow> map_option (\<lambda>(s, q). (char_of (unat b) # s, q)) (get_text r') | [] \<Rightarrow> None))"
| "get_text [] = None"

lemma get_put_text: "get_text (put_text s @ r) = Some (s, r)"
  by (induction s) (simp_all add: put_text_def unat_byte_of_nat)

fun put_command :: "command \<Rightarrow> bytes" where
  "put_command (StoreKey k d) = 1 # put_text k @ d"
| "put_command (DeleteKey k) = 2 # put_text k"
| "put_command (RecordSigningAttempt k h) = 3 # put_text k @ h"
| "put_command (CreateSession s d) = 4 # put_text s @ d"
| "put_command (DeleteSession s) = 5 # put_text s"

definition get_command :: "bytes \<Rightarrow> command option" where
  "get_command bs =
     (case bs of [] \<Rightarrow> None
      | t # r \<Rightarrow> map_option (\<lambda>(s, d).
          if t = 1 then StoreKey s d else if t = 2 then DeleteKey s else if t = 3 then RecordSigningAttempt s d
          else if t = 4 then CreateSession s d else DeleteSession s) (get_text r))"

lemma get_put_command: "get_command (put_command c) = Some c"
  using get_put_text [of _ "[]"] by (cases c) (simp_all add: get_command_def get_put_text)

definition sample_log_codec :: log_codec where
  "sample_log_codec = \<lparr>
     entry_to_vec = (\<lambda>e. Inr (to_be_bytes (le_index e) @ to_be_bytes (le_term e) @ to_be_bytes (le_timestamp e) @
        put_command (le_command e))),
     entry_from_slice = (\<lambda>bs. case get_command (drop 24 bs) of
        None \<Rightarrow> Inl ''invalid entry''
      | Some c \<Rightarrow> Inr \<lparr>le_index = from_be_bytes (take 8 bs), le_term = from_be_bytes (take 8 (drop 8 bs)),
          le_command = c, le_timestamp = from_be_bytes (take 8 (drop 16 bs))\<rparr>) \<rparr>"

lemma sample_log_codec_laws: "log_codec_laws sample_log_codec"
proof -
  have "drop 24 (to_be_bytes a @ to_be_bytes b @ to_be_bytes c @ x) = x" for a b c x
    using drop_drop [of 16 8] by simp
  moreover have "take 8 (drop 16 (to_be_bytes a @ to_be_bytes b @ to_be_bytes c @ x)) = to_be_bytes c" for a b c x
    by simp
  ultimately show ?thesis
    by (simp add: log_codec_laws_def sample_log_codec_def get_put_command)
qed

section \<open>Replication\<close>

text \<open>When no entry of the follower conflicts with the request, append_entries succeeds, keeps the log
  well-formed and every entry it had, and afterwards has an entry of the right term at each index of the request.\<close>

theorem replication_without_conflict:
  assumes "fault_free S" and "log_codec_laws C" and "log_ok l"
    and "consecutive (Suc (unat prev_index)) es"
    and "get_entry l prev_index = Some prev" and "le_term prev = prev_term"
    and "Suc (unat prev_index) + length es < 2 ^ 64"
    and "\<forall>e\<in>set es. \<forall>x. get_entry l (le_index e) = Some x \<longrightarrow> le_term x = le_term e"
  shows "\<exists>l'. append_entries S C l prev_index prev_term es = Some (l', Inr True) \<and> log_ok l' \<and>
    (\<forall>e\<in>set es. \<exists>x. get_entry l' (le_index e) = Some x \<and> le_term x = le_term e) \<and>
    (\<forall>i x. get_entry l i = Some x \<longrightarrow> get_entry l' i = Some x)"
proof -
  have b: "unat (first_index l) \<le> unat prev_index" "unat prev_index < unat (first_index l) + length (lg_entries l)"
    using assms(3,5) by (auto simp: get_entry_eq split: if_splits)
  then have "prev_index > 0" using log_okD(1) [OF assms(3)] by (simp add: word_less_nat_alt)
  then have "append_entries S C l prev_index prev_term es = append_loop S C l es"
    using assms(5,6) by (simp add: append_entries_def)
  moreover have "\<exists>l'. append_loop S C l es = Some (l', Inr True) \<and> log_ok l' \<and> first_index l' = first_index l \<and>
    (\<forall>e\<in>set es. \<exists>x. get_entry l' (le_index e) = Some x \<and> le_term x = le_term e) \<and>
    (\<forall>i x. get_entry l i = Some x \<longrightarrow> get_entry l' i = Some x)"
    using assms(8) b by (intro append_loop_without_conflict [OF assms(1-4) _ _ assms(7)]) simp_all
  ultimately show ?thesis by auto
qed

text \<open>When the follower has an entry of another term at the index of a replicated entry, append_entries
  answers success and still has its own conflicting entry at that index.\<close>

theorem conflicting_entry_is_kept:
  assumes "fault_free S" and "log_codec_laws C" and "log_ok l"
    and "get_entry l (le_index e) = Some x" and "le_term x \<noteq> le_term e"
    and "prev_index = 0 \<or> (\<exists>prev. get_entry l prev_index = Some prev \<and> le_term prev = prev_term)"
  shows "\<exists>l'. append_entries S C l prev_index prev_term [e] = Some (l', Inr True) \<and>
    get_entry l' (le_index e) = Some x"
proof -
  have b: "unat (first_index l) \<le> unat (le_index e)" "unat (le_index e) < unat (first_index l) + length (lg_entries l)"
      "x = lg_entries l ! (unat (le_index e) - unat (first_index l))"
    using assms(3,4) by (auto simp: get_entry_eq split: if_splits)
  have le: "le_index e \<le> last_index l" using b(2) unat_last_index [OF assms(3)] by (simp add: word_le_nat_alt)
  obtain l1 where l1: "truncate_after S l (le_index e) = Some (l1, Inr ())"
      "lg_entries l1 = cut_log l (unat (le_index e))" "first_index l1 = first_index l"
    using truncate_after_entries [OF assms(1,3), of "le_index e"] b(1) by auto
  obtain l2 where l2: "persist_entry S C l1 e = (l2, Inr ())" "same_log l1 l2"
    by (rule fault_free_persist [OF assms(1,2)])
  obtain l3 where l3: "flush_log S (push_back l2 e) = (l3, Inr ())" "same_log (push_back l2 e) l3"
    by (rule fault_free_flush_log [OF assms(1)])
  have "append_entries S C l prev_index prev_term [e] = append_loop S C l [e]"
    using assms(6) by (auto simp: append_entries_def)
  also have "\<dots> = Some (l3, Inr True)"
    using le assms(4,5) l1(1) l2(1) l3(1) by simp
  finally have "append_entries S C l prev_index prev_term [e] = Some (l3, Inr True)" .
  moreover have "get_entry l3 (le_index e) = Some x"
  proof -
    let ?k = "unat (le_index e) - unat (first_index l)"
    have e3: "lg_entries l3 = cut_log l (unat (le_index e)) @ [e]" "first_index l3 = first_index l"
      using l1 by (simp_all add: same_logD [OF l3(2)] push_back_def same_logD [OF l2(2)])
    have "unat (le_index e - first_index l) = ?k" using b(1) by (simp add: unat_sub word_le_nat_alt)
    moreover have "?k < length (cut_log l (unat (le_index e)))" "cut_log l (unat (le_index e)) ! ?k = x"
      using b by (auto simp: cut_log_def)
    moreover have "\<not> le_index e < first_index l" using b(1) by (simp add: word_less_nat_alt)
    ultimately show ?thesis by (simp add: get_entry_def e3 nth_append)
  qed
  ultimately show ?thesis by blast
qed

section \<open>The log on disk\<close>

abbreviation log_prefix :: bytes where
  "log_prefix \<equiv> str_bytes ''log:''"

text \<open>A tree of the store holds exactly the given entries under the keys of the log.\<close>

definition holds_log :: "log_codec \<Rightarrow> (bytes \<Rightarrow> bytes option) \<Rightarrow> log_entry list \<Rightarrow> bool" where
  "holds_log C m es \<longleftrightarrow> (\<forall>k v. prefix log_prefix k \<longrightarrow>
     (m k = Some v \<longleftrightarrow> (\<exists>e\<in>set es. k = log_key (le_index e) \<and> entry_to_vec C e = Inr v)))"

lemma show_nat_inject:
  assumes "show_nat m = show_nat n"
  shows "m = n"
proof -
  let ?w = "max m n"
  have "m < 2 ^ ?w" "n < 2 ^ ?w"
    using less_exp [of ?w] by linarith+
  then have "parse_digits ?w 0 (show_nat m) = Some m" "parse_digits ?w 0 (show_nat n) = Some n"
    by (simp_all only: parse_digits_show)
  then have "Some m = Some n" unfolding assms by (rule trans [OF sym])
  then show ?thesis by (rule option.inject [THEN iffD1])
qed

lemma log_key_inject [simp]: "log_key i = log_key j \<longleftrightarrow> i = j"
  by (auto simp: log_key_def word_unat_eq_iff dest: show_nat_inject)

lemma prefix_log_key [simp]: "prefix log_prefix (log_key i)"
  unfolding log_key_def str_bytes_append by (rule prefixI) (rule refl)

lemma holds_log_add:
  assumes "holds_log C m es" and "entry_to_vec C e = Inr v" and "le_index e \<notin> le_index ` set es"
  shows "holds_log C (m(log_key (le_index e) \<mapsto> v)) (es @ [e])"
  unfolding holds_log_def
proof (intro allI impI)
  fix k w assume k: "prefix log_prefix k"
  have old: "m k = Some w \<longleftrightarrow> (\<exists>e\<in>set es. k = log_key (le_index e) \<and> entry_to_vec C e = Inr w)"
    using assms(1) k by (auto simp: holds_log_def)
  show "(m(log_key (le_index e) \<mapsto> v)) k = Some w \<longleftrightarrow>
      (\<exists>x\<in>set (es @ [e]). k = log_key (le_index x) \<and> entry_to_vec C x = Inr w)"
  proof (cases "k = log_key (le_index e)")
    case True
    then show ?thesis using assms(2,3) by auto
  next
    case False
    then show ?thesis using old by simp
  qed
qed

lemma holds_log_remove:
  assumes "holds_log C m (e # es)" and "le_index e \<notin> le_index ` set es"
  shows "holds_log C (m(log_key (le_index e) := None)) es"
  unfolding holds_log_def
proof (intro allI impI)
  fix k w assume k: "prefix log_prefix k"
  have old: "m k = Some w \<longleftrightarrow> (\<exists>x\<in>set (e # es). k = log_key (le_index x) \<and> entry_to_vec C x = Inr w)"
    using assms(1) k by (auto simp: holds_log_def)
  show "(m(log_key (le_index e) := None)) k = Some w \<longleftrightarrow>
      (\<exists>x\<in>set es. k = log_key (le_index x) \<and> entry_to_vec C x = Inr w)"
  proof (cases "k = log_key (le_index e)")
    case True
    then show ?thesis using assms(2) by auto
  next
    case False
    then show ?thesis using old by simp
  qed
qed

text \<open>The invariant of a log with a store: both what a reader sees and what survives a crash are its entries.\<close>

definition log_persisted ::
  "('db \<Rightarrow> content) \<Rightarrow> ('db \<Rightarrow> content) \<Rightarrow> log_codec \<Rightarrow> 'db raft_log \<Rightarrow> bool" where
  "log_persisted V D C l \<longleftrightarrow> log_ok l \<and> (\<exists>db. lg_storage l = Some db \<and>
     holds_log C (V db default_tree) (lg_entries l) \<and> holds_log C (D db default_tree) (lg_entries l))"

lemma append_log_persisted:
  assumes laws: "sled_laws S V D" and ff: "fault_free S" and codec: "log_codec_laws C"
    and inv: "log_persisted V D C l" and room: "unat (first_index l) + length (lg_entries l) + 1 < 2 ^ 64"
    and app: "append_log S C now l tm cmd = (l', r)"
  shows "log_persisted V D C l'" and "r = Inr (last_index l + 1)"
proof -
  let ?e = "\<lparr>le_index = last_index l + 1, le_term = tm, le_command = cmd, le_timestamp = now\<rparr>"
  obtain db where db: "lg_storage l = Some db" and ok: "log_ok l"
    and held: "holds_log C (V db default_tree) (lg_entries l)"
    using inv by (auto simp: log_persisted_def)
  obtain v where v: "entry_to_vec C ?e = Inr v" using codec by (auto simp: log_codec_laws_def)
  obtain db1 u1 where ins: "s_insert S db default_tree (log_key (last_index l + 1)) v = (db1, u1)" by fastforce
  then have "u1 = Inr ()" using ff unfolding fault_free_def by (metis snd_conv)
  with ins have ins: "s_insert S db default_tree (log_key (last_index l + 1)) v = (db1, Inr ())" by simp
  obtain db2 u2 where fl: "s_flush S db1 = (db2, u2)" by fastforce
  then have "u2 = Inr ()" using ff unfolding fault_free_def by (metis snd_conv)
  with fl have fl: "s_flush S db1 = (db2, Inr ())" by simp
  have l': "l' = push_back (l\<lparr>lg_storage := Some db2\<rparr>) ?e" "r = Inr (last_index l + 1)"
    using app db v ins fl by (simp_all add: append_log_def persist_entry_def flush_log_def Let_def)
  have below: "unat (le_index x) < unat (last_index l + 1)" if "x \<in> set (lg_entries l)" for x
    using that log_okD(3) [OF ok] last_index_Suc [OF ok] by (auto simp: in_set_conv_nth)
  have "le_index ?e \<notin> le_index ` set (lg_entries l)"
  proof
    assume "le_index ?e \<in> le_index ` set (lg_entries l)"
    then obtain x where "x \<in> set (lg_entries l)" "le_index x = last_index l + 1" by auto
    with below [of x] show False by simp
  qed
  then have "holds_log C (V db1 default_tree) (lg_entries l @ [?e])"
    using holds_log_add [OF held v] insert_ok_view [OF laws ins] by simp
  then have "holds_log C (V db2 default_tree) (lg_entries l')" "holds_log C (D db2 default_tree) (lg_entries l')"
    using sled_flush_view [OF laws fl] sled_flush_ok [OF laws fl] l' by (simp_all add: push_back_def)
  moreover have "log_ok l'"
    unfolding l'(1) using ok room last_index_Suc [OF ok] by (intro log_ok_push) simp_all
  ultimately show "log_persisted V D C l'" using l' by (auto simp: log_persisted_def push_back_def)
  show "r = Inr (last_index l + 1)" by (rule l'(2))
qed

lemma remove_stored_holds:
  assumes "remove_laws S V" and "lg_storage l = Some db" and "holds_log C (V db default_tree) (e # es)"
    and "le_index e \<notin> le_index ` set es" and "remove_stored S l e = (l', Inr u)"
  shows "\<exists>db'. lg_storage l' = Some db' \<and> holds_log C (V db' default_tree) es"
proof -
  obtain db' r where rm: "s_remove S db default_tree (log_key (le_index e)) = (db', r)" by fastforce
  with assms(2,5) have l': "l' = l\<lparr>lg_storage := Some db'\<rparr>" "r = Inr ()"
    by (auto simp: remove_stored_def)
  with rm assms(1) have "V db' = (V db)(default_tree := (V db default_tree)(log_key (le_index e) := None))"
    by (auto simp: remove_laws_def)
  with holds_log_remove [OF assms(3,4)] l' show ?thesis by simp
qed

lemmas compact_loop_induct = compact_loop.raw_induct [rotated, consumes 1, case_names loop]

lemma compact_loop_holds:
  assumes "compact_loop S l index = Some res" and "remove_laws S V" and "lg_storage l = Some db"
    and "holds_log C (V db default_tree) (lg_entries l)" and "distinct (map le_index (lg_entries l))"
    and "snd res = Inr ()"
  shows "\<exists>db'. lg_storage (fst res) = Some db' \<and> holds_log C (V db' default_tree) (lg_entries (fst res))"
  using assms
proof (induction arbitrary: db rule: compact_loop_induct)
  case (loop loop S l index res)
  note prems = loop.prems and step = loop.hyps
  note IH = loop.IH [OF _ prems(1)]
  show ?case
  proof (cases "first_index l \<le> index")
    case False
    with step have "res = (l, Inr ())" by simp
    with prems show ?thesis by simp
  next
    case True
    show ?thesis
    proof (cases "lg_entries l")
      case Nil
      with True step have "loop S (l\<lparr>first_index := first_index l + 1\<rparr>) index = Some res" by simp
      from IH [OF this _ _ _ prems(5)] show ?thesis using prems by simp
    next
      case (Cons e es)
      obtain l1 r where rm: "remove_stored S (l\<lparr>lg_entries := es\<rparr>) e = (l1, r)" by fastforce
      have "r = Inr ()"
        using True Cons step rm prems(5) by (cases r) auto
      with rm have rm: "remove_stored S (l\<lparr>lg_entries := es\<rparr>) e = (l1, Inr ())" by simp
      obtain db1 where db1: "lg_storage l1 = Some db1" "holds_log C (V db1 default_tree) es"
        using remove_stored_holds [OF prems(1) _ _ _ rm, where db = db and C = C and es = es] prems(2-4) Cons by auto
      have "loop S (l1\<lparr>first_index := first_index l1 + 1\<rparr>) index = Some res"
        using True Cons step rm by simp
      from IH [OF this _ _ _ prems(5)] show ?thesis
        using db1 remove_stored_entries(1) [OF rm] prems(4) Cons by simp
    qed
  qed
qed

text \<open>At the largest index the loop does not return.\<close>

lemma compact_loop_diverges:
  assumes "compact_loop S l index = Some res" and "fault_free S"
  shows "index \<noteq> - 1"
  using assms
proof (induction rule: compact_loop_induct)
  case (loop loop S l index res)
  show ?case
  proof (cases "first_index l \<le> index")
    case True
    show ?thesis
    proof (cases "lg_entries l")
      case (Cons e es)
      obtain l1 where "remove_stored S (l\<lparr>lg_entries := es\<rparr>) e = (l1, Inr ())"
        using fault_free_remove_stored [OF loop.prems] by blast
      with True Cons loop.hyps show ?thesis by (intro loop.IH [OF _ loop.prems]) simp
    qed (use True loop.hyps in \<open>simp add: loop.IH [OF _ loop.prems]\<close>)
  next
    case False
    then show ?thesis by auto
  qed
qed

lemma compact_log_persisted:
  assumes laws: "sled_laws S V D" and ff: "fault_free S" and rm: "remove_laws S V"
    and inv: "log_persisted V D C l" and comp: "compact_log S l index = Some (l', r)"
  shows "log_persisted V D C l'"
proof (cases "index < first_index l")
  case True
  with comp inv show ?thesis by (simp add: compact_log_def)
next
  case False
  obtain db where db: "lg_storage l = Some db" and ok: "log_ok l"
    and held: "holds_log C (V db default_tree) (lg_entries l)"
    using inv by (auto simp: log_persisted_def)
  have "\<exists>res. compact_loop S l index = Some res"
    using comp False by (cases "compact_loop S l index") (simp_all add: compact_log_def)
  then have nmax: "index \<noteq> - 1" using compact_loop_diverges [OF _ ff] by auto
  obtain l1 where l1: "compact_loop S l index = Some (l1, Inr ())" "log_ok l1"
    using compact_loop_entries [OF ff nmax ok] by auto
  obtain db1 where db1: "lg_storage l1 = Some db1" "holds_log C (V db1 default_tree) (lg_entries l1)"
    using compact_loop_holds [OF l1(1) rm db held distinct_indices [OF ok]] by auto
  obtain db2 u where fl: "s_flush S db1 = (db2, u)" by fastforce
  then have "u = Inr ()" using ff unfolding fault_free_def by (metis snd_conv)
  with fl have fl: "s_flush S db1 = (db2, Inr ())" by simp
  have "l' = l1\<lparr>lg_storage := Some db2\<rparr>"
    using comp False l1(1) db1(1) fl by (simp add: compact_log_def flush_log_def)
  then show ?thesis
    using l1(2) db1 sled_flush_view [OF laws fl] sled_flush_ok [OF laws fl] by (simp add: log_persisted_def)
qed

section \<open>Restart\<close>

lemma load_holds:
  assumes laws: "sled_laws S V D" "remove_laws S V" and ff: "fault_free S" and codec: "log_codec_laws C"
    and held: "holds_log C (V db default_tree) es" and inj: "distinct (map le_index es)"
  shows "\<exists>ys. map_res (load_entry C) (s_scan_prefix S db default_tree log_prefix) = Inr ys \<and>
    set ys = set es \<and> distinct (map le_index ys)"
proof -
  let ?xs = "s_scan_prefix S db default_tree log_prefix"
  define kv where "kv e = (log_key (le_index e), projr (entry_to_vec C e))" for e
  have vec: "entry_to_vec C e = Inr (projr (entry_to_vec C e))" "entry_from_slice C (projr (entry_to_vec C e)) = Inr e"
    for e using codec unfolding log_codec_laws_def by (metis sum.sel(2))+
  have all: "\<forall>x\<in>set ?xs. \<exists>p. x = Inr p" using ff by (auto simp: fault_free_def)
  then have "set ?xs = Inr ` {(k, v). V db default_tree k = Some v \<and> prefix log_prefix k}"
    using laws(1) by (simp add: sled_laws_def read_laws_def)
  also have "{(k, v). V db default_tree k = Some v \<and> prefix log_prefix k} = kv ` set es"
    using held vec(1) by (fastforce simp: holds_log_def kv_def image_iff)
  finally have xs: "set ?xs = (Inr \<circ> kv) ` set es" by (simp add: image_comp)
  define un where "un x = projr (load_entry C x)" for x
  have load: "load_entry C ((Inr \<circ> kv) e) = Inr e" for e
    using vec by (simp add: load_entry_def kv_def)
  then have un: "un ((Inr \<circ> kv) e) = e" for e by (simp add: un_def)
  have "list_all2 (\<lambda>x y. load_entry C x = Inr y) ?xs (map un ?xs)"
    using xs load un by (auto simp: list_all2_conv_all_nth list_all2_map2 dest!: nth_mem)
  then have "map_res (load_entry C) ?xs = Inr (map un ?xs)" by (simp add: map_res_Inr_iff)
  moreover have set: "set (map un ?xs) = set es" using xs un by (force simp: image_comp)
  moreover have "distinct (map le_index (map un ?xs))"
  proof -
    have "distinct ?xs" using laws(2) by (simp add: remove_laws_def)
    moreover have "inj_on un (set ?xs)" using xs un by (auto simp: inj_on_def)
    ultimately have "distinct (map un ?xs)" by (simp add: distinct_map)
    moreover have "inj_on le_index (set (map un ?xs))" unfolding set using inj by (simp add: distinct_map)
    ultimately show ?thesis by (simp only: distinct_map)
  qed
  ultimately show ?thesis by blast
qed

lemma reload_log:
  assumes laws: "sled_laws S V D" "remove_laws S V" and ff: "fault_free S" and codec: "log_codec_laws C"
    and held: "holds_log C (V db default_tree) (lg_entries l)" and ok: "log_ok l"
  shows "\<exists>l'. log_with_storage S C db = Inr l' \<and> lg_storage l' = Some db \<and> lg_entries l' = lg_entries l \<and>
    first_index l' = (if lg_entries l = [] then 1 else first_index l)"
proof -
  obtain ys where ys: "map_res (load_entry C) (s_scan_prefix S db default_tree log_prefix) = Inr ys"
      "set ys = set (lg_entries l)" "distinct (map le_index ys)"
    using load_holds [OF laws ff codec held distinct_indices [OF ok]] by blast
  have "sort_key le_index ys = lg_entries l"
  proof (rule map_sorted_distinct_set_unique [where f = le_index])
    show "inj_on le_index (set (sort_key le_index ys) \<union> set (lg_entries l))"
      using distinct_indices [OF ok] ys(2) by (simp add: distinct_map)
    show "distinct (map le_index (sort_key le_index ys))"
      using ys(3) by (simp add: distinct_map)
  qed (use ok ys(2) in \<open>simp_all add: sorted_indices distinct_indices\<close>)
  moreover have "le_index e = first_index l" if "lg_entries l = e # es" for e es
    using log_okD(3) [OF ok, of 0] that by (simp add: word_unat_eq_iff)
  ultimately show ?thesis
    using ys(1) by (cases "lg_entries l")
      (simp_all add: log_with_storage_def load_from_storage_def raft_log_new_def)
qed

text \<open>The life of a log with a store: it is opened on an empty store, appended to, compacted, and reopened on
  what a crash left.\<close>

inductive log_life ::
  "'db sled \<Rightarrow> log_codec \<Rightarrow> ('db \<Rightarrow> content) \<Rightarrow> ('db \<Rightarrow> content) \<Rightarrow> 'db raft_log \<Rightarrow> bool"
  for S C V D where
  opened: "log_life S C V D l"
    if "log_with_storage S C db = Inr l" "\<forall>k. V db default_tree k = None" "\<forall>k. D db default_tree k = None"
| appended: "log_life S C V D l'"
    if "log_life S C V D l" "append_log S C now l tm cmd = (l', r)"
      "unat (first_index l) + length (lg_entries l) + 1 < 2 ^ 64"
| compacted: "log_life S C V D l'"
    if "log_life S C V D l" "compact_log S l index = Some (l', r)"
| restarted: "log_life S C V D l'"
    if "log_life S C V D l" "lg_storage l = Some db" "recovered V D db db'" "log_with_storage S C db' = Inr l'"

lemma restart_log:
  assumes "sled_laws S V D" "remove_laws S V" "fault_free S" "log_codec_laws C"
    and "log_persisted V D C l" "lg_storage l = Some db" "recovered V D db db'"
  shows "\<exists>l'. log_with_storage S C db' = Inr l' \<and> lg_storage l' = Some db' \<and> lg_entries l' = lg_entries l \<and>
    first_index l' = (if lg_entries l = [] then 1 else first_index l) \<and> log_persisted V D C l'"
proof -
  have ok: "log_ok l" and held: "holds_log C (D db default_tree) (lg_entries l)"
    using assms(5,6) by (auto simp: log_persisted_def)
  have v: "V db' = D db" "D db' = D db" using assms(7) by (simp_all add: recovered_def)
  have "holds_log C (V db' default_tree) (lg_entries l)" using held v by simp
  from reload_log [OF assms(1-4) this ok]
  obtain l' where l': "log_with_storage S C db' = Inr l'" "lg_storage l' = Some db'" "lg_entries l' = lg_entries l"
      "first_index l' = (if lg_entries l = [] then 1 else first_index l)"
    by (elim exE conjE) (rule that)
  moreover from l' ok have "log_ok l'" by (simp add: log_ok_def)
  ultimately show ?thesis using held v by (simp add: log_persisted_def)
qed

lemma log_life_persisted:
  assumes "log_life S C V D l" and "sled_laws S V D" "remove_laws S V" "fault_free S" "log_codec_laws C"
  shows "log_persisted V D C l"
  using assms(1)
proof induction
  case (opened db l)
  let ?e = "raft_log_new :: 'a raft_log"
  have "holds_log C (V db default_tree) (lg_entries ?e)" "holds_log C (D db default_tree) (lg_entries ?e)" "log_ok ?e"
    using opened(2,3) by (simp_all add: holds_log_def raft_log_new_def log_ok_def)
  with reload_log [OF assms(2-5), of db ?e] opened(1) show ?case
    by (auto simp: log_persisted_def raft_log_new_def log_ok_def)
next
  case (appended l now tm cmd l' r)
  then show ?case using append_log_persisted(1) [OF assms(2,4,5)] by blast
next
  case (compacted l index l' r)
  then show ?case using compact_log_persisted [OF assms(2,4,3)] by blast
next
  case (restarted l db db' l')
  then show ?case using restart_log [OF assms(2-5)] by fastforce
qed


text \<open>A log that was compacted completely starts numbering at one again when it is reopened, while before the
  restart it would have continued: the same indices are given out a second time.\<close>

theorem full_compaction_forgets_the_index:
  assumes "sled_laws S V D" "remove_laws S V" "fault_free S" "log_codec_laws C"
    and "log_life S C V D l" and "lg_entries l = []" and "unat (first_index l) + 1 < 2 ^ 64"
    and "lg_storage l = Some db" and "recovered V D db db'" and "log_with_storage S C db' = Inr l'"
  shows "snd (append_log S C now l tm cmd) = Inr (first_index l) \<and> snd (append_log S C now l' tm cmd) = Inr 1"
proof -
  have inv: "log_persisted V D C l" by (rule log_life_persisted [OF assms(5,1-4)])
  then have ok: "log_ok l" by (simp add: log_persisted_def)
  have l': "first_index l' = 1" "lg_entries l' = []" "log_persisted V D C l'"
    using restart_log [OF assms(1-4) inv assms(8,9)] assms(6,10) by auto
  have "snd (append_log S C now l tm cmd) = Inr (last_index l + 1)"
    using append_log_persisted(2) [OF assms(1,3,4) inv _ surjective_pairing] assms(6,7) by simp
  moreover have "last_index l + 1 = first_index l"
    using last_index_Suc [OF ok] assms(6) by (simp add: word_unat_eq_iff)
  moreover have "snd (append_log S C now l' tm cmd) = Inr (last_index l' + 1)"
    using append_log_persisted(2) [OF assms(1,3,4) l'(3) _ surjective_pairing] l'(1,2) by simp
  moreover have "last_index l' + 1 = 1" using l'(1,2) by (simp add: last_index_def)
  ultimately show ?thesis by simp
qed

section \<open>Witnesses\<close>

definition open_empty :: "mem_db raft_log" where
  "open_empty = raft_log_new\<lparr>lg_storage := Some ([], [])\<rparr>"

definition one_entry :: "mem_db raft_log" where
  "one_entry = fst (append_log once_sled sample_log_codec 0 open_empty 1 (DeleteKey ''k''))"

definition one_db :: mem_db where
  "one_db = the (lg_storage one_entry)"

lemma open_empty_life: "log_life once_sled sample_log_codec mem_view mem_durable open_empty"
proof (rule log_life.opened)
  show "log_with_storage once_sled sample_log_codec ([], []) = Inr open_empty"
    by (simp add: log_with_storage_def load_from_storage_def once_sled_def mem_scan_def open_empty_def raft_log_new_def)
qed (simp_all add: mem_empty)

lemma one_entry_life: "log_life once_sled sample_log_codec mem_view mem_durable one_entry"
  by (rule log_life.appended [OF open_empty_life, where now = 0 and tm = 1 and cmd = "DeleteKey ''k''"])
    (auto simp: one_entry_def open_empty_def raft_log_new_def intro: surjective_pairing)

lemma one_entry_eq: "lg_storage one_entry = Some one_db" "first_index one_entry = 1"
    "lg_entries one_entry = [\<lparr>le_index = 1, le_term = 1, le_command = DeleteKey ''k'', le_timestamp = 0\<rparr>]"
  by (simp_all add: one_entry_def one_db_def append_log_def persist_entry_def flush_log_def open_empty_def
      raft_log_new_def once_sled_def mem_sled_def sample_log_codec_def push_back_def last_index_def)

lemma recovered_mem: "recovered mem_view mem_durable db (snd db, snd db)"
  by (auto simp: recovered_def mem_view_def mem_durable_def fun_eq_iff)


definition compacted_one :: "mem_db raft_log" where
  "compacted_one = fst (the (compact_log once_sled one_entry 1))"

lemma compacted_one_facts:
  "log_life once_sled sample_log_codec mem_view mem_durable compacted_one"
  "lg_entries compacted_one = []" "first_index compacted_one = 2" "\<exists>db. lg_storage compacted_one = Some db"
proof -
  have ok: "log_ok one_entry" by (simp add: log_ok_def one_entry_eq)
  obtain l1 where l1: "compact_loop once_sled one_entry 1 = Some (l1, Inr ())" "lg_entries l1 = []" "first_index l1 = 2"
    using compact_loop_entries [OF once_sled_fault_free _ ok, of 1] by (auto simp: one_entry_eq drop_log_def)
  obtain l2 where l2: "flush_log once_sled l1 = (l2, Inr ())" "same_log l1 l2"
    by (rule fault_free_flush_log [OF once_sled_fault_free])
  have c: "compact_log once_sled one_entry 1 = Some (l2, Inr ())"
    using l1(1) l2(1) by (simp add: compact_log_def one_entry_eq)
  then have "compacted_one = l2" by (simp add: compacted_one_def)
  then show "lg_entries compacted_one = []" "first_index compacted_one = 2"
    using l1(2,3) same_logD(1,2) [OF l2(2)] by simp_all
  show life: "log_life once_sled sample_log_codec mem_view mem_durable compacted_one"
    using log_life.compacted [OF one_entry_life c] \<open>compacted_one = l2\<close> by simp
  show "\<exists>db. lg_storage compacted_one = Some db"
    using log_life_persisted [OF life once_sled_laws once_sled_remove once_sled_fault_free sample_log_codec_laws]
    by (auto simp: log_persisted_def)
qed

definition reopened_one :: "mem_db raft_log" where
  "reopened_one = projr (log_with_storage once_sled sample_log_codec
     (snd (the (lg_storage compacted_one)), snd (the (lg_storage compacted_one))))"

theorem full_compaction_forgets_the_index_witness:
  "snd (append_log once_sled sample_log_codec 0 compacted_one 1 (DeleteKey ''k'')) = Inr 2 \<and>
   snd (append_log once_sled sample_log_codec 0 reopened_one 1 (DeleteKey ''k'')) = Inr 1"
proof -
  obtain db where db: "lg_storage compacted_one = Some db" using compacted_one_facts(4) by blast
  obtain l' where l': "log_with_storage once_sled sample_log_codec (snd db, snd db) = Inr l'"
    using restart_log [OF once_sled_laws once_sled_remove once_sled_fault_free sample_log_codec_laws
        log_life_persisted [OF compacted_one_facts(1) once_sled_laws once_sled_remove once_sled_fault_free
          sample_log_codec_laws] db recovered_mem] by blast
  have "reopened_one = l'" by (simp add: reopened_one_def db l')
  then show ?thesis
    using full_compaction_forgets_the_index [OF once_sled_laws once_sled_remove once_sled_fault_free
        sample_log_codec_laws compacted_one_facts(1,2) _ db recovered_mem l', of 0 1 "DeleteKey ''k''"]
    by (simp add: compacted_one_facts(3))
qed

text \<open>A log in memory with two entries of term one.\<close>

definition entry_of :: "u64 \<Rightarrow> u64 \<Rightarrow> log_entry" where
  "entry_of i tm = \<lparr>le_index = i, le_term = tm, le_command = DeleteKey ''k'', le_timestamp = 0\<rparr>"

definition two_entries :: "mem_db raft_log" where
  "two_entries = raft_log_new\<lparr>lg_entries := [entry_of 1 1, entry_of 2 1]\<rparr>"

lemma two_entries_facts:
  "log_ok two_entries" "get_entry two_entries 1 = Some (entry_of 1 1)" "get_entry two_entries 2 = Some (entry_of 2 1)"
  "get_entry two_entries 3 = None"
  by (auto simp: log_ok_def get_entry_def two_entries_def raft_log_new_def entry_of_def less_Suc_eq Let_def)

theorem compaction_keeps_later_entries_witness:
  "\<exists>l'. compact_log once_sled two_entries 1 = Some (l', Inr ()) \<and> get_entry l' 1 = None \<and>
     get_entry l' 2 = Some (entry_of 2 1)"
proof -
  have "(1 :: u64) \<noteq> - 1" by simp
  from compaction_keeps_later_entries [OF once_sled_fault_free this two_entries_facts(1)]
  show ?thesis by (elim exE conjE) (simp add: two_entries_facts word_le_nat_alt)
qed

theorem replication_without_conflict_witness:
  "\<exists>l'. append_entries once_sled sample_log_codec two_entries 1 1 [entry_of 2 1, entry_of 3 2] = Some (l', Inr True) \<and>
     get_entry l' 1 = Some (entry_of 1 1) \<and> (\<exists>x. get_entry l' 3 = Some x \<and> le_term x = 2)"
proof -
  have "consecutive (Suc (unat (1 :: u64))) [entry_of 2 1, entry_of 3 2]"
    by (simp add: consecutive_Cons entry_of_def) (simp add: consecutive_def)
  moreover have "\<forall>e\<in>set [entry_of 2 1, entry_of 3 2]. \<forall>x. get_entry two_entries (le_index e) = Some x \<longrightarrow> le_term x = le_term e"
    using two_entries_facts by (simp add: entry_of_def)
  ultimately show ?thesis
    using replication_without_conflict [OF once_sled_fault_free sample_log_codec_laws two_entries_facts(1) _
        two_entries_facts(2), of "[entry_of 2 1, entry_of 3 2]" 1] two_entries_facts
    by (fastforce simp: entry_of_def)
qed

theorem conflicting_entry_is_kept_witness:
  "\<exists>l'. append_entries once_sled sample_log_codec two_entries 1 1 [entry_of 2 5] = Some (l', Inr True) \<and>
     get_entry l' 2 = Some (entry_of 2 1)"
  using conflicting_entry_is_kept [OF once_sled_fault_free sample_log_codec_laws two_entries_facts(1),
      of "entry_of 2 5" "entry_of 2 1" 1 1] two_entries_facts
  by (simp add: entry_of_def)

end
