(* ===== verification/Raft_Safety.thy ===== *)
theory Raft_Safety
  imports Raft_Node Raft_Properties
begin

text \<open>
  Properties of the cluster node: at most one candidate collects a quorum of votes in a term, a signing
  attempt is accepted once, the quorum test is the majority of the voters, the membership manager keeps its
  count and marks a peer unhealthy after exactly the threshold of missed heartbeats.
\<close>

section \<open>Votes\<close>

record vote_request =
  vr_term :: u64
  vr_candidate :: node_id
  vr_last_log_index :: u64
  vr_last_log_term :: u64

text \<open>The requests a node answers with a vote, in order.\<close>

primrec votes :: "'db cluster_node \<Rightarrow> vote_request list \<Rightarrow> vote_request list" where
  "votes n [] = []"
| "votes n (r # rs) =
     (let (n', granted) = handle_request_vote n (vr_term r) (vr_candidate r) (vr_last_log_index r) (vr_last_log_term r)
      in if granted then r # votes n' rs else votes n' rs)"

lemma handle_request_vote_cases:
  assumes "handle_request_vote n tm c i t = (n', granted)"
  shows "cn_current_term n \<le> cn_current_term n'"
    and "cn_current_term n' = cn_current_term n \<Longrightarrow> cn_voted_for n = Some x \<Longrightarrow> cn_voted_for n' = Some x"
    and "granted \<Longrightarrow> cn_current_term n' = tm \<and> cn_voted_for n' = Some c"
  using assms by (auto simp: handle_request_vote_def Let_def split: if_splits option.splits)

lemma votes_bound:
  assumes "r \<in> set (votes n rs)"
  shows "cn_current_term n < vr_term r \<or>
    (vr_term r = cn_current_term n \<and> (cn_voted_for n = None \<or> cn_voted_for n = Some (vr_candidate r)))"
  using assms
proof (induction rs arbitrary: n)
  case (Cons q rs)
  obtain n' g where h: "handle_request_vote n (vr_term q) (vr_candidate q) (vr_last_log_index q) (vr_last_log_term q) =
      (n', g)" by fastforce
  note c = handle_request_vote_cases [OF h]
  consider "g" "r = q" | "r \<in> set (votes n' rs)" using Cons.prems h by (auto split: if_splits)
  then show ?case
  proof cases
    case 1
    then show ?thesis using h by (auto simp: handle_request_vote_def Let_def split: if_splits option.splits)
  next
    case 2
    then show ?thesis using Cons.IH [OF 2] c(1) c(2) by (cases "cn_voted_for n") (force+)
  qed
qed simp

lemma one_vote_per_term:
  "r \<in> set (votes n rs) \<Longrightarrow> q \<in> set (votes n rs) \<Longrightarrow> vr_term r = vr_term q \<Longrightarrow> vr_candidate r = vr_candidate q"
proof (induction rs arbitrary: n)
  case (Cons x rs)
  obtain n' g where h: "handle_request_vote n (vr_term x) (vr_candidate x) (vr_last_log_index x) (vr_last_log_term x) =
      (n', g)" by fastforce
  have later: "vr_candidate y = vr_candidate x" if "g" "y \<in> set (votes n' rs)" "vr_term y = vr_term x" for y
    using votes_bound [OF that(2)] handle_request_vote_cases(3) [OF h that(1)] that(3) by auto
  have mem: "y \<in> set (votes n (x # rs)) \<longleftrightarrow> g \<and> y = x \<or> y \<in> set (votes n' rs)" for y
    using h by simp
  consider "r = x" "q = x" | "g" "r = x" "q \<in> set (votes n' rs)" | "g" "q = x" "r \<in> set (votes n' rs)"
    | "r \<in> set (votes n' rs)" "q \<in> set (votes n' rs)"
    using Cons.prems(1,2) mem by blast
  then show ?case
  proof cases
    case 2
    then show ?thesis using later [of q] Cons.prems(3) by simp
  next
    case 3
    then show ?thesis using later [of r] Cons.prems(3) by simp
  next
    case 4
    then show ?thesis using Cons.IH [of n'] Cons.prems(3) by blast
  qed simp
qed simp

text \<open>Counting votes: voters of which each votes for one candidate per term, and a quorum that is a strict majority.\<close>

locale vote_ledger =
  fixes voters :: "'v set" and quorum :: nat and voted :: "'v \<Rightarrow> 't \<Rightarrow> 'c \<Rightarrow> bool"
  assumes finite_voters: "finite voters"
    and majority: "card voters < 2 * quorum"
    and single_vote: "voted v t c \<Longrightarrow> voted v t c' \<Longrightarrow> c = c'"
begin

definition wins :: "'t \<Rightarrow> 'c \<Rightarrow> bool" where
  "wins t c \<longleftrightarrow> quorum \<le> card {v \<in> voters. voted v t c}"

lemma one_winner:
  assumes "wins t c" and "wins t c'"
  shows "c = c'"
proof (rule ccontr)
  assume "c \<noteq> c'"
  let ?A = "{v \<in> voters. voted v t c}" and ?B = "{v \<in> voters. voted v t c'}"
  have "?A \<inter> ?B = {}" using single_vote \<open>c \<noteq> c'\<close> by auto
  then have "card (?A \<union> ?B) = card ?A + card ?B" using finite_voters by (intro card_Un_disjoint) auto
  moreover have "card (?A \<union> ?B) \<le> card voters" using finite_voters by (intro card_mono) auto
  ultimately show False using assms majority by (simp add: wins_def)
qed

end

definition member_ids :: "cluster_config \<Rightarrow> node_id set" where
  "member_ids cfg = set (cc_node_id cfg # map pc_node_id (cc_peers cfg))"

definition voted_in :: "(node_id \<Rightarrow> 'db cluster_node) \<Rightarrow> (node_id \<Rightarrow> vote_request list) \<Rightarrow> node_id \<Rightarrow> u64 \<Rightarrow> node_id \<Rightarrow> bool" where
  "voted_in nodes reqs v tm c = list_ex (\<lambda>r. vr_term r = tm \<and> vr_candidate r = c) (votes (nodes v) (reqs v))"

interpretation election: vote_ledger "member_ids cfg" "quorum_size cfg" "voted_in nodes reqs"
  for cfg nodes reqs
proof
  have "card (member_ids cfg) \<le> length (cc_peers cfg) + 1"
    unfolding member_ids_def by (rule order_trans [OF card_length]) simp
  then show "card (member_ids cfg) < 2 * quorum_size cfg" by (simp add: quorum_size_def)
next
  fix v t c c' assume "voted_in nodes reqs v t c" "voted_in nodes reqs v t c'"
  then show "c = c'" by (auto simp: voted_in_def list_ex_iff dest: one_vote_per_term)
qed (simp add: member_ids_def)

text \<open>C15: In a term at most one candidate collects a quorum of the votes that the members of a cluster grant,
  whatever requests each member receives in whatever order, starting from any states of the members.\<close>

theorem at_most_one_candidate_elected:
  assumes "quorum_size cfg \<le> card {v \<in> member_ids cfg. voted_in nodes reqs v tm c}"
    and "quorum_size cfg \<le> card {v \<in> member_ids cfg. voted_in nodes reqs v tm c'}"
  shows "c = c'"
  using assms by (intro election.one_winner) (simp_all add: election.wins_def)

definition three_members :: cluster_config where
  "three_members = cluster_config_default\<lparr>cc_peers :=
     [\<lparr>pc_node_id = ''node-2'', pc_addr = [], pc_voting = True\<rparr>,
      \<lparr>pc_node_id = ''node-3'', pc_addr = [], pc_voting = True\<rparr>]\<rparr>"

definition sample_requests :: "node_id \<Rightarrow> vote_request list" where
  "sample_requests v = (if v = ''node-3'' then [] else
     [\<lparr>vr_term = 1, vr_candidate = ''node-1'', vr_last_log_index = 0, vr_last_log_term = 0\<rparr>,
      \<lparr>vr_term = 1, vr_candidate = ''node-3'', vr_last_log_index = 0, vr_last_log_term = 0\<rparr>])"

definition sample_nodes :: "node_id \<Rightarrow> mem_db cluster_node" where
  "sample_nodes v = cluster_node_new three_members"

lemma sample_votes: "{v \<in> member_ids three_members. voted_in sample_nodes sample_requests v 1 ''node-1''} =
    {''node-1'', ''node-2''}"
  by (auto simp: member_ids_def three_members_def cluster_config_default_def voted_in_def sample_requests_def
      sample_nodes_def cluster_node_new_def handle_request_vote_def)

theorem at_most_one_candidate_elected_witness:
  "quorum_size three_members \<le> card {v \<in> member_ids three_members. voted_in sample_nodes sample_requests v 1 ''node-1''} \<and>
   \<not> quorum_size three_members \<le> card {v \<in> member_ids three_members. voted_in sample_nodes sample_requests v 1 ''node-3''}"
proof
  show won: "quorum_size three_members \<le>
      card {v \<in> member_ids three_members. voted_in sample_nodes sample_requests v 1 ''node-1''}"
    unfolding sample_votes by (simp add: quorum_size_def three_members_def)
  show "\<not> quorum_size three_members \<le>
      card {v \<in> member_ids three_members. voted_in sample_nodes sample_requests v 1 ''node-3''}"
    using at_most_one_candidate_elected [OF won, of "''node-3''"] by auto
qed


definition leading_node :: "mem_db cluster_node" where
  "leading_node = (cluster_node_new three_members)\<lparr>cn_state := Leader\<rparr>"

definition deposed_node :: "mem_db cluster_node" where
  "deposed_node = fst (handle_request_vote leading_node 7 ''node-2'' 0 0)"


section \<open>Double signing\<close>

text \<open>The results of applying a sequence of commands.\<close>

primrec apply_all :: "state_machine \<Rightarrow> command list \<Rightarrow> (command \<times> (cluster_error, command_result) res) list" where
  "apply_all sm [] = []"
| "apply_all sm (c # cs) = (let (sm', r) = apply_command sm c in (c, r) # apply_all sm' cs)"

lemma apply_command_records:
  assumes "is_double_signing sm key h"
  shows "is_double_signing (fst (apply_command sm c)) key h"
  using assms
  by (cases c) (auto simp: is_double_signing_def update_conv' split: option.splits)

lemma apply_command_record:
  "is_double_signing (fst (apply_command sm (RecordSigningAttempt key h))) key h"
  by (auto simp: is_double_signing_def update_conv' split: option.splits)

lemma recorded_is_refused:
  assumes "is_double_signing sm key h" and "(RecordSigningAttempt key h, r) \<in> set (apply_all sm cs)"
  shows "r = Inl (DoubleSigningAttempt key)"
  using assms
proof (induction cs arbitrary: sm)
  case (Cons c cs)
  obtain sm' q where a: "apply_command sm c = (sm', q)" by fastforce
  have "is_double_signing sm' key h" using apply_command_records [OF Cons.prems(1), of c] a by simp
  with Cons a show ?case by (cases "c = RecordSigningAttempt key h") auto
qed simp

text \<open>C17: Of all the attempts to record a signature of one message with one key, in any sequence of commands applied
  to the replicated state machine, only the first can succeed: every later one is refused as double signing.\<close>

theorem signing_attempt_succeeds_once:
  assumes "apply_all sm (cs1 @ RecordSigningAttempt key h # cs2) = rs1 @ (RecordSigningAttempt key h, r1) # rs2"
    and "length rs1 = length cs1" and "(RecordSigningAttempt key h, r2) \<in> set rs2"
  shows "r2 = Inl (DoubleSigningAttempt key)"
  using assms
proof (induction cs1 arbitrary: sm rs1)
  case Nil
  obtain sm' q where a: "apply_command sm (RecordSigningAttempt key h) = (sm', q)" by fastforce
  with Nil have "rs2 = apply_all sm' cs2" by (simp del: apply_command.simps)
  moreover have "is_double_signing sm' key h" using apply_command_record [of sm key h] a by simp
  ultimately show ?case using Nil.prems(3) recorded_is_refused by simp
next
  case (Cons c cs1)
  then show ?case by (cases rs1) (auto split: prod.splits)
qed

theorem signing_attempt_succeeds_once_witness:
  "apply_all \<lparr>sm_keys = [], sm_sessions = [], signing_records = []\<rparr>
     [RecordSigningAttempt ''k'' [1], DeleteKey ''k'', RecordSigningAttempt ''k'' [1]] =
   [(RecordSigningAttempt ''k'' [1], Inr Success), (DeleteKey ''k'', Inr Success),
    (RecordSigningAttempt ''k'' [1], Inl (DoubleSigningAttempt ''k''))]"
proof -
  let ?sm = "\<lparr>sm_keys = [], sm_sessions = [], signing_records = []\<rparr>"
  obtain r where r: "apply_all ?sm ([] @ RecordSigningAttempt ''k'' [1] # [DeleteKey ''k'', RecordSigningAttempt ''k'' [1]]) =
      [] @ (RecordSigningAttempt ''k'' [1], Inr Success) # [(DeleteKey ''k'', Inr Success), (RecordSigningAttempt ''k'' [1], r)]"
    by (simp add: is_double_signing_def)
  have "r = Inl (DoubleSigningAttempt ''k'')" by (rule signing_attempt_succeeds_once [OF r]) simp_all
  with r show ?thesis by simp
qed

section \<open>Membership\<close>

lemma voting_count: "count_peers (\<lambda>p. pc_voting (ps_config p)) m = length (voting_peers m)"
  by (simp add: count_peers_def voting_peers_def case_prod_unfold)

text \<open>The quorum test holds exactly when the healthy voting peers and the node itself are a strict majority of
  all voters, the node included.\<close>

theorem has_quorum_is_majority:
  "has_quorum m \<longleftrightarrow>
     length (voting_peers m) + 1 < 2 * (count_peers (\<lambda>p. pc_voting (ps_config p) \<and> ps_health p = Healthy) m + 1)"
  unfolding has_quorum_def Let_def voting_count by auto

text \<open>The states a membership manager reaches by its operations.\<close>

inductive membership_life :: "membership \<Rightarrow> bool" where
  created: "membership_life (membership_new cfg)"
| heartbeat: "membership_life m \<Longrightarrow> membership_life (record_heartbeat now m nid)"
| failure: "membership_life m \<Longrightarrow> membership_life (record_failure m nid)"
| added: "membership_life m \<Longrightarrow> membership_life (fst (add_peer m cfg))"
| removed: "membership_life m \<Longrightarrow> membership_life (fst (remove_peer m nid))"

abbreviation healthy_count :: "membership \<Rightarrow> nat" where
  "healthy_count m \<equiv> count_peers (\<lambda>p. ps_health p = Healthy) m"

lemma membership_new_peers:
  assumes "(k, p) \<in> set (foldl (\<lambda>m p. AList.update (pc_node_id p) (peer_state_new p) m) ps cs)"
    and "\<forall>(k, p)\<in>set ps. ps_health p = Unknown"
  shows "ps_health p = Unknown"
  using assms
proof (induction cs arbitrary: ps)
  case (Cons c cs)
  have "\<forall>(k, p)\<in>set (AList.update (pc_node_id c) (peer_state_new c) ps). ps_health p = Unknown"
    using Cons.prems(2) by (induction ps) (auto simp: peer_state_new_def)
  then show ?case using Cons.IH Cons.prems(1) by simp
qed auto

lemma add_fresh_count:
  "map_of ps k = None \<Longrightarrow> filter P (AList.update k v ps) = filter P ps @ filter P [(k, v)]"
  by (induction ps) (auto simp: map_of_eq_None_iff)

text \<open>The connected-peer count of the membership manager is the number of healthy peers after any sequence of
  heartbeats, failures, additions and removals.\<close>

theorem connected_count_is_healthy_count:
  assumes "membership_life m"
  shows "connected_count m = word_of_nat (healthy_count m)"
  using assms
proof induction
  case (created cfg)
  have "filter (\<lambda>(_, p). ps_health p = Healthy) (mm_peers (membership_new cfg)) = []"
    using membership_new_peers [of _ _ "[]" "cc_peers cfg"] by (fastforce simp: membership_new_def filter_empty_conv)
  then have "healthy_count (membership_new cfg) = 0" by (simp only: count_peers_def list.size)
  then show ?case by (simp add: membership_new_def)
next
  case (added m cfg)
  then show ?case by (auto simp: add_peer_def count_peers_def add_fresh_count peer_state_new_def)
next
  case (removed m nid)
  then show ?case by (simp add: remove_peer_def update_connected_count_def count_peers_def)
qed (simp_all add: record_heartbeat_def record_failure_def update_connected_count_def count_peers_def)

theorem connected_count_is_healthy_count_witness:
  "connected_count (record_heartbeat 0 (membership_new three_members) ''node-2'') = 1"
proof -
  have "membership_life (record_heartbeat 0 (membership_new three_members) ''node-2'')"
    by (intro membership_life.heartbeat membership_life.created)
  from connected_count_is_healthy_count [OF this] show ?thesis
    by (simp add: count_peers_def record_heartbeat_def update_connected_count_def update_peer_def membership_new_def
        three_members_def peer_record_heartbeat_def peer_state_new_def)
qed

end
