(* ===== verification/Auth_Access.thy ===== *)
theory Auth_Access
  imports Hsm_Prelude "HOL-Library.AList"
begin

text \<open>
  Authorization, \<^verbatim>\<open>crates/auth/src\<close>: permissions and their bit flags (\<^verbatim>\<open>rbac/permission.rs\<close>), roles
  (\<^verbatim>\<open>rbac/role.rs\<close>), the role policy (\<^verbatim>\<open>rbac/policy.rs\<close>), client identities (\<^verbatim>\<open>mtls/identity.rs\<close>),
  key access control lists (\<^verbatim>\<open>acl.rs\<close>), namespaces (\<^verbatim>\<open>namespace.rs\<close>) and the combined check of
  \<^verbatim>\<open>AuthService\<close> (\<^verbatim>\<open>lib.rs\<close>). A hash set is a list without repetitions and a hash map an association
  list; their order stands for one iteration order. Counters of the metrics crate are left out.
\<close>

unbundle bit_operations_syntax

section \<open>Errors\<close>

datatype auth_error =
    InvalidCertificate string
  | CertificateValidationFailed string
  | CertificateExpired
  | CertificateNotYetValid
  | InvalidCertificateChain
  | IdentityNotFound
  | PermissionDenied string
  | NamespaceAccessDenied string
  | InvalidSession string
  | SessionExpired
  | RoleNotFound string
  | InvalidAcl string
  | TlsConfigError string
  | CertificateParsingError string
  | CertificateRevoked
  | CertificatePinningFailed
  | InvalidKeyUsage
  | RateLimitExceeded string
  | RateLimited
  | Unauthorized string
  | CircuitBreakerOpen
  | AuthIo string
  | AuthJson string
  | AuthInternal string

section \<open>Permissions\<close>

datatype permission = GenerateKey | ImportKey | DeleteKeyP | Sign | Encrypt | Decrypt | RotateKey | ViewMetadata
  | ViewAuditLogs | ExportKey | ManageNamespaces | ManageWebhooks | ManageAcls | ManageRoles | BackupKeys | RestoreKeys

definition all_permissions :: "permission list" where
  "all_permissions = [GenerateKey, ImportKey, DeleteKeyP, Sign, Encrypt, Decrypt, RotateKey, ViewMetadata,
     ViewAuditLogs, ExportKey, ManageNamespaces, ManageWebhooks, ManageAcls, ManageRoles, BackupKeys, RestoreKeys]"

definition is_privileged :: "permission \<Rightarrow> bool" where
  "is_privileged p = (case p of ExportKey \<Rightarrow> True | ManageNamespaces \<Rightarrow> True | ManageWebhooks \<Rightarrow> True
     | ManageRoles \<Rightarrow> True | DeleteKeyP \<Rightarrow> True | BackupKeys \<Rightarrow> True | RestoreKeys \<Rightarrow> True | _ \<Rightarrow> False)"

primrec permission_str :: "permission \<Rightarrow> string" where
  "permission_str GenerateKey = ''generate_key''"
| "permission_str ImportKey = ''import_key''"
| "permission_str DeleteKeyP = ''delete_key''"
| "permission_str Sign = ''sign''"
| "permission_str Encrypt = ''encrypt''"
| "permission_str Decrypt = ''decrypt''"
| "permission_str RotateKey = ''rotate_key''"
| "permission_str ViewMetadata = ''view_metadata''"
| "permission_str ViewAuditLogs = ''view_audit_logs''"
| "permission_str ExportKey = ''export_key''"
| "permission_str ManageNamespaces = ''manage_namespaces''"
| "permission_str ManageWebhooks = ''manage_webhooks''"
| "permission_str ManageAcls = ''manage_acls''"
| "permission_str ManageRoles = ''manage_roles''"
| "permission_str BackupKeys = ''backup_keys''"
| "permission_str RestoreKeys = ''restore_keys''"

text \<open>The bit flags: each permission is one bit of a 64-bit word.\<close>

primrec permission_bit :: "permission \<Rightarrow> nat" where
  "permission_bit GenerateKey = 0"
| "permission_bit ImportKey = 1"
| "permission_bit DeleteKeyP = 2"
| "permission_bit Sign = 3"
| "permission_bit Encrypt = 4"
| "permission_bit Decrypt = 5"
| "permission_bit RotateKey = 6"
| "permission_bit ViewMetadata = 7"
| "permission_bit ViewAuditLogs = 8"
| "permission_bit ExportKey = 9"
| "permission_bit ManageNamespaces = 10"
| "permission_bit ManageAcls = 11"
| "permission_bit ManageRoles = 12"
| "permission_bit BackupKeys = 13"
| "permission_bit RestoreKeys = 14"
| "permission_bit ManageWebhooks = 15"

definition to_flag :: "permission \<Rightarrow> u64" where
  "to_flag p = push_bit (permission_bit p) 1"

definition from_permissions :: "permission list \<Rightarrow> u64" where
  "from_permissions ps = foldl (\<lambda>acc p. acc OR to_flag p) 0 ps"

text \<open>\<^verbatim>\<open>contains\<close> of the \<^verbatim>\<open>bitflags\<close> crate: all bits of the argument are set.\<close>

definition has_permission :: "u64 \<Rightarrow> permission \<Rightarrow> bool" where
  "has_permission flags p \<longleftrightarrow> flags AND to_flag p = to_flag p"

section \<open>Roles and the role policy\<close>

datatype role = Admin | Operator | User | Auditor

text \<open>Only an ASCII text can become one of the four names in lower case.\<close>

definition role_from_str :: "string \<Rightarrow> (string, role) res" where
  "role_from_str s =
     (let l = map ascii_lower s
      in if l = ''admin'' then Inr Admin else if l = ''operator'' then Inr Operator
         else if l = ''user'' then Inr User else if l = ''auditor'' then Inr Auditor else Inl s)"

primrec role_str :: "role \<Rightarrow> string" where
  "role_str Admin = ''admin''"
| "role_str Operator = ''operator''"
| "role_str User = ''user''"
| "role_str Auditor = ''auditor''"

fun can_assume :: "role \<Rightarrow> role \<Rightarrow> bool" where
  "can_assume Admin _ = True"
| "can_assume Operator other = (other = User \<or> other = Auditor)"
| "can_assume User other = (other = Auditor)"
| "can_assume Auditor _ = False"

primrec hierarchy_level :: "role \<Rightarrow> nat" where
  "hierarchy_level Admin = 3"
| "hierarchy_level Operator = 2"
| "hierarchy_level User = 1"
| "hierarchy_level Auditor = 0"

type_synonym rbac_policy = "(role \<times> permission list) list"

definition rbac_policy_new :: rbac_policy where
  "rbac_policy_new =
     [(Admin, all_permissions),
      (Operator, [GenerateKey, ImportKey, Sign, Encrypt, Decrypt, RotateKey, ViewMetadata, ManageAcls, BackupKeys]),
      (User, [Sign, Encrypt, Decrypt, ViewMetadata]),
      (Auditor, [ViewMetadata, ViewAuditLogs])]"

definition role_can :: "rbac_policy \<Rightarrow> role \<Rightarrow> permission \<Rightarrow> bool" where
  "role_can pol r p = (case map_of pol r of None \<Rightarrow> False | Some ps \<Rightarrow> p \<in> set ps)"

definition can_any :: "rbac_policy \<Rightarrow> role list \<Rightarrow> permission \<Rightarrow> bool" where
  "can_any pol rs p = list_ex (\<lambda>r. role_can pol r p) rs"

definition can_all :: "rbac_policy \<Rightarrow> role list \<Rightarrow> permission \<Rightarrow> bool" where
  "can_all pol rs p = list_all (\<lambda>r. role_can pol r p) rs"

definition rbac_require :: "rbac_policy \<Rightarrow> role \<Rightarrow> permission \<Rightarrow> (auth_error, unit) res" where
  "rbac_require pol r p =
     (if role_can pol r p then Inr ()
      else Inl (PermissionDenied (''Role '' @ role_str r @ '' does not have permission '' @ permission_str p)))"

definition require_any :: "rbac_policy \<Rightarrow> role list \<Rightarrow> permission \<Rightarrow> (auth_error, unit) res" where
  "require_any pol rs p =
     (if can_any pol rs p then Inr ()
      else Inl (PermissionDenied (''None of the roles have permission '' @ permission_str p)))"

definition grant_permission :: "rbac_policy \<Rightarrow> role \<Rightarrow> permission \<Rightarrow> rbac_policy" where
  "grant_permission pol r p =
     AList.update r (List.insert p (case map_of pol r of None \<Rightarrow> [] | Some ps \<Rightarrow> ps)) pol"

definition revoke_permission :: "rbac_policy \<Rightarrow> role \<Rightarrow> permission \<Rightarrow> rbac_policy \<times> bool" where
  "revoke_permission pol r p =
     (case map_of pol r of
        None \<Rightarrow> (pol, False)
      | Some ps \<Rightarrow> (AList.update r (removeAll p ps) pol, p \<in> set ps))"

definition roles_with_permission :: "rbac_policy \<Rightarrow> permission \<Rightarrow> role list" where
  "roles_with_permission pol p = map fst (filter (\<lambda>(_, ps). p \<in> set ps) pol)"

section \<open>Identities\<close>

record client_identity =
  common_name :: string
  organization :: "string option"
  id_namespace :: string
  id_roles :: "role list"
  serial_number :: string

definition can_access_namespace :: "client_identity \<Rightarrow> string \<Rightarrow> bool" where
  "can_access_namespace i ns \<longleftrightarrow> id_namespace i = ns"

definition validate_identity :: "client_identity \<Rightarrow> (auth_error, unit) res" where
  "validate_identity i =
     (if id_roles i = [] then Inl (InvalidCertificate ''Identity must have at least one role'')
      else if common_name i = [] then Inl (InvalidCertificate ''Common name cannot be empty'')
      else if id_namespace i = [] then Inl (InvalidCertificate ''Namespace cannot be empty'')
      else Inr ())"

section \<open>Key access control lists\<close>

record key_acl =
  acl_key_id :: string
  allowed_clients :: "string list"
  denied_clients :: "string list"
  required_permissions :: "permission list"
  is_restricted :: bool

definition key_acl_new :: "string \<Rightarrow> key_acl" where
  "key_acl_new k = \<lparr>acl_key_id = k, allowed_clients = [], denied_clients = [], required_permissions = [],
     is_restricted = False\<rparr>"

definition key_acl_restricted :: "string \<Rightarrow> string list \<Rightarrow> key_acl" where
  "key_acl_restricted k cs = \<lparr>acl_key_id = k, allowed_clients = cs, denied_clients = [], required_permissions = [],
     is_restricted = True\<rparr>"

definition acl_allow_client :: "key_acl \<Rightarrow> string \<Rightarrow> key_acl" where
  "acl_allow_client a c = a\<lparr>allowed_clients := List.insert c (allowed_clients a), is_restricted := True\<rparr>"

definition acl_deny_client :: "key_acl \<Rightarrow> string \<Rightarrow> key_acl" where
  "acl_deny_client a c = a\<lparr>denied_clients := List.insert c (denied_clients a)\<rparr>"

definition acl_remove_allowed :: "key_acl \<Rightarrow> string \<Rightarrow> key_acl" where
  "acl_remove_allowed a c = a\<lparr>allowed_clients := removeAll c (allowed_clients a)\<rparr>"

definition acl_remove_denied :: "key_acl \<Rightarrow> string \<Rightarrow> key_acl" where
  "acl_remove_denied a c = a\<lparr>denied_clients := removeAll c (denied_clients a)\<rparr>"

definition acl_require_permission :: "key_acl \<Rightarrow> permission \<Rightarrow> key_acl" where
  "acl_require_permission a p = a\<lparr>required_permissions := List.insert p (required_permissions a)\<rparr>"

definition acl_remove_permission :: "key_acl \<Rightarrow> permission \<Rightarrow> key_acl" where
  "acl_remove_permission a p = a\<lparr>required_permissions := removeAll p (required_permissions a)\<rparr>"

definition acl_can_access :: "key_acl \<Rightarrow> string \<Rightarrow> bool" where
  "acl_can_access a c =
     (if c \<in> set (denied_clients a) then False
      else if \<not> is_restricted a then True
      else c \<in> set (allowed_clients a))"

definition acl_can_access_with_permission :: "key_acl \<Rightarrow> string \<Rightarrow> permission \<Rightarrow> bool" where
  "acl_can_access_with_permission a c p =
     (if \<not> acl_can_access a c then False
      else if required_permissions a = [] then True
      else p \<in> set (required_permissions a))"

type_synonym acl_manager = "(string \<times> key_acl) list"

definition create_acl :: "acl_manager \<Rightarrow> string \<Rightarrow> bool \<Rightarrow> acl_manager \<times> key_acl" where
  "create_acl m k restricted =
     (let acl = if restricted then key_acl_restricted k [] else key_acl_new k in (AList.update k acl m, acl))"

definition update_acl :: "acl_manager \<Rightarrow> key_acl \<Rightarrow> acl_manager" where
  "update_acl m a = AList.update (acl_key_id a) a m"

definition delete_acl :: "acl_manager \<Rightarrow> string \<Rightarrow> acl_manager \<times> bool" where
  "delete_acl m k = (AList.delete k m, map_of m k \<noteq> None)"

definition allow_client :: "acl_manager \<Rightarrow> string \<Rightarrow> string \<Rightarrow> acl_manager \<times> (auth_error, unit) res" where
  "allow_client m k c =
     (case map_of m k of
        None \<Rightarrow> (m, Inl (InvalidAcl (''ACL not found for key '' @ k)))
      | Some a \<Rightarrow> (AList.update k (acl_allow_client a c) m, Inr ()))"

definition deny_client :: "acl_manager \<Rightarrow> string \<Rightarrow> string \<Rightarrow> acl_manager \<times> (auth_error, unit) res" where
  "deny_client m k c =
     (case map_of m k of
        None \<Rightarrow> (m, Inl (InvalidAcl (''ACL not found for key '' @ k)))
      | Some a \<Rightarrow> (AList.update k (acl_deny_client a c) m, Inr ()))"

definition can_access :: "acl_manager \<Rightarrow> string \<Rightarrow> client_identity \<Rightarrow> bool" where
  "can_access m k i = (case map_of m k of None \<Rightarrow> True | Some a \<Rightarrow> acl_can_access a (common_name i))"

definition acl_require_access :: "acl_manager \<Rightarrow> string \<Rightarrow> client_identity \<Rightarrow> (auth_error, unit) res" where
  "acl_require_access m k i =
     (if can_access m k i then Inr ()
      else Inl (PermissionDenied (''Client '' @ common_name i @ '' does not have access to key '' @ k)))"

definition can_access_with_permission :: "acl_manager \<Rightarrow> string \<Rightarrow> client_identity \<Rightarrow> permission \<Rightarrow> bool" where
  "can_access_with_permission m k i p =
     (case map_of m k of None \<Rightarrow> True | Some a \<Rightarrow> acl_can_access_with_permission a (common_name i) p)"

definition require_access_with_permission ::
  "acl_manager \<Rightarrow> string \<Rightarrow> client_identity \<Rightarrow> permission \<Rightarrow> (auth_error, unit) res" where
  "require_access_with_permission m k i p =
     (if can_access_with_permission m k i p then Inr ()
      else Inl (PermissionDenied (''Client '' @ common_name i @ '' does not have access to key '' @ k @
             '' for permission '' @ permission_str p)))"

definition get_accessible_keys :: "acl_manager \<Rightarrow> client_identity \<Rightarrow> string list" where
  "get_accessible_keys m i = map fst (filter (\<lambda>(_, a). acl_can_access a (common_name i)) m)"

definition get_namespace_keys :: "acl_manager \<Rightarrow> string \<Rightarrow> string list" where
  "get_namespace_keys m ns = filter (\<lambda>k. prefix (ns @ '':'') k) (map fst m)"

section \<open>Namespaces\<close>

record namespace_acl =
  ns_allowed_clients :: "string list"
  ns_is_restricted :: bool

record namespace_metadata =
  ns_acl :: namespace_acl
  ns_created_at :: int

type_synonym namespace_manager = "(string \<times> namespace_metadata) list"

definition create_namespace :: "int \<Rightarrow> namespace_manager \<Rightarrow> string \<Rightarrow> namespace_manager \<times> (auth_error, unit) res" where
  "create_namespace now m ns =
     (if ns = [] then (m, Inl (InvalidCertificate ''Namespace name cannot be empty''))
      else if map_of m ns \<noteq> None then (m, Inl (AuthInternal (''Namespace '' @ ns @ '' already exists'')))
      else (AList.update ns \<lparr>ns_acl = \<lparr>ns_allowed_clients = [], ns_is_restricted = False\<rparr>, ns_created_at = now\<rparr> m, Inr ()))"

definition delete_namespace :: "namespace_manager \<Rightarrow> string \<Rightarrow> namespace_manager \<times> (auth_error, unit) res" where
  "delete_namespace m ns =
     (if map_of m ns = None then (m, Inl (AuthInternal (''Namespace '' @ ns @ '' does not exist'')))
      else (AList.delete ns m, Inr ()))"

definition grant_access :: "int \<Rightarrow> namespace_manager \<Rightarrow> string \<Rightarrow> string \<Rightarrow> namespace_manager \<times> (auth_error, unit) res" where
  "grant_access now m ns c =
     (case map_of m ns of
        Some d \<Rightarrow>
          (AList.update ns (d\<lparr>ns_acl := \<lparr>ns_allowed_clients = List.insert c (ns_allowed_clients (ns_acl d)),
             ns_is_restricted = True\<rparr>\<rparr>) m, Inr ())
      | None \<Rightarrow>
          (AList.update ns \<lparr>ns_acl = \<lparr>ns_allowed_clients = [c], ns_is_restricted = True\<rparr>, ns_created_at = now\<rparr> m, Inr ()))"

definition revoke_access :: "namespace_manager \<Rightarrow> string \<Rightarrow> string \<Rightarrow> namespace_manager \<times> (auth_error, unit) res" where
  "revoke_access m ns c =
     (case map_of m ns of
        Some d \<Rightarrow>
          (AList.update ns (d\<lparr>ns_acl := (ns_acl d)\<lparr>ns_allowed_clients := removeAll c (ns_allowed_clients (ns_acl d))\<rparr>\<rparr>) m,
           Inr ())
      | None \<Rightarrow> (m, Inl (AuthInternal (''Namespace '' @ ns @ '' does not exist''))))"

definition has_access :: "namespace_manager \<Rightarrow> client_identity \<Rightarrow> string \<Rightarrow> bool" where
  "has_access m i ns =
     (if id_namespace i \<noteq> ns then False
      else case map_of m ns of
             Some d \<Rightarrow>
               if \<not> ns_is_restricted (ns_acl d) then True
               else common_name i \<in> set (ns_allowed_clients (ns_acl d))
           | None \<Rightarrow> True)"

definition ns_require_access :: "namespace_manager \<Rightarrow> client_identity \<Rightarrow> string \<Rightarrow> (auth_error, unit) res" where
  "ns_require_access m i ns =
     (if has_access m i ns then Inr ()
      else Inl (NamespaceAccessDenied (''Client '' @ common_name i @ '' does not have access to namespace '' @ ns)))"

definition get_accessible_namespaces :: "namespace_manager \<Rightarrow> client_identity \<Rightarrow> string list" where
  "get_accessible_namespaces m i =
     (let nss = map fst (filter (\<lambda>(ns, d). id_namespace i = ns \<and>
            (\<not> ns_is_restricted (ns_acl d) \<or> common_name i \<in> set (ns_allowed_clients (ns_acl d)))) m)
      in if nss = [] \<and> id_namespace i \<noteq> [] then [id_namespace i] else nss)"

definition get_namespace_clients :: "namespace_manager \<Rightarrow> string \<Rightarrow> string list option" where
  "get_namespace_clients m ns = map_option (\<lambda>d. ns_allowed_clients (ns_acl d)) (map_of m ns)"

section \<open>The combined check\<close>

record auth_state =
  as_rbac :: rbac_policy
  as_namespaces :: namespace_manager
  as_acls :: acl_manager

definition authorize_key_access ::
  "auth_state \<Rightarrow> client_identity \<Rightarrow> string \<Rightarrow> string \<Rightarrow> permission \<Rightarrow> (auth_error, unit) res" where
  "authorize_key_access s i key_id ns p =
     bind_res (ns_require_access (as_namespaces s) i ns) (\<lambda>_.
     bind_res (require_any (as_rbac s) (id_roles i) p) (\<lambda>_.
     bind_res (acl_require_access (as_acls s) key_id i) (\<lambda>_. Inr ())))"

end
