(* ===== verification/Auth_Properties.thy ===== *)
theory Auth_Properties
  imports Auth_Access
begin

text \<open>
  Properties of authorization: the bit flags decide membership, the combined check is exactly the
  conjunction of its three layers, and where the code departs from its documentation.
\<close>

section \<open>Permission flags\<close>

lemma permission_bit_inject [simp]: "permission_bit p = permission_bit q \<longleftrightarrow> p = q"
  by (cases p; cases q) simp_all

lemma permission_bit_bound: "permission_bit p < 64"
  by (cases p) simp_all

lemma bit_to_flag: "bit (to_flag p) n \<longleftrightarrow> n = permission_bit p"
  using permission_bit_bound [of p] by (auto simp: to_flag_def bit_simps bit_1_iff)

lemma has_permission_bit: "has_permission flags p \<longleftrightarrow> bit flags (permission_bit p)"
proof
  assume "has_permission flags p"
  then have "bit (flags AND to_flag p) (permission_bit p)"
    using bit_to_flag [of p] by (simp add: has_permission_def)
  then show "bit flags (permission_bit p)" by (simp add: bit_simps)
next
  assume "bit flags (permission_bit p)"
  then have "flags AND to_flag p = to_flag p"
    by (intro bit_eqI) (auto simp: bit_and_iff bit_to_flag)
  then show "has_permission flags p" by (simp add: has_permission_def)
qed

lemma bit_from_permissions:
  "bit (foldl (\<lambda>acc p. acc OR to_flag p) acc ps) n \<longleftrightarrow> bit acc n \<or> (\<exists>p\<in>set ps. n = permission_bit p)"
  by (induction ps arbitrary: acc) (auto simp: bit_or_iff bit_to_flag)

text \<open>The bit flags of a list of permissions answer exactly membership in the list.\<close>

theorem flags_decide_membership: "has_permission (from_permissions ps) p \<longleftrightarrow> p \<in> set ps"
  by (auto simp: has_permission_bit from_permissions_def bit_from_permissions)

section \<open>The combined check\<close>

lemma can_any_iff: "can_any pol rs p \<longleftrightarrow> (\<exists>r\<in>set rs. \<exists>ps. map_of pol r = Some ps \<and> p \<in> set ps)"
  by (auto simp: can_any_def list_ex_iff role_can_def split: option.splits)

lemma has_access_iff:
  "has_access m i ns \<longleftrightarrow> id_namespace i = ns \<and>
     (\<forall>d. map_of m ns = Some d \<longrightarrow> ns_is_restricted (ns_acl d) \<longrightarrow> common_name i \<in> set (ns_allowed_clients (ns_acl d)))"
  by (auto simp: has_access_def split: option.splits)

lemma can_access_iff:
  "can_access m k i \<longleftrightarrow> (\<forall>a. map_of m k = Some a \<longrightarrow> common_name i \<notin> set (denied_clients a) \<and>
     (is_restricted a \<longrightarrow> common_name i \<in> set (allowed_clients a)))"
  by (auto simp: can_access_def acl_can_access_def split: option.splits)


definition sample_identity :: client_identity where
  "sample_identity = \<lparr>common_name = ''svc'', organization = None, id_namespace = ''prod'', id_roles = [User],
     serial_number = ''1''\<rparr>"

definition sample_auth :: auth_state where
  "sample_auth = \<lparr>as_rbac = rbac_policy_new, as_namespaces = fst (grant_access 0 [] ''prod'' ''svc''),
     as_acls = [(''k'', acl_require_permission (key_acl_restricted ''k'' [''svc'']) Sign)]\<rparr>"


text \<open>The combined check does not look at the permissions that a key requires: a client that the list of the key
  refuses for an operation passes the check for that operation when its namespace, its roles and the client lists allow.\<close>

theorem required_permissions_not_enforced:
  assumes "has_access (as_namespaces s) i ns" and "can_any (as_rbac s) (id_roles i) p"
    and "map_of (as_acls s) k = Some a" and "acl_can_access a (common_name i)"
    and "required_permissions a \<noteq> []" and "p \<notin> set (required_permissions a)"
  shows "authorize_key_access s i k ns p = Inr () \<and> \<not> can_access_with_permission (as_acls s) k i p"
  using assms
  by (simp add: authorize_key_access_def ns_require_access_def require_any_def acl_require_access_def can_access_def
      can_access_with_permission_def acl_can_access_with_permission_def)

theorem required_permissions_not_enforced_witness:
  "authorize_key_access sample_auth sample_identity ''k'' ''prod'' Decrypt = Inr () \<and>
   \<not> can_access_with_permission (as_acls sample_auth) ''k'' sample_identity Decrypt"
proof (rule required_permissions_not_enforced)
  show "map_of (as_acls sample_auth) ''k'' = Some (acl_require_permission (key_acl_restricted ''k'' [''svc'']) Sign)"
    by (simp add: sample_auth_def)
qed (simp_all add: sample_auth_def sample_identity_def rbac_policy_new_def grant_access_def acl_require_permission_def
      key_acl_restricted_def has_access_iff can_any_iff acl_can_access_def)

section \<open>Lists of what a client can reach\<close>

text \<open>The keys listed for a client are those with an access control list that admits it.\<close>

lemma accessible_keys_sound:
  assumes "distinct (map fst m)" and "k \<in> set (get_accessible_keys m i)"
  shows "can_access m k i"
proof -
  obtain a where "(k, a) \<in> set m" "acl_can_access a (common_name i)"
    using assms(2) by (auto simp: get_accessible_keys_def)
  with assms(1) show ?thesis by (simp add: can_access_def)
qed

text \<open>A restricted namespace that excludes a client is still listed as accessible to it, when it is its own.\<close>

lemma excluded_namespace_is_listed:
  assumes "map_of m (id_namespace i) = Some d" and "ns_is_restricted (ns_acl d)"
    and "common_name i \<notin> set (ns_allowed_clients (ns_acl d))" and "distinct (map fst m)" and "id_namespace i \<noteq> []"
  shows "\<not> has_access m i (id_namespace i)" and "get_accessible_namespaces m i = [id_namespace i]"
proof -
  show "\<not> has_access m i (id_namespace i)" using assms(1-3) by (simp add: has_access_iff)
  have "e = d" if "(id_namespace i, e) \<in> set m" for e
    using that assms(1,4) by (simp add: map_of_is_SomeI)
  with assms(2,3,5) show "get_accessible_namespaces m i = [id_namespace i]"
    by (auto simp: get_accessible_namespaces_def filter_empty_conv)
qed

text \<open>The default policy: the role hierarchy is not a hierarchy of permissions, and a permission that requires an
  administrator is held by operators.\<close>

lemma operators_back_up_keys: "is_privileged BackupKeys" "role_can rbac_policy_new Operator BackupKeys"
  by (simp_all add: is_privileged_def role_can_def rbac_policy_new_def)

lemma operator_cannot_do_all_of_auditor:
  "can_assume Operator Auditor" "role_can rbac_policy_new Auditor ViewAuditLogs"
  "\<not> role_can rbac_policy_new Operator ViewAuditLogs"
  by (simp_all add: role_can_def rbac_policy_new_def)

lemma role_round_trip: "role_from_str (role_str r) = Inr r"
  by (cases r) (simp_all add: role_from_str_def ascii_lower_def)

end
