(* ===== verification/Sessions.thy ===== *)
theory Sessions
  imports Auth_Access
begin

text \<open>
  Sessions, \<^verbatim>\<open>crates/auth/src/session\<close>: scopes and templates (\<^verbatim>\<open>scope.rs\<close>), sessions and tokens
  (\<^verbatim>\<open>session_data.rs\<close>, \<^verbatim>\<open>token.rs\<close>), the per-session rate limiter (\<^verbatim>\<open>rate_limiter.rs\<close>), the session
  manager (\<^verbatim>\<open>manager.rs\<close>) and the session checks of \<^verbatim>\<open>AuthService\<close> (\<^verbatim>\<open>lib.rs\<close>).

  A time is a number of nanoseconds; every reading of the clock and all random bytes are arguments. Where
  the code reads the clock once per entry of a map, the reading is a function of the key of the entry.
  SHA-256 and the hex crate are the fields of a parameter record. Time stamps are not bounded here, while
  chrono panics on a lifetime of more than about 292 million years. An operation is one atomic step; the
  concurrent maps are association lists whose order stands for one iteration order.
\<close>

section \<open>Scopes and templates\<close>

record session_scope =
  allowed_operations :: "permission list option"
  allowed_keys :: "string list option"
  max_operations :: "u64 option"
  rate_limit :: "u32 option"
  allowed_namespaces :: "string list option"

definition scope_new :: session_scope where
  "scope_new = \<lparr>allowed_operations = None, allowed_keys = None, max_operations = None, rate_limit = None,
     allowed_namespaces = None\<rparr>"

definition with_operations :: "session_scope \<Rightarrow> permission list \<Rightarrow> session_scope" where
  "with_operations sc ops = sc\<lparr>allowed_operations := Some ops\<rparr>"

definition with_keys :: "session_scope \<Rightarrow> string list \<Rightarrow> session_scope" where
  "with_keys sc ks = sc\<lparr>allowed_keys := Some ks\<rparr>"

definition with_max_operations :: "session_scope \<Rightarrow> u64 \<Rightarrow> session_scope" where
  "with_max_operations sc n = sc\<lparr>max_operations := Some n\<rparr>"

definition with_rate_limit :: "session_scope \<Rightarrow> u32 \<Rightarrow> session_scope" where
  "with_rate_limit sc n = sc\<lparr>rate_limit := Some n\<rparr>"

definition with_namespaces :: "session_scope \<Rightarrow> string list \<Rightarrow> session_scope" where
  "with_namespaces sc ns = sc\<lparr>allowed_namespaces := Some ns\<rparr>"

definition permits :: "'a list option \<Rightarrow> 'a \<Rightarrow> bool" where
  "permits l x = (case l of Some xs \<Rightarrow> x \<in> set xs | None \<Rightarrow> True)"

definition scope_operation_allowed :: "session_scope \<Rightarrow> permission \<Rightarrow> bool" where
  "scope_operation_allowed sc p = permits (allowed_operations sc) p"

definition scope_key_allowed :: "session_scope \<Rightarrow> string \<Rightarrow> bool" where
  "scope_key_allowed sc k = permits (allowed_keys sc) k"

definition scope_namespace_allowed :: "session_scope \<Rightarrow> string \<Rightarrow> bool" where
  "scope_namespace_allowed sc ns = permits (allowed_namespaces sc) ns"

definition list_within :: "'a list option \<Rightarrow> 'a list option \<Rightarrow> bool" where
  "list_within c p = (case (c, p) of (Some xs, Some ys) \<Rightarrow> list_all (\<lambda>x. x \<in> set ys) xs | _ \<Rightarrow> True)"

definition bound_within :: "'a::linorder option \<Rightarrow> 'a option \<Rightarrow> bool" where
  "bound_within c p = (case (c, p) of (Some x, Some y) \<Rightarrow> \<not> y < x | _ \<Rightarrow> True)"

definition is_subset_of :: "session_scope \<Rightarrow> session_scope \<Rightarrow> bool" where
  "is_subset_of c p \<longleftrightarrow>
     list_within (allowed_operations c) (allowed_operations p) \<and>
     list_within (allowed_keys c) (allowed_keys p) \<and>
     bound_within (max_operations c) (max_operations p) \<and>
     bound_within (rate_limit c) (rate_limit p)"

definition meet_list :: "'a list option \<Rightarrow> 'a list option \<Rightarrow> 'a list option" where
  "meet_list a b = (case (a, b) of
      (Some xs, Some ys) \<Rightarrow> Some (filter (\<lambda>x. x \<in> set ys) xs)
    | (Some xs, None) \<Rightarrow> Some xs
    | (None, Some ys) \<Rightarrow> Some ys
    | (None, None) \<Rightarrow> None)"

definition meet_bound :: "'a::linorder option \<Rightarrow> 'a option \<Rightarrow> 'a option" where
  "meet_bound a b = (case (a, b) of
      (Some x, Some y) \<Rightarrow> Some (min x y)
    | (Some x, None) \<Rightarrow> Some x
    | (None, Some y) \<Rightarrow> Some y
    | (None, None) \<Rightarrow> None)"

definition scope_intersect :: "session_scope \<Rightarrow> session_scope \<Rightarrow> session_scope" where
  "scope_intersect a b =
     \<lparr>allowed_operations = meet_list (allowed_operations a) (allowed_operations b),
      allowed_keys = meet_list (allowed_keys a) (allowed_keys b),
      max_operations = meet_bound (max_operations a) (max_operations b),
      rate_limit = meet_bound (rate_limit a) (rate_limit b),
      allowed_namespaces = meet_list (allowed_namespaces a) (allowed_namespaces b)\<rparr>"

record session_template =
  tmpl_id :: string
  tmpl_name :: string
  tmpl_description :: "string option"
  tmpl_scope :: session_scope
  default_ttl_seconds :: int
  tmpl_allow_delegation :: bool
  tmpl_max_delegation_depth :: u32
  tmpl_created_at :: int
  tmpl_updated_at :: int

definition template_new :: "int \<Rightarrow> string \<Rightarrow> string \<Rightarrow> session_template" where
  "template_new now i n = \<lparr>tmpl_id = i, tmpl_name = n, tmpl_description = None, tmpl_scope = scope_new,
     default_ttl_seconds = 3600, tmpl_allow_delegation = False, tmpl_max_delegation_depth = 0,
     tmpl_created_at = now, tmpl_updated_at = now\<rparr>"

definition template_with_scope :: "int \<Rightarrow> session_template \<Rightarrow> session_scope \<Rightarrow> session_template" where
  "template_with_scope now t sc = t\<lparr>tmpl_scope := sc, tmpl_updated_at := now\<rparr>"

definition template_with_ttl :: "int \<Rightarrow> session_template \<Rightarrow> int \<Rightarrow> session_template" where
  "template_with_ttl now t ttl = t\<lparr>default_ttl_seconds := ttl, tmpl_updated_at := now\<rparr>"

definition template_with_description :: "int \<Rightarrow> session_template \<Rightarrow> string \<Rightarrow> session_template" where
  "template_with_description now t d = t\<lparr>tmpl_description := Some d, tmpl_updated_at := now\<rparr>"

definition template_with_delegation :: "int \<Rightarrow> session_template \<Rightarrow> u32 \<Rightarrow> session_template" where
  "template_with_delegation now t d =
     t\<lparr>tmpl_allow_delegation := 0 < d, tmpl_max_delegation_depth := d, tmpl_updated_at := now\<rparr>"

section \<open>Tokens\<close>

record token_env =
  te_sha256 :: "bytes \<Rightarrow> bytes"
  te_hex :: "bytes \<Rightarrow> string"

definition token_new :: "token_env \<Rightarrow> bytes \<Rightarrow> string" where
  "token_new E rnd = te_hex E rnd"

definition hash_token :: "token_env \<Rightarrow> string \<Rightarrow> bytes" where
  "hash_token E tok = te_sha256 E (str_bytes tok)"

definition verify_hashed :: "token_env \<Rightarrow> bytes \<Rightarrow> string \<Rightarrow> bool" where
  "verify_hashed E h tok \<longleftrightarrow> h = hash_token E tok"

definition generate_session_id :: "token_env \<Rightarrow> bytes \<Rightarrow> string" where
  "generate_session_id E rnd = te_hex E (te_sha256 E rnd)"

section \<open>Sessions\<close>

definition NANOS :: int where
  "NANOS = 1000000000"

text \<open>chrono's \<^verbatim>\<open>num_seconds\<close> rounds towards zero.\<close>

definition num_seconds :: "int \<Rightarrow> int" where
  "num_seconds d = (if 0 \<le> d then d div NANOS else - ((- d) div NANOS))"

record session =
  sess_id :: string
  identity :: client_identity
  created_at :: int
  last_accessed :: int
  expires_at :: int
  token_hash :: bytes
  operation_count :: u64
  tls_fingerprint :: "string option"
  client_ip :: "string option"
  user_agent :: "string option"
  sess_scope :: "session_scope option"
  parent_session_id :: "string option"
  delegation_depth :: u32
  max_delegation_depth :: u32
  allow_delegation :: bool
  template_id :: "string option"

definition session_create :: "token_env \<Rightarrow> int \<Rightarrow> bytes \<Rightarrow> bytes \<Rightarrow> client_identity \<Rightarrow> int \<Rightarrow> session \<times> string" where
  "session_create E now rid rtok who ttl = (let tok = token_new E rtok in
     (\<lparr>sess_id = generate_session_id E rid, identity = who, created_at = now, last_accessed = now,
       expires_at = now + ttl * NANOS, token_hash = hash_token E tok, operation_count = 0, tls_fingerprint = None,
       client_ip = None, user_agent = None, sess_scope = None, parent_session_id = None, delegation_depth = 0,
       max_delegation_depth = 0, allow_delegation = False, template_id = None\<rparr>, tok))"

definition create_with_scope ::
  "token_env \<Rightarrow> int \<Rightarrow> bytes \<Rightarrow> bytes \<Rightarrow> client_identity \<Rightarrow> int \<Rightarrow> session_scope \<Rightarrow> session \<times> string" where
  "create_with_scope E now rid rtok who ttl sc =
     (case session_create E now rid rtok who ttl of (s, tok) \<Rightarrow> (s\<lparr>sess_scope := Some sc\<rparr>, tok))"

definition create_from_template ::
  "token_env \<Rightarrow> int \<Rightarrow> bytes \<Rightarrow> bytes \<Rightarrow> client_identity \<Rightarrow> session_template \<Rightarrow> session \<times> string" where
  "create_from_template E now rid rtok who t =
     (case session_create E now rid rtok who (default_ttl_seconds t) of (s, tok) \<Rightarrow>
        (s\<lparr>sess_scope := Some (tmpl_scope t), allow_delegation := tmpl_allow_delegation t,
           max_delegation_depth := tmpl_max_delegation_depth t, template_id := Some (tmpl_id t)\<rparr>, tok))"

definition new_with_metadata :: "token_env \<Rightarrow> int \<Rightarrow> bytes \<Rightarrow> bytes \<Rightarrow> client_identity \<Rightarrow> int \<Rightarrow> string option \<Rightarrow>
  string option \<Rightarrow> string option \<Rightarrow> session \<times> string" where
  "new_with_metadata E now rid rtok who ttl ip ua fp =
     (case session_create E now rid rtok who ttl of (s, tok) \<Rightarrow>
        (s\<lparr>client_ip := ip, user_agent := ua, tls_fingerprint := fp\<rparr>, tok))"

definition is_operation_allowed :: "session \<Rightarrow> permission \<Rightarrow> bool" where
  "is_operation_allowed s p = (case sess_scope s of Some sc \<Rightarrow> scope_operation_allowed sc p | None \<Rightarrow> True)"

definition is_key_allowed :: "session \<Rightarrow> string \<Rightarrow> bool" where
  "is_key_allowed s k = (case sess_scope s of Some sc \<Rightarrow> scope_key_allowed sc k | None \<Rightarrow> True)"

definition is_namespace_allowed :: "session \<Rightarrow> string \<Rightarrow> bool" where
  "is_namespace_allowed s ns = (case sess_scope s of Some sc \<Rightarrow> scope_namespace_allowed sc ns | None \<Rightarrow> True)"

definition can_delegate :: "session \<Rightarrow> bool" where
  "can_delegate s \<longleftrightarrow> allow_delegation s \<and> delegation_depth s < max_delegation_depth s"

definition remaining_delegation_depth :: "session \<Rightarrow> u32" where
  "remaining_delegation_depth s =
     (if \<not> allow_delegation s then 0
      else if delegation_depth s \<le> max_delegation_depth s then max_delegation_depth s - delegation_depth s
      else 0)"

definition is_operation_limit_reached :: "session \<Rightarrow> bool" where
  "is_operation_limit_reached s =
     (case sess_scope s of
        Some sc \<Rightarrow> (case max_operations sc of Some n \<Rightarrow> n \<le> operation_count s | None \<Rightarrow> False)
      | None \<Rightarrow> False)"

definition verify_token :: "token_env \<Rightarrow> session \<Rightarrow> string \<Rightarrow> bool" where
  "verify_token E s tok = verify_hashed E (token_hash s) tok"

definition increment_operation :: "session \<Rightarrow> session \<times> bool" where
  "increment_operation s =
     (let s' = s\<lparr>operation_count := operation_count s + 1\<rparr> in (s', 1000 \<le> operation_count s'))"

definition rotate_token :: "token_env \<Rightarrow> bytes \<Rightarrow> session \<Rightarrow> session \<times> string" where
  "rotate_token E rtok s =
     (let tok = token_new E rtok in (s\<lparr>token_hash := hash_token E tok, operation_count := 0\<rparr>, tok))"

definition is_expired :: "int \<Rightarrow> session \<Rightarrow> bool" where
  "is_expired now s \<longleftrightarrow> expires_at s < now"

definition is_valid :: "int \<Rightarrow> session \<Rightarrow> bool" where
  "is_valid now s \<longleftrightarrow> \<not> is_expired now s"

definition touch :: "int \<Rightarrow> session \<Rightarrow> session" where
  "touch now s = s\<lparr>last_accessed := now\<rparr>"

definition extend_expiry :: "session \<Rightarrow> int \<Rightarrow> session" where
  "extend_expiry s secs = s\<lparr>expires_at := expires_at s + secs * NANOS\<rparr>"

section \<open>Rate limiters\<close>

record rate_limiter =
  operations :: u64
  window_start :: int
  limit :: u32

definition rate_limiter_new :: "int \<Rightarrow> u32 \<Rightarrow> rate_limiter" where
  "rate_limiter_new now l = \<lparr>operations = 0, window_start = now, limit = l\<rparr>"

definition check_and_increment :: "int \<Rightarrow> rate_limiter \<Rightarrow> rate_limiter \<times> (string, unit) res" where
  "check_and_increment now r =
     (if 1 \<le> num_seconds (now - window_start r) then (r\<lparr>operations := 1, window_start := now\<rparr>, Inr ())
      else let current = operations r; r1 = r\<lparr>operations := current + 1\<rparr> in
        if ucast (limit r) \<le> current then (r1\<lparr>operations := operations r1 - 1\<rparr>, Inl ''Rate limit exceeded'')
        else (r1, Inr ()))"

section \<open>The session manager\<close>

record session_manager =
  sessions :: "(string \<times> session) list"
  templates :: "(string \<times> session_template) list"
  rate_limiters :: "(string \<times> rate_limiter) list"
  default_ttl :: int

definition session_manager_new :: "int \<Rightarrow> session_manager" where
  "session_manager_new ttl = \<lparr>sessions = [], templates = [], rate_limiters = [], default_ttl = ttl\<rparr>"

definition put_session :: "session_manager \<Rightarrow> string \<Rightarrow> session \<Rightarrow> session_manager" where
  "put_session m sid s = m\<lparr>sessions := AList.update sid s (sessions m)\<rparr>"

definition put_limiter :: "int \<Rightarrow> session_manager \<Rightarrow> string \<Rightarrow> u32 option \<Rightarrow> session_manager" where
  "put_limiter now m sid r = (case r of
      Some l \<Rightarrow> m\<lparr>rate_limiters := AList.update sid (rate_limiter_new now l) (rate_limiters m)\<rparr>
    | None \<Rightarrow> m)"

definition create_session ::
  "token_env \<Rightarrow> int \<Rightarrow> bytes \<Rightarrow> bytes \<Rightarrow> session_manager \<Rightarrow> client_identity \<Rightarrow> session_manager \<times> session \<times> string" where
  "create_session E now rid rtok m who =
     (case session_create E now rid rtok who (default_ttl m) of (s, tok) \<Rightarrow>
        (put_session m (sess_id s) s, s, tok))"

definition create_session_with_metadata :: "token_env \<Rightarrow> int \<Rightarrow> bytes \<Rightarrow> bytes \<Rightarrow> session_manager \<Rightarrow> client_identity \<Rightarrow>
  string option \<Rightarrow> string option \<Rightarrow> string option \<Rightarrow> session_manager \<times> session \<times> string" where
  "create_session_with_metadata E now rid rtok m who ip ua fp =
     (case new_with_metadata E now rid rtok who (default_ttl m) ip ua fp of (s, tok) \<Rightarrow>
        (put_session m (sess_id s) s, s, tok))"

definition create_scoped_session :: "token_env \<Rightarrow> int \<Rightarrow> int \<Rightarrow> bytes \<Rightarrow> bytes \<Rightarrow> session_manager \<Rightarrow> client_identity \<Rightarrow>
  session_scope \<Rightarrow> int option \<Rightarrow> session_manager \<times> session \<times> string" where
  "create_scoped_session E now now2 rid rtok m who sc ttl =
     (case create_with_scope E now rid rtok who (case ttl of Some t \<Rightarrow> t | None \<Rightarrow> default_ttl m) sc of (s, tok) \<Rightarrow>
        (put_session (put_limiter now2 m (sess_id s) (rate_limit sc)) (sess_id s) s, s, tok))"

definition create_session_from_template :: "token_env \<Rightarrow> int \<Rightarrow> int \<Rightarrow> bytes \<Rightarrow> bytes \<Rightarrow> session_manager \<Rightarrow>
  client_identity \<Rightarrow> string \<Rightarrow> session_manager \<times> (auth_error, session \<times> string) res" where
  "create_session_from_template E now now2 rid rtok m who tid =
     (case map_of (templates m) tid of
        None \<Rightarrow> (m, Inl (InvalidSession (''Template not found: '' @ tid)))
      | Some t \<Rightarrow>
          (case create_from_template E now rid rtok who t of (s, tok) \<Rightarrow>
             (put_session (put_limiter now2 m (sess_id s) (rate_limit (tmpl_scope t))) (sess_id s) s, Inr (s, tok))))"

text \<open>The clock is read for the expiry check (\<open>now\<close>), for the remaining lifetime (\<open>now2\<close>), for the new session
  (\<open>now3\<close>) and for its rate limiter (\<open>now4\<close>).\<close>

definition delegated_session :: "token_env \<Rightarrow> int \<Rightarrow> bytes \<Rightarrow> string \<Rightarrow> session \<Rightarrow> string \<Rightarrow> session_scope \<Rightarrow> int \<Rightarrow> session" where
  "delegated_session E now3 rid tok parent pid sc ttl =
     \<lparr>sess_id = generate_session_id E rid, identity = identity parent, created_at = now3, last_accessed = now3,
      expires_at = now3 + ttl * NANOS, token_hash = hash_token E tok, operation_count = 0,
      tls_fingerprint = tls_fingerprint parent, client_ip = client_ip parent, user_agent = user_agent parent,
      sess_scope = Some sc, parent_session_id = Some pid, delegation_depth = delegation_depth parent + 1,
      max_delegation_depth = max_delegation_depth parent, allow_delegation = 1 < remaining_delegation_depth parent,
      template_id = template_id parent\<rparr>"

definition delegate_session :: "token_env \<Rightarrow> int \<Rightarrow> int \<Rightarrow> int \<Rightarrow> int \<Rightarrow> bytes \<Rightarrow> bytes \<Rightarrow> session_manager \<Rightarrow> string \<Rightarrow>
  session_scope \<Rightarrow> int \<Rightarrow> session_manager \<times> (auth_error, session \<times> string) res" where
  "delegate_session E now now2 now3 now4 rid rtok m pid restricted ttl =
     (case map_of (sessions m) pid of
        None \<Rightarrow> (m, Inl (InvalidSession ''Parent session not found''))
      | Some parent \<Rightarrow>
          if \<not> can_delegate parent then (m, Inl (Unauthorized ''Session cannot delegate''))
          else if is_expired now parent then (m, Inl SessionExpired)
          else let
              parent_remaining = max (num_seconds (expires_at parent - now2)) 0;
              effective_ttl = min ttl parent_remaining;
              effective_scope = (case sess_scope parent of
                  Some ps \<Rightarrow> scope_intersect ps restricted | None \<Rightarrow> restricted)
            in if (case sess_scope parent of Some ps \<Rightarrow> \<not> is_subset_of restricted ps | None \<Rightarrow> False)
               then (m, Inl (Unauthorized ''Delegated scope must be subset of parent scope''))
               else let
                   tok = token_new E rtok;
                   delegated = delegated_session E now3 rid tok parent pid effective_scope effective_ttl;
                   m1 = put_limiter now4 m (sess_id delegated) (rate_limit effective_scope)
                 in (put_session m1 (sess_id delegated) delegated, Inr (delegated, tok)))"

definition check_rate_limit :: "int \<Rightarrow> session_manager \<Rightarrow> string \<Rightarrow> session_manager \<times> bool" where
  "check_rate_limit now m sid =
     (case map_of (rate_limiters m) sid of
        None \<Rightarrow> (m, True)
      | Some r \<Rightarrow> (case check_and_increment now r of (r', res) \<Rightarrow>
          (m\<lparr>rate_limiters := AList.update sid r' (rate_limiters m)\<rparr>, \<not> isl res)))"

definition use_session :: "int \<Rightarrow> session_manager \<Rightarrow> string \<Rightarrow> session \<Rightarrow> session_manager \<times> (auth_error, session) res" where
  "use_session now m sid s =
     (let s' = touch now (fst (increment_operation s)) in (put_session m sid s', Inr s'))"

definition validate_scoped_session :: "token_env \<Rightarrow> int \<Rightarrow> int \<Rightarrow> int \<Rightarrow> permission option \<Rightarrow> string option \<Rightarrow> session_manager \<Rightarrow>
  string \<Rightarrow> string \<Rightarrow> session_manager \<times> (auth_error, session) res" where
  "validate_scoped_session E now now2 now3 operation key m sid tok =
     (case map_of (sessions m) sid of
        None \<Rightarrow> (m, Inl (InvalidSession ''Session not found''))
      | Some s \<Rightarrow>
          if is_expired now s then (m, Inl SessionExpired)
          else if \<not> verify_token E s tok then (m, Inl (InvalidSession ''Invalid session token''))
          else if is_operation_limit_reached s then (m, Inl (InvalidSession ''Operation limit reached''))
          else case check_rate_limit now2 m sid of (m1, allowed) \<Rightarrow>
            if \<not> allowed then (m1, Inl RateLimited)
            else case operation of
              Some op \<Rightarrow>
                if \<not> is_operation_allowed s op
                then (m1, Inl (PermissionDenied (''Operation '' @ permission_str op @ '' not allowed by session scope'')))
                else (case key of
                    Some k \<Rightarrow>
                      if \<not> is_key_allowed s k
                      then (m1, Inl (PermissionDenied (''Key '' @ k @ '' not allowed by session scope'')))
                      else use_session now3 m1 sid s
                  | None \<Rightarrow> use_session now3 m1 sid s)
            | None \<Rightarrow>
                (case key of
                    Some k \<Rightarrow>
                      if \<not> is_key_allowed s k
                      then (m1, Inl (PermissionDenied (''Key '' @ k @ '' not allowed by session scope'')))
                      else use_session now3 m1 sid s
                  | None \<Rightarrow> use_session now3 m1 sid s))"

definition register_template :: "session_manager \<Rightarrow> session_template \<Rightarrow> session_manager \<times> (auth_error, unit) res" where
  "register_template m t =
     (if map_of (templates m) (tmpl_id t) \<noteq> None
      then (m, Inl (InvalidSession (''Template already exists: '' @ tmpl_id t)))
      else (m\<lparr>templates := AList.update (tmpl_id t) t (templates m)\<rparr>, Inr ()))"

definition update_template :: "session_manager \<Rightarrow> session_template \<Rightarrow> session_manager \<times> (auth_error, unit) res" where
  "update_template m t =
     (if map_of (templates m) (tmpl_id t) = None
      then (m, Inl (InvalidSession (''Template not found: '' @ tmpl_id t)))
      else (m\<lparr>templates := AList.update (tmpl_id t) t (templates m)\<rparr>, Inr ()))"

definition delete_template :: "session_manager \<Rightarrow> string \<Rightarrow> session_manager \<times> (auth_error, unit) res" where
  "delete_template m tid =
     (if map_of (templates m) tid = None then (m, Inl (InvalidSession (''Template not found: '' @ tid)))
      else (m\<lparr>templates := AList.delete tid (templates m)\<rparr>, Inr ()))"

definition get_delegated_sessions :: "(string \<Rightarrow> int) \<Rightarrow> session_manager \<Rightarrow> string \<Rightarrow> session list" where
  "get_delegated_sessions now m pid =
     map snd (filter (\<lambda>(k, s). parent_session_id s = Some pid \<and> is_valid (now k) s) (sessions m))"

text \<open>The work list of the cascade; a work list that grows for ever has no value.\<close>

definition children_of :: "(string \<times> session) list \<Rightarrow> string \<Rightarrow> string list" where
  "children_of ss pid = map (\<lambda>(_, s). sess_id s) (filter (\<lambda>(_, s). parent_session_id s = Some pid) ss)"

partial_function (option) cascade_loop :: "(string \<times> session) list \<Rightarrow> string list \<Rightarrow> nat \<Rightarrow> string list option" where
  "cascade_loop ss to_revoke i =
     (if i < length to_revoke then cascade_loop ss (to_revoke @ children_of ss (to_revoke ! i)) (i + 1)
      else Some to_revoke)"

declare cascade_loop.simps [code]

definition revoke_one :: "string \<Rightarrow> session_manager \<times> nat \<Rightarrow> session_manager \<times> nat" where
  "revoke_one sid = (\<lambda>(m, n).
     if map_of (sessions m) sid = None then (m, n)
     else (m\<lparr>sessions := AList.delete sid (sessions m), rate_limiters := AList.delete sid (rate_limiters m)\<rparr>, n + 1))"

definition revoke_session_cascade :: "session_manager \<Rightarrow> string \<Rightarrow> (session_manager \<times> nat) option" where
  "revoke_session_cascade m sid =
     map_option (\<lambda>ids. fold revoke_one ids (m, 0)) (cascade_loop (sessions m) [sid] 0)"

definition get_session :: "session_manager \<Rightarrow> string \<Rightarrow> (auth_error, session) res" where
  "get_session m sid = ok_or (InvalidSession ''Session not found'') (map_of (sessions m) sid)"

definition validate_session :: "int \<Rightarrow> int \<Rightarrow> session_manager \<Rightarrow> string \<Rightarrow> session_manager \<times> (auth_error, session) res" where
  "validate_session now now2 m sid =
     (case map_of (sessions m) sid of
        None \<Rightarrow> (m, Inl (InvalidSession ''Session not found''))
      | Some s \<Rightarrow>
          if is_expired now s then (m, Inl SessionExpired)
          else let s' = touch now2 s in (put_session m sid s', Inr s'))"

definition validate_session_with_token ::
  "token_env \<Rightarrow> int \<Rightarrow> int \<Rightarrow> session_manager \<Rightarrow> string \<Rightarrow> string \<Rightarrow> session_manager \<times> (auth_error, session) res" where
  "validate_session_with_token E now now2 m sid tok =
     (case map_of (sessions m) sid of
        None \<Rightarrow> (m, Inl (InvalidSession ''Session not found''))
      | Some s \<Rightarrow>
          if is_expired now s then (m, Inl SessionExpired)
          else if \<not> verify_token E s tok then (m, Inl (InvalidSession ''Invalid session token''))
          else use_session now2 m sid s)"

definition mismatch :: "string option \<Rightarrow> string option \<Rightarrow> bool" where
  "mismatch stored current = (case (stored, current) of (Some a, Some b) \<Rightarrow> a \<noteq> b | _ \<Rightarrow> False)"

definition validate_session_with_metadata :: "token_env \<Rightarrow> int \<Rightarrow> int \<Rightarrow> string option \<Rightarrow> string option \<Rightarrow> string option \<Rightarrow>
  session_manager \<Rightarrow> string \<Rightarrow> string \<Rightarrow> session_manager \<times> (auth_error, session) res" where
  "validate_session_with_metadata E now now2 ip ua fp m sid tok =
     (case map_of (sessions m) sid of
        None \<Rightarrow> (m, Inl (InvalidSession ''Session not found''))
      | Some s \<Rightarrow>
          if is_expired now s then (m, Inl SessionExpired)
          else if \<not> verify_token E s tok then (m, Inl (InvalidSession ''Invalid session token''))
          else if mismatch (client_ip s) ip then (m, Inl (InvalidSession ''Session validation failed''))
          else if mismatch (user_agent s) ua then (m, Inl (InvalidSession ''Session validation failed''))
          else if mismatch (tls_fingerprint s) fp then (m, Inl (InvalidSession ''Session validation failed''))
          else use_session now2 m sid s)"

definition delete_session :: "session_manager \<Rightarrow> string \<Rightarrow> session_manager \<times> (auth_error, unit) res" where
  "delete_session m sid =
     (if map_of (sessions m) sid = None then (m, Inl (InvalidSession ''Session not found''))
      else (m\<lparr>sessions := AList.delete sid (sessions m), rate_limiters := AList.delete sid (rate_limiters m)\<rparr>, Inr ()))"

definition extend_session :: "session_manager \<Rightarrow> string \<Rightarrow> int \<Rightarrow> session_manager \<times> (auth_error, unit) res" where
  "extend_session m sid secs =
     (case map_of (sessions m) sid of
        None \<Rightarrow> (m, Inl (InvalidSession ''Session not found''))
      | Some s \<Rightarrow> (put_session m sid (extend_expiry s secs), Inr ()))"

definition rotate_session_token ::
  "token_env \<Rightarrow> bytes \<Rightarrow> session_manager \<Rightarrow> string \<Rightarrow> session_manager \<times> (auth_error, string) res" where
  "rotate_session_token E rtok m sid =
     (case map_of (sessions m) sid of
        None \<Rightarrow> (m, Inl (InvalidSession ''Session not found''))
      | Some s \<Rightarrow> (case rotate_token E rtok s of (s', tok) \<Rightarrow> (put_session m sid s', Inr tok)))"

fun rotate_entries :: "token_env \<Rightarrow> (string \<Rightarrow> bytes) \<Rightarrow> string \<Rightarrow> (string \<times> session) list \<Rightarrow>
  (string \<times> session) list \<times> (string \<times> string) list" where
  "rotate_entries E rnd cn [] = ([], [])"
| "rotate_entries E rnd cn ((k, s) # es) =
     (case rotate_entries E rnd cn es of (es', results) \<Rightarrow>
        if common_name (identity s) = cn then
          (case rotate_token E (rnd k) s of (s', tok) \<Rightarrow> ((k, s') # es', (sess_id s', tok) # results))
        else ((k, s) # es', results))"

definition rotate_client_tokens ::
  "token_env \<Rightarrow> (string \<Rightarrow> bytes) \<Rightarrow> session_manager \<Rightarrow> string \<Rightarrow> session_manager \<times> (string \<times> string) list" where
  "rotate_client_tokens E rnd m cn =
     (case rotate_entries E rnd cn (sessions m) of (es, results) \<Rightarrow> (m\<lparr>sessions := es\<rparr>, results))"

definition cleanup_expired :: "(string \<Rightarrow> int) \<Rightarrow> (string \<Rightarrow> int) \<Rightarrow> session_manager \<Rightarrow> session_manager \<times> nat" where
  "cleanup_expired now now2 m = (let
       expired_ids = map (\<lambda>(_, s). sess_id s) (filter (\<lambda>(k, s). \<not> is_valid (now k) s) (sessions m));
       kept = filter (\<lambda>(k, s). is_valid (now2 k) s) (sessions m);
       removed = length (filter (\<lambda>(k, s). \<not> is_valid (now2 k) s) (sessions m))
     in (m\<lparr>sessions := kept, rate_limiters := fold AList.delete expired_ids (rate_limiters m)\<rparr>, removed))"

definition get_active_sessions :: "(string \<Rightarrow> int) \<Rightarrow> session_manager \<Rightarrow> session list" where
  "get_active_sessions now m = map snd (filter (\<lambda>(k, s). is_valid (now k) s) (sessions m))"

definition get_client_sessions :: "(string \<Rightarrow> int) \<Rightarrow> session_manager \<Rightarrow> string \<Rightarrow> session list" where
  "get_client_sessions now m cn =
     map snd (filter (\<lambda>(k, s). common_name (identity s) = cn \<and> is_valid (now k) s) (sessions m))"

definition active_session_count :: "(string \<Rightarrow> int) \<Rightarrow> session_manager \<Rightarrow> nat" where
  "active_session_count now m = length (filter (\<lambda>(k, s). is_valid (now k) s) (sessions m))"

definition delete_client_sessions :: "session_manager \<Rightarrow> string \<Rightarrow> session_manager \<times> nat" where
  "delete_client_sessions m cn =
     (m\<lparr>sessions := filter (\<lambda>(_, s). common_name (identity s) \<noteq> cn) (sessions m)\<rparr>,
      length (filter (\<lambda>(_, s). common_name (identity s) = cn) (sessions m)))"

section \<open>The session checks of the service\<close>

definition service_validate_session ::
  "int \<Rightarrow> int \<Rightarrow> session_manager \<Rightarrow> string \<Rightarrow> session_manager \<times> (auth_error, client_identity) res" where
  "service_validate_session now now2 m sid =
     (case validate_session now now2 m sid of (m', r) \<Rightarrow> (m', bind_res r (\<lambda>s. Inr (identity s))))"

definition authorize_session :: "int \<Rightarrow> int \<Rightarrow> auth_state \<Rightarrow> session_manager \<Rightarrow> string \<Rightarrow> string \<Rightarrow> string \<Rightarrow> permission \<Rightarrow>
  session_manager \<times> (auth_error, client_identity) res" where
  "authorize_session now now2 a m sid key ns p =
     (case service_validate_session now now2 m sid of (m', r) \<Rightarrow>
        (m', bind_res r (\<lambda>who. bind_res (authorize_key_access a who key ns p) (\<lambda>_. Inr who))))"

end
