(* ===== verification/Session_Properties.thy ===== *)
theory Session_Properties
  imports Sessions "HOL-Library.Multiset"
begin

text \<open>
  Properties of sessions: delegation never widens what a session may do, the cascading revocation returns and
  removes exactly the descendants, the rate limiter bounds every interval of a second, and a token stops
  working once it is rotated, the session is deleted or it has expired.
\<close>

section \<open>Scopes\<close>

lemma permits_meet: "permits (meet_list a b) x \<longleftrightarrow> permits a x \<and> permits b x"
  by (auto simp: permits_def meet_list_def split: option.splits)

definition below :: "'a::linorder option \<Rightarrow> 'a \<Rightarrow> bool" where
  "below b n = (case b of Some x \<Rightarrow> n \<le> x | None \<Rightarrow> True)"

lemma below_meet: "below (meet_bound a b) n \<longleftrightarrow> below a n \<and> below b n"
  by (auto simp: below_def meet_bound_def split: option.splits)

definition session_limit :: "(session_scope \<Rightarrow> 'a option) \<Rightarrow> session \<Rightarrow> 'a option" where
  "session_limit f s = (case sess_scope s of Some sc \<Rightarrow> f sc | None \<Rightarrow> None)"

lemmas scope_checks = is_operation_allowed_def is_key_allowed_def is_namespace_allowed_def
  scope_operation_allowed_def scope_key_allowed_def scope_namespace_allowed_def

lemma num_seconds_le: "0 \<le> num_seconds d \<Longrightarrow> num_seconds d * NANOS \<le> max d 0"
  by (auto simp: num_seconds_def NANOS_def split: if_splits)

lemma remaining_le: "max (num_seconds d) 0 * NANOS \<le> max d 0"
  using num_seconds_le [of d] by (cases "0 \<le> num_seconds d") (auto simp: max_def)

section \<open>Delegation\<close>

text \<open>C20: A delegated session has the identity of its parent; it allows exactly the operations, keys and namespaces
  that both the parent and the requested scope allow; its bounds on operations and rate are at most both; it is one level
  deeper and not below the deepest level allowed; and it ends no later than its parent, up to the time that passes
  between the two clock readings that compute its end.\<close>

theorem delegation_never_widens:
  assumes "delegate_session E now now2 now3 now4 rid rtok m pid sc ttl = (m', Inr (s, tok))"
  shows "\<exists>parent. map_of (sessions m) pid = Some parent \<and> expires_at parent \<ge> now \<and> identity s = identity parent \<and>
    (\<forall>p. is_operation_allowed s p \<longleftrightarrow> is_operation_allowed parent p \<and> scope_operation_allowed sc p) \<and>
    (\<forall>k. is_key_allowed s k \<longleftrightarrow> is_key_allowed parent k \<and> scope_key_allowed sc k) \<and>
    (\<forall>ns. is_namespace_allowed s ns \<longleftrightarrow> is_namespace_allowed parent ns \<and> scope_namespace_allowed sc ns) \<and>
    (\<forall>n. below (session_limit max_operations s) n \<longleftrightarrow>
       below (session_limit max_operations parent) n \<and> below (max_operations sc) n) \<and>
    (\<forall>n. below (session_limit rate_limit s) n \<longleftrightarrow>
       below (session_limit rate_limit parent) n \<and> below (rate_limit sc) n) \<and>
    unat (delegation_depth s) = unat (delegation_depth parent) + 1 \<and>
    unat (delegation_depth s) \<le> unat (max_delegation_depth parent) \<and>
    max_delegation_depth s = max_delegation_depth parent \<and>
    expires_at s \<le> max (expires_at parent) now2 + (now3 - now2)"
proof -
  obtain parent where p: "map_of (sessions m) pid = Some parent" "can_delegate parent" "\<not> is_expired now parent"
    and s: "s = delegated_session E now3 rid tok parent pid
      (case sess_scope parent of Some ps \<Rightarrow> scope_intersect ps sc | None \<Rightarrow> sc)
      (min ttl (max (num_seconds (expires_at parent - now2)) 0))"
    using assms by (auto simp: delegate_session_def Let_def split: option.splits if_splits)
  have "delegation_depth parent < max_delegation_depth parent" using p(2) by (simp add: can_delegate_def)
  then have d: "unat (delegation_depth parent + 1) = unat (delegation_depth parent) + 1"
      "unat (delegation_depth parent) + 1 \<le> unat (max_delegation_depth parent)"
    using unsigned_less [where ?'a = nat, of "max_delegation_depth parent"]
    by (simp_all add: word_less_nat_alt unat_word_ariths)
  have "min ttl (max (num_seconds (expires_at parent - now2)) 0) * NANOS \<le> max (expires_at parent - now2) 0"
    using remaining_le [of "expires_at parent - now2"] by (auto simp: min_def NANOS_def)
  then have e: "expires_at s \<le> max (expires_at parent) now2 + (now3 - now2)"
    by (auto simp: s delegated_session_def max_def split: if_splits)
  show ?thesis
    using p(1,3) d e by (intro exI [of _ parent])
      (cases "sess_scope parent"; simp add: s delegated_session_def scope_checks scope_intersect_def permits_meet
        session_limit_def below_meet below_def [of None] is_expired_def permits_def [of None])
qed

definition sample_env :: token_env where
  "sample_env = \<lparr>te_sha256 = (\<lambda>b. b), te_hex = map (\<lambda>b. char_of (unat b))\<rparr>"

definition sample_user :: client_identity where
  "sample_user = \<lparr>common_name = ''svc'', organization = None, id_namespace = ''prod'', id_roles = [User],
     serial_number = ''1''\<rparr>"

definition sample_template :: session_template where
  "sample_template = template_with_delegation 0
     (template_with_scope 0 (template_new 0 ''t'' ''T'') (with_operations scope_new [Sign, Encrypt])) 2"

definition sample_manager :: session_manager where
  "sample_manager = fst (create_session_from_template sample_env 10 10 [1] [7]
     (fst (register_template (session_manager_new 60) sample_template)) sample_user ''t'')"

definition sample_id :: "byte \<Rightarrow> string" where
  "sample_id b = [char_of (unat b)]"

definition sample_delegated :: session_manager where
  "sample_delegated = fst (delegate_session sample_env 11 11 12 12 [2] [8] sample_manager (sample_id 1)
     (with_operations scope_new [Sign]) 5000)"

lemmas sample_simps = sample_delegated_def sample_manager_def sample_id_def sample_template_def sample_user_def
  sample_env_def template_with_delegation_def template_with_scope_def template_new_def scope_new_def with_operations_def
  create_session_from_template_def create_from_template_def session_create_def register_template_def
  session_manager_new_def delegate_session_def delegated_session_def put_session_def put_limiter_def can_delegate_def
  is_expired_def is_subset_of_def list_within_def bound_within_def scope_intersect_def meet_list_def meet_bound_def
  generate_session_id_def token_new_def hash_token_def remaining_delegation_depth_def NANOS_def num_seconds_def Let_def

theorem delegation_never_widens_witness:
  "\<exists>m s tok. delegate_session sample_env 11 11 12 12 [2] [8] sample_manager (sample_id 1)
      (with_operations scope_new [Sign]) 5000 = (m, Inr (s, tok)) \<and>
    \<not> is_operation_allowed s Encrypt \<and> delegation_depth s = 1 \<and> unat (delegation_depth s) \<le> 2"
proof -
  obtain m s tok where r: "delegate_session sample_env 11 11 12 12 [2] [8] sample_manager (sample_id 1)
      (with_operations scope_new [Sign]) 5000 = (m, Inr (s, tok))"
    and d: "delegation_depth s = 1"
    by (auto simp: sample_simps)
  have "\<not> is_operation_allowed s Encrypt"
    using delegation_never_widens [OF r] by (auto simp: scope_operation_allowed_def permits_def with_operations_def)
  with r d show ?thesis by auto
qed

section \<open>The forest of sessions\<close>

text \<open>Every session is filed under its own id, and a delegated session is deeper than its parent, where that is present.\<close>

definition sessions_wf :: "(string \<times> session) list \<Rightarrow> bool" where
  "sessions_wf ss \<longleftrightarrow> distinct (map fst ss) \<and>
     (\<forall>k s. (k, s) \<in> set ss \<longrightarrow> sess_id s = k \<and>
        (\<forall>p. parent_session_id s = Some p \<longrightarrow> 0 < delegation_depth s \<and>
           (\<forall>ps. (p, ps) \<in> set ss \<longrightarrow> delegation_depth ps < delegation_depth s)))"

definition same_place :: "session \<Rightarrow> session \<Rightarrow> bool" where
  "same_place s t \<longleftrightarrow> sess_id s = sess_id t \<and> parent_session_id s = parent_session_id t \<and>
     delegation_depth s = delegation_depth t"

lemma in_update:
  assumes "distinct (map fst al)"
  shows "(k', v') \<in> set (AList.update k v al) \<longleftrightarrow> (if k' = k then v' = v else (k', v') \<in> set al)"
proof -
  have "(k', v') \<in> set (AList.update k v al) \<longleftrightarrow> map_of (AList.update k v al) k' = Some v'"
    using assms by (simp add: map_of_eq_Some_iff distinct_update)
  also have "\<dots> \<longleftrightarrow> (if k' = k then v' = v else map_of al k' = Some v')"
    by (auto simp: update_conv')
  finally show ?thesis using assms by simp
qed

lemma sessions_wf_subset: "sessions_wf ss \<Longrightarrow> set ss' \<subseteq> set ss \<Longrightarrow> distinct (map fst ss') \<Longrightarrow> sessions_wf ss'"
  unfolding sessions_wf_def by blast

lemma sessions_wf_filter: "sessions_wf ss \<Longrightarrow> sessions_wf (filter P ss)"
  by (rule sessions_wf_subset) (auto simp: sessions_wf_def distinct_map_filter)

lemma sessions_wf_delete: "sessions_wf ss \<Longrightarrow> sessions_wf (AList.delete k ss)"
  by (simp add: AList.delete_eq sessions_wf_filter)

lemma sessions_wf_root:
  assumes "sessions_wf ss" and "sess_id s = k" and "parent_session_id s = None" and "delegation_depth s = 0"
  shows "sessions_wf (AList.update k s ss)"
  using assms unfolding sessions_wf_def by (auto simp: in_update distinct_update split: if_splits)

lemma sessions_wf_places:
  assumes wf: "sessions_wf ss" and d: "distinct (map fst ss')"
    and ex: "\<And>j u. (j, u) \<in> set ss' \<Longrightarrow> \<exists>u'. (j, u') \<in> set ss \<and> same_place u u'"
  shows "sessions_wf ss'"
  unfolding sessions_wf_def
proof (intro conjI allI impI)
  show "distinct (map fst ss')" by (rule d)
next
  fix j u assume "(j, u) \<in> set ss'"
  with ex show "sess_id u = j" using wf unfolding sessions_wf_def same_place_def by metis
next
  fix j u p assume "(j, u) \<in> set ss'" "parent_session_id u = Some p"
  with ex show "0 < delegation_depth u" using wf unfolding sessions_wf_def same_place_def by metis
next
  fix j u p v
  assume "(j, u) \<in> set ss'" "parent_session_id u = Some p" "(p, v) \<in> set ss'"
  with ex show "delegation_depth v < delegation_depth u" using wf unfolding sessions_wf_def same_place_def by metis
qed

lemma sessions_wf_same_place:
  assumes wf: "sessions_wf ss" and old: "map_of ss k = Some s" and same: "same_place t s"
  shows "sessions_wf (AList.update k t ss)"
proof -
  have d: "distinct (map fst ss)" and k: "(k, s) \<in> set ss"
    using wf map_of_SomeD [OF old] by (simp_all add: sessions_wf_def)
  have ex: "\<exists>u'. (j, u') \<in> set ss \<and> same_place u u'" if "(j, u) \<in> set (AList.update k t ss)" for j u
    using that k same by (auto simp: in_update [OF d] same_place_def split: if_splits)
  show ?thesis by (rule sessions_wf_places [OF wf _ ex]) (simp_all add: d distinct_update)
qed

lemma sessions_wf_map:
  assumes wf: "sessions_wf ss" and same: "\<And>k s. same_place (f k s) s"
  shows "sessions_wf (map (\<lambda>(k, s). (k, f k s)) ss)"
proof -
  let ?ss = "map (\<lambda>(k, s). (k, f k s)) ss"
  have "map fst ?ss = map fst ss" by (simp add: case_prod_beta)
  with wf have d: "distinct (map fst ?ss)" by (simp only: sessions_wf_def)
  have ex: "\<exists>u'. (j, u') \<in> set ss \<and> same_place u u'" if "(j, u) \<in> set ?ss" for j u
    using that same by auto
  show ?thesis by (rule sessions_wf_places [OF wf d ex])
qed

definition fresh_id :: "(string \<times> session) list \<Rightarrow> string \<Rightarrow> bool" where
  "fresh_id ss i \<longleftrightarrow> i \<notin> fst ` set ss \<and> (\<forall>k s. (k, s) \<in> set ss \<longrightarrow> parent_session_id s \<noteq> Some i)"

lemma sessions_wf_child:
  assumes wf: "sessions_wf ss" and "map_of ss p = Some ps" and "fresh_id ss (sess_id s)"
    and "parent_session_id s = Some p" and "delegation_depth ps < delegation_depth s"
  shows "sessions_wf (AList.update (sess_id s) s ss)"
proof -
  have d: "distinct (map fst ss)" and p: "(p, ps) \<in> set ss"
    using wf map_of_SomeD [OF assms(2)] by (simp_all add: sessions_wf_def)
  have pos: "0 < delegation_depth s"
    using assms(5) word_zero_le [of "delegation_depth ps"] by (rule order.strict_trans1 [rotated])
  have old: "parent_session_id u \<noteq> Some (sess_id s)" "j \<noteq> sess_id s" if "(j, u) \<in> set ss" for j u
    using that assms(3) by (auto simp: fresh_id_def image_iff)
  have only: "v = ps" if "(p, v) \<in> set ss" for v
    using eq_key_imp_eq_value [OF d that p] .
  show ?thesis unfolding sessions_wf_def
  proof (intro conjI allI impI)
    show "distinct (map fst (AList.update (sess_id s) s ss))" using d by (simp add: distinct_update)
  next
    fix j u assume "(j, u) \<in> set (AList.update (sess_id s) s ss)"
    then show "sess_id u = j" using wf by (auto simp: in_update [OF d] sessions_wf_def split: if_splits)
  next
    fix j u q assume "(j, u) \<in> set (AList.update (sess_id s) s ss)" "parent_session_id u = Some q"
    then show "0 < delegation_depth u"
      using wf pos by (auto simp: in_update [OF d] sessions_wf_def split: if_splits)
  next
    fix j u q v
    assume u: "(j, u) \<in> set (AList.update (sess_id s) s ss)" "parent_session_id u = Some q"
      and v: "(q, v) \<in> set (AList.update (sess_id s) s ss)"
    show "delegation_depth v < delegation_depth u"
    proof (cases "j = sess_id s")
      case True
      then have "u = s" "q = p" using u assms(4) by (auto simp: in_update [OF d])
      then show ?thesis using v only old [OF p] assms(5) by (auto simp: in_update [OF d] split: if_splits)
    next
      case False
      then have "(j, u) \<in> set ss" using u by (simp add: in_update [OF d])
      then show ?thesis using u(2) v old wf by (auto simp: in_update [OF d] sessions_wf_def split: if_splits)
    qed
  qed
qed

section \<open>Runs of the manager\<close>

text \<open>One step of a manager is any of its operations with any arguments; only the id drawn for a delegated session
  is assumed new.\<close>

inductive session_step :: "token_env \<Rightarrow> session_manager \<Rightarrow> session_manager \<Rightarrow> bool" for E where
  "session_step E m (fst (create_session E now rid rtok m who))"
| "session_step E m (fst (create_session_with_metadata E now rid rtok m who ip ua fp))"
| "session_step E m (fst (create_scoped_session E now now2 rid rtok m who sc ttl))"
| "session_step E m (fst (create_session_from_template E now now2 rid rtok m who tid))"
| "fresh_id (sessions m) (generate_session_id E rid) \<Longrightarrow>
     session_step E m (fst (delegate_session E now now2 now3 now4 rid rtok m pid sc secs))"
| "session_step E m (fst (validate_scoped_session E now now2 now3 operation key m sid tok))"
| "session_step E m (fst (register_template m t))"
| "session_step E m (fst (update_template m t))"
| "session_step E m (fst (delete_template m tid))"
| "revoke_session_cascade m sid = Some (m', n) \<Longrightarrow> session_step E m m'"
| "session_step E m (fst (validate_session now now2 m sid))"
| "session_step E m (fst (validate_session_with_token E now now2 m sid tok))"
| "session_step E m (fst (validate_session_with_metadata E now now2 ip ua fp m sid tok))"
| "session_step E m (fst (delete_session m sid))"
| "session_step E m (fst (extend_session m sid secs))"
| "session_step E m (fst (rotate_session_token E rtok m sid))"
| "session_step E m (fst (rotate_client_tokens E rnd m cn))"
| "session_step E m (fst (cleanup_expired clk clk2 m))"
| "session_step E m (fst (delete_client_sessions m cn))"

inductive session_run :: "token_env \<Rightarrow> session_manager \<Rightarrow> bool" for E where
  session_start: "session_run E (session_manager_new ttl)"
| session_next: "session_run E m \<Longrightarrow> session_step E m m' \<Longrightarrow> session_run E m'"

lemma sessions_put_limiter [simp]: "sessions (put_limiter now m sid r) = sessions m"
  by (simp add: put_limiter_def split: option.split)

lemma sessions_put_session [simp]: "sessions (put_session m sid s) = AList.update sid s (sessions m)"
  by (simp add: put_session_def)

lemma sessions_check_rate_limit [simp]: "sessions (fst (check_rate_limit now m sid)) = sessions m"
  by (simp add: check_rate_limit_def split: option.split prod.split)

lemma check_rate_limit_sessions: "check_rate_limit now m sid = (m1, b) \<Longrightarrow> sessions m1 = sessions m"
  using sessions_check_rate_limit [of now m sid] by simp

lemma use_session_wf:
  assumes "sessions_wf (sessions m)" and "map_of (sessions m) sid = Some s"
  shows "sessions_wf (sessions (fst (use_session now m sid s)))"
  using assms
  by (auto simp: use_session_def touch_def increment_operation_def same_place_def Let_def
      intro!: sessions_wf_same_place)

lemma rotate_entries_map:
  "fst (rotate_entries E rnd cn es) =
     map (\<lambda>(k, s). (k, if common_name (identity s) = cn then fst (rotate_token E (rnd k) s) else s)) es"
  by (induction E rnd cn es rule: rotate_entries.induct) (auto split: prod.splits)

lemma revoke_one_wf:
  "sessions_wf (sessions (fst mn)) \<Longrightarrow> sessions_wf (sessions (fst (revoke_one sid mn)))"
  by (auto simp: revoke_one_def sessions_wf_delete split: prod.splits)

lemma fold_revoke_wf: "sessions_wf (sessions (fst mn)) \<Longrightarrow> sessions_wf (sessions (fst (fold revoke_one ids mn)))"
  by (induction ids arbitrary: mn) (simp_all add: revoke_one_wf)

lemma delegate_session_wf:
  assumes wf: "sessions_wf (sessions m)" and fresh: "fresh_id (sessions m) (generate_session_id E rid)"
  shows "sessions_wf (sessions (fst (delegate_session E now now2 now3 now4 rid rtok m pid sc secs)))"
proof -
  have depth: "delegation_depth p < delegation_depth (delegated_session E now3 rid tok p pid sc' ttl)"
    if "can_delegate p" for p tok sc' ttl
  proof -
    have "delegation_depth p < max_delegation_depth p" using that by (simp add: can_delegate_def)
    then have "unat (delegation_depth p + 1) = unat (delegation_depth p) + 1"
      using unsigned_less [where ?'a = nat, of "max_delegation_depth p"]
      by (simp add: word_less_nat_alt unat_word_ariths)
    then show ?thesis by (simp add: delegated_session_def word_less_nat_alt)
  qed
  have child: "sessions_wf (AList.update (sess_id d) d (sessions m))"
    if "map_of (sessions m) pid = Some p" "can_delegate p" "d = delegated_session E now3 rid tok p pid sc' ttl"
    for p d tok sc' ttl
    using sessions_wf_child [OF wf that(1), of d] fresh depth [OF that(2)] that(3)
    by (simp add: delegated_session_def)
  show ?thesis
    using wf child by (simp add: delegate_session_def Let_def split: option.split)
qed

lemma validate_scoped_wf:
  assumes "sessions_wf (sessions m)"
  shows "sessions_wf (sessions (fst (validate_scoped_session E now now2 now3 operation key m sid tok)))"
proof (cases "map_of (sessions m) sid")
  case None
  with assms show ?thesis by (simp add: validate_scoped_session_def)
next
  case (Some s)
  obtain m1 b where c: "check_rate_limit now2 m sid = (m1, b)" by fastforce
  then have m1: "sessions m1 = sessions m" by (rule check_rate_limit_sessions)
  then have "sessions_wf (sessions (fst (use_session now3 m1 sid s)))"
    using assms Some by (intro use_session_wf) simp_all
  with assms Some c m1 show ?thesis
    by (simp add: validate_scoped_session_def split: option.split)
qed

lemma validations_wf:
  assumes "sessions_wf (sessions m)"
  shows "sessions_wf (sessions (fst (validate_session now now2 m sid)))"
    and "sessions_wf (sessions (fst (validate_session_with_token E now now2 m sid tok)))"
    and "sessions_wf (sessions (fst (validate_session_with_metadata E now now2 ip ua fp m sid tok)))"
    and "sessions_wf (sessions (fst (extend_session m sid secs)))"
    and "sessions_wf (sessions (fst (rotate_session_token E rtok m sid)))"
  using assms use_session_wf [OF assms]
  by (auto simp: validate_session_def validate_session_with_token_def validate_session_with_metadata_def
      extend_session_def rotate_session_token_def rotate_token_def extend_expiry_def touch_def Let_def same_place_def
      split: option.split intro!: sessions_wf_same_place)

lemma creations_wf:
  assumes "sessions_wf (sessions m)"
  shows "sessions_wf (sessions (fst (create_session E now rid rtok m who)))"
    and "sessions_wf (sessions (fst (create_session_with_metadata E now rid rtok m who ip ua fp)))"
    and "sessions_wf (sessions (fst (create_scoped_session E now now2 rid rtok m who sc ttl)))"
    and "sessions_wf (sessions (fst (create_session_from_template E now now2 rid rtok m who tid)))"
  using assms
  by (simp_all add: create_session_def create_session_with_metadata_def create_scoped_session_def
      create_session_from_template_def create_with_scope_def create_from_template_def new_with_metadata_def
      session_create_def Let_def sessions_wf_root split: option.split)

lemma session_step_wf: "session_step E m m' \<Longrightarrow> sessions_wf (sessions m) \<Longrightarrow> sessions_wf (sessions m')"
proof (induction rule: session_step.induct)
  case (10 m sid m' n)
  then obtain ids where "fold revoke_one ids (m, 0) = (m', n)" by (auto simp: revoke_session_cascade_def)
  with fold_revoke_wf [of "(m, 0)" ids] 10 show ?case by simp
next
  case (17 m rnd cn)
  then show ?case
    using rotate_entries_map [of E rnd cn "sessions m"]
    by (auto simp: rotate_client_tokens_def rotate_token_def same_place_def Let_def split: prod.split
        intro!: sessions_wf_map)
qed (simp_all add: creations_wf validations_wf validate_scoped_wf delegate_session_wf register_template_def
  update_template_def delete_template_def delete_session_def cleanup_expired_def delete_client_sessions_def Let_def
  sessions_wf_delete sessions_wf_filter)

lemma session_run_wf: "session_run E m \<Longrightarrow> sessions_wf (sessions m)"
proof (induction rule: session_run.induct)
  case (session_start ttl)
  show ?case by (simp add: session_manager_new_def sessions_wf_def)
next
  case (session_next m m')
  then show ?case by (blast intro: session_step_wf)
qed

section \<open>Cascading revocation\<close>

inductive descends :: "(string \<times> session) list \<Rightarrow> string \<Rightarrow> string \<Rightarrow> bool" for ss root where
  descends_root: "descends ss root root"
| descends_child: "descends ss root p \<Longrightarrow> (k, s) \<in> set ss \<Longrightarrow> parent_session_id s = Some p \<Longrightarrow> descends ss root (sess_id s)"

lemma set_children_of: "set (children_of ss p) = {sess_id s | k s. (k, s) \<in> set ss \<and> parent_session_id s = Some p}"
  by (force simp: children_of_def)

text \<open>The rank of an id falls from a session to its children.\<close>

definition id_rank :: "(string \<times> session) list \<Rightarrow> string \<Rightarrow> nat" where
  "id_rank ss i = (case map_of ss i of None \<Rightarrow> 2 ^ 32 | Some s \<Rightarrow> 2 ^ 32 - 1 - unat (delegation_depth s))"

lemma id_rank_child:
  assumes wf: "sessions_wf ss" and "c \<in> set (children_of ss p)"
  shows "id_rank ss c < id_rank ss p"
proof -
  obtain k s where s: "(k, s) \<in> set ss" "parent_session_id s = Some p" "c = sess_id s"
    using assms(2) by (auto simp: set_children_of)
  have c: "map_of ss c = Some s" using s wf by (simp add: sessions_wf_def)
  show ?thesis
  proof (cases "map_of ss p")
    case None
    then show ?thesis using c by (simp add: id_rank_def)
  next
    case (Some ps)
    then have "delegation_depth ps < delegation_depth s"
      using wf s map_of_SomeD [OF Some] by (simp add: sessions_wf_def)
    then show ?thesis
      using c Some unsigned_less [where ?'a = nat, of "delegation_depth s"]
      by (simp add: id_rank_def word_less_nat_alt)
  qed
qed

lemma cascade_loop_returns:
  assumes wf: "sessions_wf ss"
  shows "\<exists>ys. cascade_loop ss xs i = Some ys"
proof (induction "image_mset (id_rank ss) (mset (drop i xs))" arbitrary: xs i
    rule: wf_induct_rule [OF wf_mult [OF wf_less_than]])
  case 1
  show ?case
  proof (cases "i < length xs")
    case False
    then show ?thesis by (simp add: cascade_loop.simps)
  next
    case True
    let ?xs = "xs @ children_of ss (xs ! i)"
    have drop: "drop i xs = xs ! i # drop (i + 1) xs" using True by (simp add: Cons_nth_drop_Suc)
    have "(image_mset (id_rank ss) (mset (drop (i + 1) xs)) + image_mset (id_rank ss) (mset (children_of ss (xs ! i))),
        image_mset (id_rank ss) (mset (drop (i + 1) xs)) + {#id_rank ss (xs ! i)#}) \<in> mult less_than"
      by (rule one_step_implies_mult) (auto simp: id_rank_child [OF wf])
    then have "(image_mset (id_rank ss) (mset (drop (i + 1) ?xs)), image_mset (id_rank ss) (mset (drop i xs))) \<in> mult less_than"
      using True unfolding drop by simp
    from 1 [OF this] show ?thesis using True by (subst cascade_loop.simps) simp
  qed
qed

lemma cascade_loop_closed:
  assumes "cascade_loop ss xs i = Some ys" and "\<forall>j < i. set (children_of ss (xs ! j)) \<subseteq> set xs"
    and "i \<le> length xs" and "\<forall>x\<in>set xs. descends ss root x"
  shows "set xs \<subseteq> set ys \<and> (\<forall>y\<in>set ys. set (children_of ss y) \<subseteq> set ys \<and> descends ss root y)"
  using assms
proof (induction rule: cascade_loop.raw_induct [rotated, consumes 1, case_names loop])
  case (loop f ss xs i ys)
  show ?case
  proof (cases "i < length xs")
    case False
    with loop.prems loop.hyps have "xs = ys" "i = length xs" by auto
    then show ?thesis using loop.prems by (metis in_set_conv_nth order_refl)
  next
    case True
    let ?xs = "xs @ children_of ss (xs ! i)"
    have "f ss ?xs (i + 1) = Some ys" using loop.hyps True by simp
    moreover have "\<forall>j < i + 1. set (children_of ss (?xs ! j)) \<subseteq> set ?xs"
      using loop.prems True by (auto simp: nth_append less_Suc_eq)
    moreover have "\<forall>x\<in>set ?xs. descends ss root x"
      using loop.prems True by (auto simp: set_children_of intro: descends_child)
    ultimately show ?thesis using loop.IH [of ss ?xs "i + 1" ys] True by simp
  qed
qed

lemma length_filter_key:
  "distinct (map fst xs) \<Longrightarrow> length (filter (\<lambda>(k, _). k = i) xs) = (if i \<in> fst ` set xs then 1 else 0)"
  by (induction xs) (auto simp: filter_empty_conv image_iff)

lemma revoke_one_simps:
  "distinct (map fst (sessions m)) \<Longrightarrow> sessions (fst (revoke_one i (m, n))) = filter (\<lambda>(k, _). k \<noteq> i) (sessions m)"
  "distinct (map fst (sessions m)) \<Longrightarrow>
     snd (revoke_one i (m, n)) = n + length (filter (\<lambda>(k, _). k = i) (sessions m))"
proof -
  assume d: "distinct (map fst (sessions m))"
  show "sessions (fst (revoke_one i (m, n))) = filter (\<lambda>(k, _). k \<noteq> i) (sessions m)"
    by (auto simp: revoke_one_def AList.delete_eq map_of_eq_None_iff image_iff intro!: filter_cong filter_True [symmetric])
  show "snd (revoke_one i (m, n)) = n + length (filter (\<lambda>(k, _). k = i) (sessions m))"
    using d by (simp add: revoke_one_def map_of_eq_None_iff length_filter_key)
qed

lemma length_filter_split:
  "length (filter P xs) + length (filter Q (filter (\<lambda>x. \<not> P x) xs)) = length (filter (\<lambda>x. P x \<or> Q x) xs)"
  by (induction xs) auto

lemma fold_revoke_sessions:
  assumes "distinct (map fst (sessions m))"
  shows "sessions (fst (fold revoke_one ids (m, n))) = filter (\<lambda>(k, _). k \<notin> set ids) (sessions m)"
    and "snd (fold revoke_one ids (m, n)) = n + length (filter (\<lambda>(k, _). k \<in> set ids) (sessions m))"
proof -
  have "sessions (fst (fold revoke_one ids (m, n))) = filter (\<lambda>(k, _). k \<notin> set ids) (sessions m) \<and>
      snd (fold revoke_one ids (m, n)) = n + length (filter (\<lambda>(k, _). k \<in> set ids) (sessions m))"
    using assms
  proof (induction ids arbitrary: m n)
    case Nil
    show ?case by (simp add: case_prod_beta)
  next
    case (Cons i ids)
    obtain m1 n1 where r: "revoke_one i (m, n) = (m1, n1)" by fastforce
    have m1: "sessions m1 = filter (\<lambda>(k, _). k \<noteq> i) (sessions m)"
      and n1: "n1 = n + length (filter (\<lambda>(k, _). k = i) (sessions m))"
      using revoke_one_simps [OF Cons.prems, of i n] r by simp_all
    have "distinct (map fst (sessions m1))" using Cons.prems by (simp add: m1 distinct_map_filter)
    from Cons.IH [OF this, of n1] show ?case
      using length_filter_split [where P = "\<lambda>(k, _). k = i" and Q = "\<lambda>(k, _). k \<in> set ids"
          and xs = "sessions m"]
      by (simp add: r m1 n1 case_prod_beta conj_commute)
  qed
  then show "sessions (fst (fold revoke_one ids (m, n))) = filter (\<lambda>(k, _). k \<notin> set ids) (sessions m)"
    and "snd (fold revoke_one ids (m, n)) = n + length (filter (\<lambda>(k, _). k \<in> set ids) (sessions m))"
    by simp_all
qed

text \<open>C21: In every manager that its operations can produce, revoking a session returns; it removes exactly the
  session and the sessions delegated from it, directly or through others, keeps all others as they were, and answers
  the number it removed.\<close>

theorem revoke_cascade_exact:
  assumes "session_run E m"
  shows "\<exists>m' n. revoke_session_cascade m sid = Some (m', n) \<and>
    sessions m' = filter (\<lambda>(k, _). \<not> descends (sessions m) sid k) (sessions m) \<and>
    n = length (filter (\<lambda>(k, _). descends (sessions m) sid k) (sessions m))"
proof -
  have wf: "sessions_wf (sessions m)" using assms by (rule session_run_wf)
  then obtain ids where c: "cascade_loop (sessions m) [sid] 0 = Some ids" using cascade_loop_returns by blast
  have cl: "sid \<in> set ids" "\<forall>y\<in>set ids. set (children_of (sessions m) y) \<subseteq> set ids \<and> descends (sessions m) sid y"
    using cascade_loop_closed [OF c, of sid] by (auto intro: descends_root)
  have "k \<in> set ids" if "descends (sessions m) sid k" for k
    using that
  proof (induction rule: descends.induct)
    case descends_root
    show ?case by (rule cl(1))
  next
    case (descends_child p k s)
    then have "sess_id s \<in> set (children_of (sessions m) p)" by (auto simp: set_children_of)
    with cl(2) descends_child.IH show ?case by blast
  qed
  with cl(2) have ids: "k \<in> set ids \<longleftrightarrow> descends (sessions m) sid k" for k by blast
  obtain m' n where f: "fold revoke_one ids (m, 0) = (m', n)" by fastforce
  have "distinct (map fst (sessions m))" using wf by (simp add: sessions_wf_def)
  from fold_revoke_sessions [OF this, of ids 0] show ?thesis
    using c f by (simp add: revoke_session_cascade_def ids)
qed

lemma sample_run: "session_run sample_env sample_delegated"
proof -
  have "session_run sample_env (session_manager_new 60)" by (rule session_start)
  then have "session_run sample_env (fst (register_template (session_manager_new 60) sample_template))"
    by (rule session_next) (rule session_step.intros)
  then have m: "session_run sample_env sample_manager"
    unfolding sample_manager_def by (rule session_next) (rule session_step.intros)
  have "fresh_id (sessions sample_manager) (generate_session_id sample_env [2])"
    by (simp add: fresh_id_def sample_simps)
  then show ?thesis
    unfolding sample_delegated_def by (intro session_next [OF m] session_step.intros)
qed

lemma sample_sessions:
  "\<exists>a b. sessions sample_delegated = [(sample_id 1, a), (sample_id 2, b)] \<and> sess_id b = sample_id 2 \<and>
     parent_session_id b = Some (sample_id 1)"
  by (simp add: sample_simps)

theorem revoke_cascade_exact_witness:
  "\<exists>m'. revoke_session_cascade sample_delegated (sample_id 1) = Some (m', 2) \<and> sessions m' = []"
proof -
  obtain a b where ab: "sessions sample_delegated = [(sample_id 1, a), (sample_id 2, b)]" "sess_id b = sample_id 2"
      "parent_session_id b = Some (sample_id 1)"
    using sample_sessions by auto
  have d1: "descends (sessions sample_delegated) (sample_id 1) (sample_id 1)" by (rule descends_root)
  have d2: "descends (sessions sample_delegated) (sample_id 1) (sample_id 2)"
    using descends_child [OF d1, of "sample_id 2" b] ab by simp
  from revoke_cascade_exact [OF sample_run, of "sample_id 1"] show ?thesis
    using d1 d2 by (simp add: ab(1) numeral_2_eq_2)
qed

section \<open>The rate limiter\<close>

text \<open>The times at which a limiter admits calls, of all times at which it is called.\<close>

fun admitted :: "rate_limiter \<Rightarrow> int list \<Rightarrow> int list" where
  "admitted r [] = []"
| "admitted r (t # ts) =
     (case check_and_increment t r of (r', res) \<Rightarrow> if isl res then admitted r' ts else t # admitted r' ts)"

definition limit_of :: "rate_limiter \<Rightarrow> nat" where
  "limit_of r = max 1 (unat (limit r))"

lemma whole_second: "1 \<le> num_seconds d \<longleftrightarrow> NANOS \<le> d"
  by (auto simp: num_seconds_def NANOS_def)

lemma check_cases:
  assumes "unat (operations r) \<le> limit_of r"
  obtains (window) "window_start r + NANOS \<le> t"
      "check_and_increment t r = (r\<lparr>operations := 1, window_start := t\<rparr>, Inr ())"
  | (admit) "t < window_start r + NANOS" "check_and_increment t r = (r\<lparr>operations := operations r + 1\<rparr>, Inr ())"
      "unat (operations r + 1) = unat (operations r) + 1" "unat (operations r) + 1 \<le> limit_of r"
  | (refuse) "t < window_start r + NANOS" "check_and_increment t r = (r, Inl ''Rate limit exceeded'')"
proof (cases "window_start r + NANOS \<le> t")
  case True
  then show ?thesis by (intro window) (simp_all add: check_and_increment_def whole_second)
next
  case False
  then have w: "\<not> 1 \<le> num_seconds (t - window_start r)" by (simp add: whole_second)
  show ?thesis
  proof (cases "ucast (limit r) \<le> operations r")
    case True
    with False w show ?thesis by (intro refuse) (simp_all add: check_and_increment_def Let_def)
  next
    case less: False
    then have "unat (operations r) < unat (limit r)"
      by (simp add: word_le_nat_alt unsigned_ucast_eq take_bit_eq_mod unsigned_less mod_less
          order.strict_trans [OF unsigned_less [where ?'a = nat, of "limit r"]])
    moreover from this have "unat (operations r + 1) = unat (operations r) + 1"
      using unsigned_less [where ?'a = nat, of "limit r"] by (simp add: unat_word_ariths)
    ultimately show ?thesis
      using False w less by (intro admit) (simp_all add: check_and_increment_def Let_def limit_of_def)
  qed
qed

definition within :: "int \<Rightarrow> int \<Rightarrow> int list \<Rightarrow> nat" where
  "within a b ts = length (filter (\<lambda>t. a \<le> t \<and> t < b) ts)"

lemma within_simps [simp]:
  "within a b [] = 0" "within a b (t # ts) = (if a \<le> t \<and> t < b then 1 else 0) + within a b ts"
  by (simp_all add: within_def)

lemma admitted_subset: "set (admitted r ts) \<subseteq> set ts"
proof (induction ts arbitrary: r)
  case (Cons t ts)
  obtain r' res where "check_and_increment t r = (r', res)" by fastforce
  with Cons.IH [of r'] show ?case by auto
qed simp

lemma within_none: "\<forall>t\<in>set ts. b \<le> t \<Longrightarrow> within a b ts = 0"
  by (auto simp: within_def filter_empty_conv)

text \<open>What is left of the current window.\<close>

lemma admitted_in_window:
  assumes "unat (operations r) \<le> limit_of r" and "sorted ts" and "b \<le> window_start r + NANOS"
  shows "within a b (admitted r ts) \<le> limit_of r - unat (operations r)"
  using assms
proof (induction ts arbitrary: r)
  case Nil
  show ?case by simp
next
  case (Cons t ts)
  from Cons.prems(1) show ?case
  proof (cases rule: check_cases [where t = t])
    case window
    then have "\<forall>u\<in>set (t # ts). b \<le> u" using Cons.prems by auto
    then have "\<forall>u\<in>set (admitted r (t # ts)). b \<le> u" using admitted_subset by blast
    then show ?thesis using within_none by simp
  next
    case admit
    let ?r = "r\<lparr>operations := operations r + 1\<rparr>"
    have l: "limit_of ?r = limit_of r" by (simp add: limit_of_def)
    have "within a b (admitted ?r ts) \<le> limit_of ?r - unat (operations ?r)"
      using Cons.prems admit by (intro Cons.IH) (simp_all add: l)
    then show ?thesis using admit by (auto simp: l)
  next
    case refuse
    then show ?thesis using Cons by simp
  qed
qed

lemma admitted_in_interval:
  assumes "unat (operations r) \<le> limit_of r" and "sorted ts"
  shows "within a (a + NANOS) (admitted r ts) \<le>
    (if a < window_start r + NANOS then limit_of r - unat (operations r) else limit_of r) + limit_of r"
  using assms
proof (induction ts arbitrary: r)
  case Nil
  show ?case by simp
next
  case (Cons t ts)
  from Cons.prems(1) show ?case
  proof (cases rule: check_cases [where t = t])
    case window
    let ?r = "r\<lparr>operations := 1, window_start := t\<rparr>"
    have l: "limit_of ?r = limit_of r" "1 \<le> limit_of r" by (simp_all add: limit_of_def)
    show ?thesis
    proof (cases "a \<le> t")
      case True
      have "within a (a + NANOS) (admitted ?r ts) \<le> limit_of ?r - unat (operations ?r)"
        using Cons.prems True l by (intro admitted_in_window) simp_all
      then show ?thesis using window l by auto
    next
      case False
      then have "\<not> a < window_start r + NANOS" using window by simp
      moreover have "within a (a + NANOS) (admitted ?r ts) \<le>
          (if a < window_start ?r + NANOS then limit_of ?r - unat (operations ?r) else limit_of ?r) + limit_of ?r"
        using Cons.prems l by (intro Cons.IH) simp_all
      ultimately show ?thesis using window l False by (auto split: if_splits)
    qed
  next
    case admit
    let ?r = "r\<lparr>operations := operations r + 1\<rparr>"
    have l: "limit_of ?r = limit_of r" by (simp add: limit_of_def)
    have "within a (a + NANOS) (admitted ?r ts) \<le>
        (if a < window_start ?r + NANOS then limit_of ?r - unat (operations ?r) else limit_of ?r) + limit_of ?r"
      using Cons.prems admit by (intro Cons.IH) (simp_all add: l)
    then show ?thesis using admit by (auto simp: l split: if_splits)
  next
    case refuse
    then show ?thesis using Cons by simp
  qed
qed

text \<open>C22: A limiter of \<open>n\<close> operations per second admits in no interval of one second more than twice the larger of \<open>n\<close>
  and one, when the clock does not run backwards.\<close>

theorem rate_limiter_bound:
  assumes "sorted ts"
  shows "within a (a + NANOS) (admitted (rate_limiter_new w l) ts) \<le> 2 * max 1 (unat l)"
  using admitted_in_interval [of "rate_limiter_new w l" ts a] assms
  by (simp add: rate_limiter_new_def limit_of_def split: if_splits)

theorem rate_limiter_bound_witness:
  "within 999999998 1999999998 (admitted (rate_limiter_new 0 2) [0, 999999998, 999999999, 1000000001, 1000000002, 1000000003]) \<le> 4"
  using rate_limiter_bound [of "[0, 999999998, 999999999, 1000000001, 1000000002, 1000000003]" 999999998 0 2]
  by (simp add: NANOS_def)

text \<open>The bound is reached, and a limit of zero still admits one call in each second.\<close>

lemma rate_limiter_bound_reached:
  "within 999999998 1999999998 (admitted (rate_limiter_new 0 2)
     [999999998, 999999999, 1000000000, 1000000001]) = 4"
  by (simp add: check_and_increment_def rate_limiter_new_def num_seconds_def NANOS_def Let_def word_le_nat_alt)

lemma rate_limit_zero_admits: "admitted (rate_limiter_new 0 0) [1, 1000000000, 2000000000] = [1000000000, 2000000000]"
  by (simp add: check_and_increment_def rate_limiter_new_def num_seconds_def NANOS_def Let_def)

section \<open>Tokens\<close>

text \<open>What every validation that takes a token promises: it accepts only the token of a session that is present and
  has not expired.\<close>

locale token_gate =
  fixes gate :: "session_manager \<Rightarrow> string \<Rightarrow> string \<Rightarrow> session_manager \<times> (auth_error, session) res"
    and E :: token_env and now :: int
  assumes gate_checks: "snd (gate m sid tok) = Inr s' \<Longrightarrow>
    \<exists>s. map_of (sessions m) sid = Some s \<and> \<not> is_expired now s \<and> verify_token E s tok"
begin

lemma refused_without_token:
  assumes "\<And>s. map_of (sessions m) sid = Some s \<Longrightarrow> \<not> verify_token E s tok"
  shows "isl (snd (gate m sid tok))"
  using gate_checks [of m sid tok] assms by (cases "snd (gate m sid tok)") auto

lemma refused_after_expiry:
  assumes "\<And>s. map_of (sessions m) sid = Some s \<Longrightarrow> is_expired now s"
  shows "isl (snd (gate m sid tok))"
  using gate_checks [of m sid tok] assms by (cases "snd (gate m sid tok)") auto

lemma old_token_refused:
  assumes "rotate_session_token E rtok m sid = (m1, Inr new)" and "hash_token E old \<noteq> hash_token E new"
  shows "isl (snd (gate m1 sid old))"
proof (rule refused_without_token)
  fix s assume "map_of (sessions m1) sid = Some s"
  with assms show "\<not> verify_token E s old"
    by (auto simp: rotate_session_token_def rotate_token_def Let_def update_conv' verify_token_def verify_hashed_def
        split: option.splits)
qed

lemma deleted_refused:
  assumes "delete_session m sid = (m1, Inr ())"
  shows "isl (snd (gate m1 sid tok))"
  using assms
  by (intro refused_without_token) (auto simp: delete_session_def delete_conv' split: if_splits)

end

lemma use_session_result: "snd (use_session now m sid s) = Inr (touch now (fst (increment_operation s)))"
  by (simp add: use_session_def Let_def)

interpretation plain_gate: token_gate "validate_session_with_token E now now2" E now for E now now2
  by unfold_locales (auto simp: validate_session_with_token_def split: option.splits if_splits)

interpretation metadata_gate: token_gate "validate_session_with_metadata E now now2 ip ua fp" E now for E now now2 ip ua fp
  by unfold_locales (auto simp: validate_session_with_metadata_def split: option.splits if_splits)

interpretation scoped_gate: token_gate "validate_scoped_session E now now2 now3 operation key" E now
  for E now now2 now3 operation key
  by unfold_locales (auto simp: validate_scoped_session_def split: option.splits if_splits prod.splits)

text \<open>C23: Once the token of a session is rotated, each of the three validations refuses every token whose hash
  differs from that of the new one, with any other arguments, and the new token is accepted until the session
  expires.\<close>

theorem rotation_replaces_token:
  assumes "rotate_session_token E rtok m sid = (m1, Inr new)" and "hash_token E old \<noteq> hash_token E new"
  shows "isl (snd (validate_session_with_token E now now2 m1 sid old)) \<and>
    isl (snd (validate_session_with_metadata E now now2 ip ua fp m1 sid old)) \<and>
    isl (snd (validate_scoped_session E now now2 now3 operation key m1 sid old)) \<and>
    (isl (snd (validate_session_with_token E now now2 m1 sid new)) \<longleftrightarrow>
      (\<exists>s. map_of (sessions m) sid = Some s \<and> is_expired now s))"
proof (intro conjI)
  show "isl (snd (validate_session_with_token E now now2 m1 sid old))"
    using assms by (rule plain_gate.old_token_refused)
  show "isl (snd (validate_session_with_metadata E now now2 ip ua fp m1 sid old))"
    using assms by (rule metadata_gate.old_token_refused)
  show "isl (snd (validate_scoped_session E now now2 now3 operation key m1 sid old))"
    using assms by (rule scoped_gate.old_token_refused)
  show "isl (snd (validate_session_with_token E now now2 m1 sid new)) \<longleftrightarrow>
      (\<exists>s. map_of (sessions m) sid = Some s \<and> is_expired now s)"
    using assms(1)
    by (auto simp: rotate_session_token_def rotate_token_def Let_def validate_session_with_token_def update_conv'
        is_expired_def verify_token_def verify_hashed_def use_session_result split: option.splits)
qed

theorem rotation_replaces_token_witness:
  "\<exists>m1. rotate_session_token sample_env [9] sample_manager (sample_id 1) = (m1, Inr (sample_id 9)) \<and>
     isl (snd (validate_session_with_token sample_env 20 21 m1 (sample_id 1) (sample_id 7))) \<and>
     \<not> isl (snd (validate_session_with_token sample_env 20 21 m1 (sample_id 1) (sample_id 9)))"
proof -
  obtain m1 where r: "rotate_session_token sample_env [9] sample_manager (sample_id 1) = (m1, Inr (sample_id 9))"
    by (simp add: sample_simps rotate_session_token_def rotate_token_def)
  have h: "hash_token sample_env (sample_id 7) \<noteq> hash_token sample_env (sample_id 9)"
    by (simp add: hash_token_def sample_env_def sample_id_def)
  have "\<not> (\<exists>s. map_of (sessions sample_manager) (sample_id 1) = Some s \<and> is_expired 20 s)"
    by (simp add: sample_simps)
  with rotation_replaces_token [OF r h, of 20 21] r show ?thesis by blast
qed

text \<open>A rotation also resets the count of operations, so a session that has used up its operations can be used again.\<close>

theorem rotation_lifts_operation_limit:
  assumes "map_of (sessions m) sid = Some s" and "is_operation_limit_reached s" and "sess_scope s = Some sc"
    and "max_operations sc = Some n" and "n \<noteq> 0" and "\<not> is_expired now s" and "map_of (rate_limiters m) sid = None"
  shows "isl (snd (validate_scoped_session E now now2 now3 None None m sid tok))"
    and "rotate_session_token E rtok m sid = (m1, Inr new) \<Longrightarrow>
      \<not> isl (snd (validate_scoped_session E now now2 now3 None None m1 sid new))"
  using assms
  by (auto simp: validate_scoped_session_def rotate_session_token_def rotate_token_def Let_def update_conv' put_session_def
      is_expired_def verify_token_def verify_hashed_def is_operation_limit_reached_def check_rate_limit_def
      use_session_result word_le_nat_alt unat_eq_zero split: option.splits)

text \<open>The number of operations that one session admits between rotations is at most its limit.\<close>

lemma validated_count:
  assumes "snd (validate_scoped_session E now now2 now3 operation key m sid tok) = Inr s'"
    and "session_limit max_operations s' = Some n"
  shows "unat (operation_count s') \<le> unat n"
proof -
  obtain s where s: "\<not> is_operation_limit_reached s" "s' = touch now3 (fst (increment_operation s))"
    using assms(1)
    by (auto simp: validate_scoped_session_def use_session_result split: option.splits if_splits prod.splits)
  then have "operation_count s < n" "operation_count s' = operation_count s + 1"
    using assms(2) by (auto simp: is_operation_limit_reached_def session_limit_def touch_def increment_operation_def Let_def
        split: option.splits)
  then show ?thesis
    using unsigned_less [where ?'a = nat, of n] by (simp add: word_less_nat_alt unat_word_ariths)
qed

end
