(* ===== verification/Account_Recovery.thy ===== *)
theory Account_Recovery
  imports Auth_Access "HOL-Library.AList"
begin

text \<open>
  Account recovery, \<^verbatim>\<open>crates/auth/src/recovery/mod.rs\<close>. SHA-256 and hexadecimal text are the parameter \<open>E\<close>. Clock
  readings are arguments: \<open>t\<close> of the monotonic clock in nanoseconds, \<open>wall\<close> in seconds since 1970; the readings of one operation
  are equal. Random bytes are arguments. Texts are ASCII. The required number of guardians, computed in the source with
  single-precision arithmetic from a ratio, is a function in the configuration. Code lengths below 20, at which the power of ten in the
  source does not overflow, are assumed.
\<close>

section \<open>Requests\<close>

record recovery_env =
  re_sha256 :: "bytes \<Rightarrow> bytes"
  re_hex :: "bytes \<Rightarrow> string"
  re_unhex :: "string \<Rightarrow> bytes option"

datatype recovery_method =
    Email string
  | Sms string string
  | BackupCodes nat
  | SocialRecovery nat nat
  | TimeLocked u32

datatype recovery_status = RPending | RVerifying | RTimeLocked | RAwaitingGuardians | RApproved | RCompleted | RExpired | RDenied

record guardian_approval =
  ga_guardian_id :: string
  ga_guardian_name :: string
  ga_approved :: bool
  ga_approved_at :: "int option"
  ga_approved_from_ip :: "string option"

record recovery_request =
  rq_id :: string
  rq_user_id :: string
  rq_method :: recovery_method
  rq_status :: recovery_status
  rq_created_at :: int
  rq_created_timestamp :: int
  rq_expires_in :: int
  rq_verification_hash :: "string option"
  rq_guardian_approvals :: "guardian_approval list"
  rq_time_lock_ends_at :: "int option"
  rq_request_ip :: "string option"
  rq_user_agent :: "string option"
  rq_attempts :: u32
  rq_max_attempts :: u32

definition request_is_expired :: "int \<Rightarrow> recovery_request \<Rightarrow> bool" where
  "request_is_expired t r \<longleftrightarrow> max 0 (t - rq_created_at r) > rq_expires_in r"

definition time_lock_passed :: "int \<Rightarrow> recovery_request \<Rightarrow> bool" where
  "time_lock_passed wall r = (case rq_time_lock_ends_at r of Some ends_at \<Rightarrow> wall \<ge> ends_at | None \<Rightarrow> True)"

definition has_guardian_quorum :: "nat \<Rightarrow> recovery_request \<Rightarrow> bool" where
  "has_guardian_quorum threshold r \<longleftrightarrow> threshold \<le> length (filter ga_approved (rq_guardian_approvals r))"

section \<open>Configuration\<close>

definition seconds :: "int \<Rightarrow> int" where
  "seconds s = s * 1000000000"

record recovery_config =
  rcf_request_ttl :: int
  rcf_code_ttl :: int
  rcf_max_attempts :: u32
  rcf_time_lock_hours :: u32
  rcf_code_length :: nat
  rcf_min_guardians :: nat
  rcf_guardian_threshold :: "nat \<Rightarrow> nat"

definition recovery_config_default :: recovery_config where
  "recovery_config_default = \<lparr>rcf_request_ttl = seconds (24 * 3600), rcf_code_ttl = seconds 600, rcf_max_attempts = 5,
     rcf_time_lock_hours = 24, rcf_code_length = 6, rcf_min_guardians = 3, rcf_guardian_threshold = (\<lambda>n. (n + 1) div 2)\<rparr>"

record guardian =
  gd_id :: string
  gd_name :: string
  gd_email :: string
  gd_added_at :: int

record user_recovery_config =
  uc_user_id :: string
  uc_email :: "string option"
  uc_phone :: "string option"
  uc_backup_code_hashes :: "string list"
  uc_guardians :: "guardian list"
  uc_time_locked_enabled :: bool
  uc_time_lock_hours :: u32
  uc_updated_at :: int

section \<open>Codes\<close>

definition generate_recovery_code :: "recovery_env \<Rightarrow> nat \<Rightarrow> bytes \<Rightarrow> string" where
  "generate_recovery_code E len rnd = map ascii_upper (take len (re_hex E rnd))"

definition recovery_code_hash :: "recovery_env \<Rightarrow> string \<Rightarrow> string" where
  "recovery_code_hash E code = re_hex E (re_sha256 E (str_bytes (map ascii_upper code)))"

fun chunks4 :: "string \<Rightarrow> string list" where
  "chunks4 (a # b # c # d # e # cs) = [a, b, c, d] # chunks4 (e # cs)"
| "chunks4 [] = []"
| "chunks4 cs = [cs]"

definition formatted :: "string \<Rightarrow> string" where
  "formatted code = (case chunks4 code of [] \<Rightarrow> [] | c # cs \<Rightarrow> c @ concat (map (\<lambda>x. ''-'' @ x) cs))"

definition zero_padded :: "nat \<Rightarrow> nat \<Rightarrow> string" where
  "zero_padded width n = replicate (width - length (show_nat n)) (CHR ''0'') @ show_nat n"

definition generate_verification_code :: "nat \<Rightarrow> u64 \<Rightarrow> string" where
  "generate_verification_code len num = zero_padded len (unat num mod 10 ^ len)"

definition verification_code_hash :: "recovery_env \<Rightarrow> string \<Rightarrow> string" where
  "verification_code_hash E code = re_hex E (re_sha256 E (str_bytes code))"

definition ct_eq_hex_hash :: "recovery_env \<Rightarrow> string \<Rightarrow> string \<Rightarrow> bool" where
  "ct_eq_hex_hash E a b =
     (case (re_unhex E a, re_unhex E b) of
        (Some x, Some y) \<Rightarrow> if length x \<noteq> length y then False else x = y
      | _ \<Rightarrow> False)"

text \<open>Slicing an empty local part panics: \<open>None\<close>.\<close>

definition split_once_at :: "string \<Rightarrow> (string \<times> string) option" where
  "split_once_at s =
     (if CHR ''@'' \<in> set s then Some (takeWhile (\<lambda>c. c \<noteq> CHR ''@'') s, tl (dropWhile (\<lambda>c. c \<noteq> CHR ''@'') s)) else None)"

definition mask_email :: "string \<Rightarrow> string option" where
  "mask_email email =
     (case split_once_at email of
        Some (local, domain) \<Rightarrow>
          if length local < 1 then None
          else if length local \<le> 2 then Some (take 1 local @ ''***@'' @ domain)
          else Some (take 1 local @ ''***'' @ drop (length local - 1) local @ ''@'' @ domain)
      | None \<Rightarrow> Some ''***'')"

definition last4 :: "string \<Rightarrow> string" where
  "last4 s = rev (take 4 (rev s))"

definition mask_phone :: "string \<Rightarrow> string" where
  "mask_phone phone = (if length phone \<le> 4 then ''***'' else ''***'' @ drop (length phone - 4) phone)"

section \<open>The manager\<close>

record recovery_manager =
  rm_config :: recovery_config
  rm_requests :: "(string \<times> recovery_request) list"
  rm_user_configs :: "(string \<times> user_recovery_config) list"
  rm_last_request :: "(string \<times> int) list"
  rm_rate_limit_interval :: int

definition recovery_new :: "recovery_config \<Rightarrow> recovery_manager" where
  "recovery_new c = \<lparr>rm_config = c, rm_requests = [], rm_user_configs = [], rm_last_request = [], rm_rate_limit_interval = seconds 60\<rparr>"

definition recovery_with_defaults :: recovery_manager where
  "recovery_with_defaults = recovery_new recovery_config_default"

definition generate_request_id :: "recovery_env \<Rightarrow> bytes \<Rightarrow> string" where
  "generate_request_id E rnd = ''rec_'' @ re_hex E rnd"

definition configure_user :: "recovery_env \<Rightarrow> int \<Rightarrow> (nat \<Rightarrow> bytes) \<Rightarrow> recovery_manager \<Rightarrow> string \<Rightarrow> string option \<Rightarrow> string option \<Rightarrow>
  guardian list \<Rightarrow> bool \<Rightarrow> recovery_manager \<times> string list" where
  "configure_user E wall rnds m user_id email phone guardians time_locked =
     (let backup_codes = map (\<lambda>i. generate_recovery_code E 12 (rnds i)) [0..<10];
          cfg = \<lparr>uc_user_id = user_id, uc_email = map_option (map ascii_lower) email, uc_phone = phone,
            uc_backup_code_hashes = map (recovery_code_hash E) backup_codes, uc_guardians = guardians,
            uc_time_locked_enabled = time_locked, uc_time_lock_hours = rcf_time_lock_hours (rm_config m), uc_updated_at = wall\<rparr>
      in (m\<lparr>rm_user_configs := AList.update user_id cfg (rm_user_configs m)\<rparr>, backup_codes))"

definition available_methods :: "recovery_manager \<Rightarrow> string \<Rightarrow> recovery_method list option" where
  "available_methods m user_id =
     (case map_of (rm_user_configs m) user_id of
        None \<Rightarrow> Some []
      | Some c \<Rightarrow> Option.bind (case uc_email c of None \<Rightarrow> Some [] | Some e \<Rightarrow> map_option (\<lambda>x. [Email x]) (mask_email e)) (\<lambda>emails.
          Some (emails @
            (case uc_phone c of None \<Rightarrow> [] | Some p \<Rightarrow> [Sms (mask_phone p) (last4 p)]) @
            (if uc_backup_code_hashes c \<noteq> [] then [BackupCodes (length (uc_backup_code_hashes c))] else []) @
            (if length (uc_guardians c) \<ge> rcf_min_guardians (rm_config m)
             then [SocialRecovery (rcf_guardian_threshold (rm_config m) (length (uc_guardians c))) (length (uc_guardians c))] else []) @
            (if uc_time_locked_enabled c then [TimeLocked (uc_time_lock_hours c)] else []))))"

definition recovery_rate_limit :: "int \<Rightarrow> recovery_manager \<Rightarrow> string \<Rightarrow> (auth_error, unit) res" where
  "recovery_rate_limit t m user_id =
     (case map_of (rm_last_request m) user_id of
        Some prev \<Rightarrow> let elapsed = max 0 (t - prev) in
          if elapsed < rm_rate_limit_interval m
          then Inl (RateLimitExceeded (''Please wait '' @ show_nat (nat ((rm_rate_limit_interval m - elapsed) div 1000000000)) @
            '' seconds before requesting recovery again''))
          else Inr ()
      | None \<Rightarrow> Inr ())"

definition recovery_user :: "recovery_manager \<Rightarrow> string \<Rightarrow> (auth_error, user_recovery_config) res" where
  "recovery_user m user_id = ok_or (InvalidSession ''User not configured for recovery'') (map_of (rm_user_configs m) user_id)"

definition open_request :: "int \<Rightarrow> recovery_manager \<Rightarrow> recovery_request \<Rightarrow> recovery_manager" where
  "open_request t m r = m\<lparr>rm_requests := AList.update (rq_id r) r (rm_requests m),
     rm_last_request := AList.update (rq_user_id r) t (rm_last_request m)\<rparr>"

text \<open>The request that the four ways of recovery build, with the fields in which they differ as arguments.\<close>

definition new_request :: "recovery_manager \<Rightarrow> string \<Rightarrow> string \<Rightarrow> recovery_method \<Rightarrow> recovery_status \<Rightarrow> int \<Rightarrow> int \<Rightarrow> int \<Rightarrow> string option \<Rightarrow>
  guardian_approval list \<Rightarrow> int option \<Rightarrow> string option \<Rightarrow> string option \<Rightarrow> recovery_request" where
  "new_request m rid user_id meth st t wall ttl vhash gs lock ip agent =
     \<lparr>rq_id = rid, rq_user_id = user_id, rq_method = meth, rq_status = st, rq_created_at = t, rq_created_timestamp = wall,
      rq_expires_in = ttl, rq_verification_hash = vhash, rq_guardian_approvals = gs, rq_time_lock_ends_at = lock, rq_request_ip = ip,
      rq_user_agent = agent, rq_attempts = 0, rq_max_attempts = rcf_max_attempts (rm_config m)\<rparr>"

definition initiate_email_recovery :: "recovery_env \<Rightarrow> int \<Rightarrow> int \<Rightarrow> u64 \<Rightarrow> bytes \<Rightarrow> recovery_manager \<Rightarrow> string \<Rightarrow> string option \<Rightarrow> string option \<Rightarrow>
  recovery_manager \<times> (auth_error, string \<times> string) res" where
  "initiate_email_recovery E t wall num rnd m user_id ip agent =
     (case bind_res (recovery_rate_limit t m user_id) (\<lambda>_. bind_res (recovery_user m user_id) (\<lambda>u.
        ok_or (InvalidSession ''Email recovery not configured'') (uc_email u))) of
        Inl e \<Rightarrow> (m, Inl e)
      | Inr email \<Rightarrow>
          let code = generate_verification_code (rcf_code_length (rm_config m)) num; rid = generate_request_id E rnd in
          (open_request t m (new_request m rid user_id (Email email) RPending t wall (rcf_code_ttl (rm_config m))
             (Some (verification_code_hash E code)) [] None ip agent), Inr (rid, code)))"

definition initiate_sms_recovery :: "recovery_env \<Rightarrow> int \<Rightarrow> int \<Rightarrow> u64 \<Rightarrow> bytes \<Rightarrow> recovery_manager \<Rightarrow> string \<Rightarrow> string option \<Rightarrow> string option \<Rightarrow>
  recovery_manager \<times> (auth_error, string \<times> string) res" where
  "initiate_sms_recovery E t wall num rnd m user_id ip agent =
     (case bind_res (recovery_rate_limit t m user_id) (\<lambda>_. bind_res (recovery_user m user_id) (\<lambda>u.
        ok_or (InvalidSession ''SMS recovery not configured'') (uc_phone u))) of
        Inl e \<Rightarrow> (m, Inl e)
      | Inr phone \<Rightarrow>
          let code = generate_verification_code (rcf_code_length (rm_config m)) num; rid = generate_request_id E rnd in
          (open_request t m (new_request m rid user_id (Sms phone (last4 phone)) RPending t wall (rcf_code_ttl (rm_config m))
             (Some (verification_code_hash E code)) [] None ip agent), Inr (rid, code)))"

definition initiate_time_locked_recovery :: "recovery_env \<Rightarrow> int \<Rightarrow> int \<Rightarrow> bytes \<Rightarrow> recovery_manager \<Rightarrow> string \<Rightarrow> string option \<Rightarrow> string option \<Rightarrow>
  recovery_manager \<times> (auth_error, string) res" where
  "initiate_time_locked_recovery E t wall rnd m user_id ip agent =
     (case bind_res (recovery_rate_limit t m user_id) (\<lambda>_. bind_res (recovery_user m user_id) (\<lambda>u.
        if \<not> uc_time_locked_enabled u then Inl (InvalidSession ''Time-locked recovery not enabled'') else Inr u)) of
        Inl e \<Rightarrow> (m, Inl e)
      | Inr u \<Rightarrow>
          let delay_seconds = uint (uc_time_lock_hours u) * 3600; rid = generate_request_id E rnd in
          (open_request t m (new_request m rid user_id (TimeLocked (uc_time_lock_hours u)) RTimeLocked t wall (seconds (delay_seconds + 3600))
             None [] (Some (wall + delay_seconds)) ip agent), Inr rid))"

definition initiate_social_recovery :: "recovery_env \<Rightarrow> int \<Rightarrow> int \<Rightarrow> bytes \<Rightarrow> recovery_manager \<Rightarrow> string \<Rightarrow> string option \<Rightarrow> string option \<Rightarrow>
  recovery_manager \<times> (auth_error, string \<times> guardian_approval list) res" where
  "initiate_social_recovery E t wall rnd m user_id ip agent =
     (case bind_res (recovery_rate_limit t m user_id) (\<lambda>_. bind_res (recovery_user m user_id) (\<lambda>u.
        if length (uc_guardians u) < rcf_min_guardians (rm_config m) then Inl (InvalidSession ''Not enough guardians configured'') else Inr u)) of
        Inl e \<Rightarrow> (m, Inl e)
      | Inr u \<Rightarrow>
          let n = length (uc_guardians u); threshold = rcf_guardian_threshold (rm_config m) n;
              approvals = map (\<lambda>g. \<lparr>ga_guardian_id = gd_id g, ga_guardian_name = gd_name g, ga_approved = False, ga_approved_at = None,
                ga_approved_from_ip = None\<rparr>) (uc_guardians u);
              rid = generate_request_id E rnd in
          (open_request t m (new_request m rid user_id (SocialRecovery threshold n) RAwaitingGuardians t wall (rcf_request_ttl (rm_config m))
             None approvals None ip agent), Inr (rid, approvals)))"

section \<open>Verification\<close>

definition put_request :: "recovery_manager \<Rightarrow> string \<Rightarrow> recovery_request \<Rightarrow> recovery_manager" where
  "put_request m rid r = m\<lparr>rm_requests := AList.update rid r (rm_requests m)\<rparr>"

definition verify_code :: "recovery_env \<Rightarrow> int \<Rightarrow> recovery_manager \<Rightarrow> string \<Rightarrow> string \<Rightarrow> recovery_manager \<times> (auth_error, unit) res" where
  "verify_code E t m rid code =
     (case map_of (rm_requests m) rid of
        None \<Rightarrow> (m, Inl (InvalidSession ''Recovery request not found''))
      | Some r \<Rightarrow>
          if request_is_expired t r then (put_request m rid (r\<lparr>rq_status := RExpired\<rparr>), Inl SessionExpired)
          else if rq_max_attempts r \<le> rq_attempts r
          then (put_request m rid (r\<lparr>rq_status := RDenied\<rparr>), Inl (RateLimitExceeded ''Too many attempts''))
          else let r1 = r\<lparr>rq_attempts := rq_attempts r + 1\<rparr> in
            case rq_verification_hash r1 of
              None \<Rightarrow> (put_request m rid r1, Inl (AuthInternal ''No verification hash''))
            | Some expected \<Rightarrow>
                if \<not> ct_eq_hex_hash E (verification_code_hash E code) expected
                then (put_request m rid r1, Inl (Unauthorized ''Invalid verification code''))
                else (put_request m rid (r1\<lparr>rq_status := RApproved\<rparr>), Inr ()))"

definition backup_code_hash :: "recovery_env \<Rightarrow> string \<Rightarrow> string" where
  "backup_code_hash E code = re_hex E (re_sha256 E (str_bytes (filter (\<lambda>c. c \<noteq> CHR ''-'') (map ascii_upper code))))"

definition last_match :: "recovery_env \<Rightarrow> string \<Rightarrow> string list \<Rightarrow> nat option" where
  "last_match E h stored = fold (\<lambda>(pos, s) acc. if ct_eq_hex_hash E s h then Some pos else acc) (zip [0..<length stored] stored) None"

definition remove_nth :: "nat \<Rightarrow> 'a list \<Rightarrow> 'a list" where
  "remove_nth i xs = take i xs @ drop (Suc i) xs"

definition verify_backup_code :: "recovery_env \<Rightarrow> recovery_manager \<Rightarrow> string \<Rightarrow> string \<Rightarrow> recovery_manager \<times> (auth_error, unit) res" where
  "verify_backup_code E m user_id code =
     (case map_of (rm_user_configs m) user_id of
        None \<Rightarrow> (m, Inl (InvalidSession ''User not configured''))
      | Some u \<Rightarrow> (case last_match E (backup_code_hash E code) (uc_backup_code_hashes u) of
            Some pos \<Rightarrow> (m\<lparr>rm_user_configs := AList.update user_id
                (u\<lparr>uc_backup_code_hashes := remove_nth pos (uc_backup_code_hashes u)\<rparr>) (rm_user_configs m)\<rparr>, Inr ())
          | None \<Rightarrow> (m, Inl (Unauthorized ''Invalid backup code''))))"

fun approve_guardian :: "int \<Rightarrow> string option \<Rightarrow> string \<Rightarrow> guardian_approval list \<Rightarrow> (auth_error, guardian_approval list) res" where
  "approve_guardian wall ip gid [] = Inl (InvalidSession ''Guardian not found'')"
| "approve_guardian wall ip gid (g # gs) =
     (if ga_guardian_id g = gid
      then if ga_approved g then Inl (InvalidSession ''Guardian already approved'')
           else Inr (g\<lparr>ga_approved := True, ga_approved_at := Some wall, ga_approved_from_ip := ip\<rparr> # gs)
      else bind_res (approve_guardian wall ip gid gs) (\<lambda>gs'. Inr (g # gs')))"

definition record_guardian_approval :: "int \<Rightarrow> int \<Rightarrow> recovery_manager \<Rightarrow> string \<Rightarrow> string \<Rightarrow> string option \<Rightarrow>
  recovery_manager \<times> (auth_error, bool) res" where
  "record_guardian_approval t wall m rid gid ip =
     (case map_of (rm_requests m) rid of
        None \<Rightarrow> (m, Inl (InvalidSession ''Recovery request not found''))
      | Some r \<Rightarrow>
          if request_is_expired t r then (put_request m rid (r\<lparr>rq_status := RExpired\<rparr>), Inl SessionExpired)
          else case approve_guardian wall ip gid (rq_guardian_approvals r) of
            Inl e \<Rightarrow> (m, Inl e)
          | Inr gs \<Rightarrow> let r1 = r\<lparr>rq_guardian_approvals := gs\<rparr> in
              case rq_method r1 of
                SocialRecovery threshold _ \<Rightarrow>
                  if has_guardian_quorum threshold r1 then (put_request m rid (r1\<lparr>rq_status := RApproved\<rparr>), Inr True)
                  else (put_request m rid r1, Inr False)
              | _ \<Rightarrow> (put_request m rid r1, Inr False))"

definition check_time_lock :: "int \<Rightarrow> int \<Rightarrow> recovery_manager \<Rightarrow> string \<Rightarrow> recovery_manager \<times> (auth_error, bool) res" where
  "check_time_lock t wall m rid =
     (case map_of (rm_requests m) rid of
        None \<Rightarrow> (m, Inl (InvalidSession ''Recovery request not found''))
      | Some r \<Rightarrow>
          if request_is_expired t r then (put_request m rid (r\<lparr>rq_status := RExpired\<rparr>), Inl SessionExpired)
          else if time_lock_passed wall r then (put_request m rid (r\<lparr>rq_status := RApproved\<rparr>), Inr True)
          else (m, Inr False))"

definition get_request :: "recovery_manager \<Rightarrow> string \<Rightarrow> recovery_request option" where
  "get_request m rid = map_of (rm_requests m) rid"

definition complete_recovery :: "recovery_manager \<Rightarrow> string \<Rightarrow> recovery_manager \<times> (auth_error, unit) res" where
  "complete_recovery m rid =
     (case map_of (rm_requests m) rid of
        None \<Rightarrow> (m, Inl (InvalidSession ''Recovery request not found''))
      | Some r \<Rightarrow>
          if rq_status r \<noteq> RApproved then (m, Inl (InvalidSession ''Recovery not approved''))
          else (put_request m rid (r\<lparr>rq_status := RCompleted\<rparr>), Inr ()))"

definition cancel_request :: "recovery_manager \<Rightarrow> string \<Rightarrow> recovery_manager \<times> (auth_error, unit) res" where
  "cancel_request m rid =
     (case map_of (rm_requests m) rid of
        None \<Rightarrow> (m, Inl (InvalidSession ''Recovery request not found''))
      | Some r \<Rightarrow> (put_request m rid (r\<lparr>rq_status := RDenied\<rparr>), Inr ()))"

definition cleanup_expired_requests :: "int \<Rightarrow> recovery_manager \<Rightarrow> recovery_manager \<times> nat" where
  "cleanup_expired_requests t m =
     (let keep = (\<lambda>(_, r). \<not> request_is_expired t r \<and> rq_status r \<noteq> RCompleted) in
      (m\<lparr>rm_requests := filter keep (rm_requests m)\<rparr>, length (filter (\<lambda>x. \<not> keep x) (rm_requests m))))"

definition regenerate_backup_codes :: "recovery_env \<Rightarrow> int \<Rightarrow> (nat \<Rightarrow> bytes) \<Rightarrow> recovery_manager \<Rightarrow> string \<Rightarrow>
  recovery_manager \<times> (auth_error, string list) res" where
  "regenerate_backup_codes E wall rnds m user_id =
     (case map_of (rm_user_configs m) user_id of
        None \<Rightarrow> (m, Inl (InvalidSession ''User not configured''))
      | Some u \<Rightarrow> let new_codes = map (\<lambda>i. generate_recovery_code E 12 (rnds i)) [0..<10] in
          (m\<lparr>rm_user_configs := AList.update user_id
             (u\<lparr>uc_backup_code_hashes := map (recovery_code_hash E) new_codes, uc_updated_at := wall\<rparr>) (rm_user_configs m)\<rparr>,
           Inr new_codes))"

definition backup_codes_remaining :: "recovery_manager \<Rightarrow> string \<Rightarrow> nat option" where
  "backup_codes_remaining m user_id = map_option (\<lambda>u. length (uc_backup_code_hashes u)) (map_of (rm_user_configs m) user_id)"

end
