(* ===== verification/Budgets.thy ===== *)
theory Budgets
  imports Main
begin

text \<open>
  Counting events along a run of operations, and bounding their number by a potential that every counted event uses up. The components
  with a limit on attempts interpret the locale below.
\<close>

fun run_ops :: "('op \<Rightarrow> 's \<Rightarrow> 's) \<Rightarrow> 's \<Rightarrow> 'op list \<Rightarrow> 's" where
  "run_ops step s [] = s"
| "run_ops step s (op # ops) = run_ops step (step op s) ops"

fun tally :: "('op \<Rightarrow> 's \<Rightarrow> 's) \<Rightarrow> ('s \<Rightarrow> 'op \<Rightarrow> bool) \<Rightarrow> 's \<Rightarrow> 'op list \<Rightarrow> nat" where
  "tally step counts s [] = 0"
| "tally step counts s (op # ops) = (if counts s op then 1 else 0) + tally step counts (step op s) ops"

lemma run_ops_append [simp]: "run_ops step s (xs @ ys) = run_ops step (run_ops step s xs) ys"
  by (induction xs arbitrary: s) auto

lemma tally_append [simp]: "tally step counts s (xs @ ys) = tally step counts s xs + tally step counts (run_ops step s xs) ys"
  by (induction xs arbitrary: s) auto

locale budgeted =
  fixes step :: "'op \<Rightarrow> 's \<Rightarrow> 's"
    and inv :: "'s \<Rightarrow> bool"
    and allowed :: "'op \<Rightarrow> bool"
    and counts :: "'s \<Rightarrow> 'op \<Rightarrow> bool"
    and potential :: "'s \<Rightarrow> nat"
  assumes inv_step: "inv s \<Longrightarrow> allowed op \<Longrightarrow> inv (step op s)"
    and free_step: "inv s \<Longrightarrow> allowed op \<Longrightarrow> potential (step op s) \<le> potential s"
    and counted_step: "inv s \<Longrightarrow> allowed op \<Longrightarrow> counts s op \<Longrightarrow> potential (step op s) < potential s"
begin

lemma inv_run: "inv s \<Longrightarrow> list_all allowed ops \<Longrightarrow> inv (run_ops step s ops)"
  by (induction ops arbitrary: s) (auto simp: inv_step)

lemma tally_potential: "inv s \<Longrightarrow> list_all allowed ops \<Longrightarrow> tally step counts s ops + potential (run_ops step s ops) \<le> potential s"
proof (induction ops arbitrary: s)
  case (Cons op ops)
  then have IH: "tally step counts (step op s) ops + potential (run_ops step (step op s) ops) \<le> potential (step op s)"
    by (simp add: inv_step)
  with Cons.prems free_step [of s op] counted_step [of s op] show ?case by auto
qed simp

lemma tally_bound: "inv s \<Longrightarrow> list_all allowed ops \<Longrightarrow> tally step counts s ops \<le> potential s"
  using tally_potential [of s ops] by simp

lemma exhausted: "inv s \<Longrightarrow> allowed op \<Longrightarrow> potential s = 0 \<Longrightarrow> \<not> counts s op"
  using counted_step [of s op] by auto

end

end
