(* ===== verification/Recovery_Properties.thy ===== *)
theory Recovery_Properties
  imports Account_Recovery Budgets Sample_Hex
begin

text \<open>
  Account recovery over arbitrary sequences of operations: how often a code can be guessed, and how many guardians a quorum takes.
\<close>

section \<open>Operations as data\<close>

datatype recovery_op =
    ConfigureUser int "nat \<Rightarrow> bytes" string "string option" "string option" "guardian list" bool
  | InitiateEmail int int u64 bytes string "string option" "string option"
  | InitiateSms int int u64 bytes string "string option" "string option"
  | InitiateTimeLocked int int bytes string "string option" "string option"
  | InitiateSocial int int bytes string "string option" "string option"
  | VerifyCode int string string
  | VerifyBackupCode string string
  | ApproveGuardian int int string string "string option"
  | CheckTimeLock int int string
  | CompleteRecovery string
  | CancelRequest string
  | CleanupExpired int
  | RegenerateCodes int "nat \<Rightarrow> bytes" string

fun recovery_do :: "recovery_env \<Rightarrow> recovery_op \<Rightarrow> recovery_manager \<Rightarrow> recovery_manager" where
  "recovery_do E (ConfigureUser wall rnds u em ph gs l) m = fst (configure_user E wall rnds m u em ph gs l)"
| "recovery_do E (InitiateEmail t wall num rnd u ip ag) m = fst (initiate_email_recovery E t wall num rnd m u ip ag)"
| "recovery_do E (InitiateSms t wall num rnd u ip ag) m = fst (initiate_sms_recovery E t wall num rnd m u ip ag)"
| "recovery_do E (InitiateTimeLocked t wall rnd u ip ag) m = fst (initiate_time_locked_recovery E t wall rnd m u ip ag)"
| "recovery_do E (InitiateSocial t wall rnd u ip ag) m = fst (initiate_social_recovery E t wall rnd m u ip ag)"
| "recovery_do E (VerifyCode t rid code) m = fst (verify_code E t m rid code)"
| "recovery_do E (VerifyBackupCode u code) m = fst (verify_backup_code E m u code)"
| "recovery_do E (ApproveGuardian t wall rid gid ip) m = fst (record_guardian_approval t wall m rid gid ip)"
| "recovery_do E (CheckTimeLock t wall rid) m = fst (check_time_lock t wall m rid)"
| "recovery_do E (CompleteRecovery rid) m = fst (complete_recovery m rid)"
| "recovery_do E (CancelRequest rid) m = fst (cancel_request m rid)"
| "recovery_do E (CleanupExpired t) m = fst (cleanup_expired_requests t m)"
| "recovery_do E (RegenerateCodes wall rnds u) m = fst (regenerate_backup_codes E wall rnds m u)"

text \<open>The identifier that an operation would open.\<close>

fun opens :: "recovery_env \<Rightarrow> recovery_op \<Rightarrow> string option" where
  "opens E (InitiateEmail t wall num rnd u ip ag) = Some (generate_request_id E rnd)"
| "opens E (InitiateSms t wall num rnd u ip ag) = Some (generate_request_id E rnd)"
| "opens E (InitiateTimeLocked t wall rnd u ip ag) = Some (generate_request_id E rnd)"
| "opens E (InitiateSocial t wall rnd u ip ag) = Some (generate_request_id E rnd)"
| "opens E op = None"

text \<open>Whether an operation compares a submitted code with that of the request.\<close>

fun compares :: "recovery_env \<Rightarrow> string \<Rightarrow> recovery_manager \<Rightarrow> recovery_op \<Rightarrow> bool" where
  "compares E rid m (VerifyCode t rid' code) \<longleftrightarrow> rid' = rid \<and>
     snd (verify_code E t m rid code) \<in> {Inr (), Inl (Unauthorized ''Invalid verification code'')}"
| "compares E rid m op \<longleftrightarrow> False"

text \<open>The guesses at the code of one request along a run.\<close>

definition guesses :: "recovery_env \<Rightarrow> string \<Rightarrow> recovery_manager \<Rightarrow> recovery_op list \<Rightarrow> nat" where
  "guesses E rid = tally (recovery_do E) (compares E rid)"

section \<open>Guessing\<close>

definition budget :: "recovery_manager \<Rightarrow> string \<Rightarrow> nat" where
  "budget m rid = (case map_of (rm_requests m) rid of None \<Rightarrow> 0 | Some r \<Rightarrow> unat (rq_max_attempts r) - unat (rq_attempts r))"

lemma requests_simps [simp]:
  "rm_requests (open_request t m r) = AList.update (rq_id r) r (rm_requests m)"
  "rm_requests (put_request m rid r) = AList.update rid r (rm_requests m)"
  by (simp_all add: open_request_def put_request_def)

lemma new_request_id [simp]: "rq_id (new_request m rid u meth st t wall ttl vh gs lock ip ag) = rid"
  by (simp add: new_request_def)

text \<open>What one operation can do to a request that it does not open.\<close>

lemma unat_incr: "(a :: u32) < b \<Longrightarrow> unat (a + 1) = unat a + 1"
  using unsigned_less [where ?'a = nat, of b] by (simp add: word_less_nat_alt unat_word_ariths)

lemma map_of_filter_distinct:
  "distinct (map fst xs) \<Longrightarrow> map_of (filter P xs) k = (case map_of xs k of Some v \<Rightarrow> if P (k, v) then Some v else None | None \<Rightarrow> None)"
proof (induction xs)
  case (Cons x xs)
  then have "k = fst x \<Longrightarrow> map_of xs k = None" by (auto simp: map_of_eq_None_iff)
  with Cons show ?case by (cases x) auto
qed simp

text \<open>What an operation does to the table of requests.\<close>

lemma initiate_requests:
  "rm_requests (fst (initiate_email_recovery E t wall num rnd m u ip ag)) \<in>
     {rm_requests m} \<union> range (\<lambda>r. AList.update (generate_request_id E rnd) r (rm_requests m))"
  "rm_requests (fst (initiate_sms_recovery E t wall num rnd m u ip ag)) \<in>
     {rm_requests m} \<union> range (\<lambda>r. AList.update (generate_request_id E rnd) r (rm_requests m))"
  "rm_requests (fst (initiate_time_locked_recovery E t wall rnd m u ip ag)) \<in>
     {rm_requests m} \<union> range (\<lambda>r. AList.update (generate_request_id E rnd) r (rm_requests m))"
  "rm_requests (fst (initiate_social_recovery E t wall rnd m u ip ag)) \<in>
     {rm_requests m} \<union> range (\<lambda>r. AList.update (generate_request_id E rnd) r (rm_requests m))"
  by (simp_all add: initiate_email_recovery_def initiate_sms_recovery_def initiate_time_locked_recovery_def initiate_social_recovery_def
      Let_def split: sum.split)

lemma user_requests:
  "rm_requests (fst (configure_user E wall rnds m u em ph gs l)) = rm_requests m"
  "rm_requests (fst (verify_backup_code E m u code)) = rm_requests m"
  "rm_requests (fst (regenerate_backup_codes E wall rnds m u)) = rm_requests m"
  by (simp_all add: configure_user_def verify_backup_code_def regenerate_backup_codes_def Let_def split: option.split)

text \<open>The changes of an existing request: its method, limit and time lock stay, and the attempts are counted.\<close>

definition request_change :: "recovery_request \<Rightarrow> recovery_request \<Rightarrow> bool" where
  "request_change r r' \<longleftrightarrow> rq_method r' = rq_method r \<and> rq_max_attempts r' = rq_max_attempts r \<and>
     rq_time_lock_ends_at r' = rq_time_lock_ends_at r \<and>
     (rq_attempts r' = rq_attempts r \<or> rq_attempts r < rq_max_attempts r \<and> rq_attempts r' = rq_attempts r + 1)"

lemma verify_code_change:
  assumes "map_of (rm_requests (fst (verify_code E t m rid' code))) rid = Some r'"
  shows "\<exists>r. map_of (rm_requests m) rid = Some r \<and> request_change r r' \<and> rq_guardian_approvals r' = rq_guardian_approvals r \<and>
    (rq_attempts r' = rq_attempts r \<longrightarrow> \<not> compares E rid m (VerifyCode t rid' code))"
proof (cases "rid' = rid")
  case True
  then obtain r where "map_of (rm_requests m) rid = Some r" using assms by (cases "map_of (rm_requests m) rid") (auto simp: verify_code_def)
  with True assms show ?thesis
    by (auto simp: verify_code_def Let_def request_change_def not_le update_conv' split: option.splits if_splits)
next
  case False
  with assms show ?thesis
    by (auto simp: verify_code_def Let_def request_change_def update_conv' split: option.splits if_splits)
qed

lemma guardian_change:
  assumes "map_of (rm_requests (fst (record_guardian_approval t wall m rid' gid ip))) rid = Some r'"
  shows "\<exists>r. map_of (rm_requests m) rid = Some r \<and> request_change r r' \<and> rq_attempts r' = rq_attempts r \<and>
    (rq_guardian_approvals r' = rq_guardian_approvals r \<or>
      rid' = rid \<and> approve_guardian wall ip gid (rq_guardian_approvals r) = Inr (rq_guardian_approvals r') \<and>
      \<not> isl (snd (record_guardian_approval t wall m rid' gid ip)))"
  using assms
  by (auto simp: record_guardian_approval_def Let_def request_change_def update_conv'
      split: option.splits if_splits sum.splits recovery_method.splits)

lemma other_change:
  assumes "map_of (rm_requests m') rid = Some r'"
    and "m' \<in> {fst (check_time_lock t wall m rid'), fst (complete_recovery m rid'), fst (cancel_request m rid')}"
  shows "\<exists>r. map_of (rm_requests m) rid = Some r \<and> request_change r r' \<and> rq_attempts r' = rq_attempts r \<and>
    rq_guardian_approvals r' = rq_guardian_approvals r"
  using assms
  by (auto simp: check_time_lock_def complete_recovery_def cancel_request_def request_change_def update_conv'
      split: option.splits if_splits)

lemma recovery_do_distinct:
  assumes "distinct (map fst (rm_requests m))"
  shows "distinct (map fst (rm_requests (recovery_do E op m)))"
proof -
  have *: "xs \<in> {rm_requests m} \<union> range (\<lambda>r. AList.update rid r (rm_requests m)) \<Longrightarrow> distinct (map fst xs)" for xs rid
    using assms by (auto simp: distinct_update)
  show ?thesis
  proof (cases op)
    case (VerifyCode t rid code)
    then show ?thesis using assms by (auto simp: verify_code_def Let_def simp: distinct_update split: option.split)
  next
    case (ApproveGuardian t wall rid gid ip)
    then show ?thesis
      using assms by (auto simp: record_guardian_approval_def Let_def simp: distinct_update
          split: option.split sum.split recovery_method.split)
  next
    case (CleanupExpired t)
    then show ?thesis using assms by (simp add: cleanup_expired_requests_def Let_def distinct_map_filter)
  next
    case (CheckTimeLock t wall rid)
    then show ?thesis using assms by (auto simp: check_time_lock_def simp: distinct_update split: option.split)
  next
    case (CompleteRecovery rid)
    then show ?thesis using assms by (auto simp: complete_recovery_def simp: distinct_update split: option.split)
  next
    case (CancelRequest rid)
    then show ?thesis using assms by (auto simp: cancel_request_def simp: distinct_update split: option.split)
  qed (use assms * [OF initiate_requests(1)] * [OF initiate_requests(2)] * [OF initiate_requests(3)] * [OF initiate_requests(4)]
      in \<open>simp_all add: user_requests\<close>)
qed

text \<open>No operation but the opening ones makes a request.\<close>

lemma recovery_do_request:
  assumes d: "distinct (map fst (rm_requests m))" and o: "opens E op \<noteq> Some rid"
    and r': "map_of (rm_requests (recovery_do E op m)) rid = Some r'"
  shows "\<exists>r. map_of (rm_requests m) rid = Some r \<and> request_change r r' \<and>
    (rq_attempts r' = rq_attempts r \<longrightarrow> \<not> compares E rid m op) \<and>
    (rq_guardian_approvals r' = rq_guardian_approvals r \<or>
      (\<exists>t wall gid ip. op = ApproveGuardian t wall rid gid ip \<and>
        approve_guardian wall ip gid (rq_guardian_approvals r) = Inr (rq_guardian_approvals r') \<and>
        \<not> isl (snd (record_guardian_approval t wall m rid gid ip))))" (is ?P)
proof -
  have upd: "map_of (rm_requests m) rid = Some r'"
    if "xs \<in> {rm_requests m} \<union> range (\<lambda>r. AList.update rid' r (rm_requests m))" "rid' \<noteq> rid" "map_of xs rid = Some r'" for xs rid'
    using that by (auto simp: update_conv')
  have same: ?P if "map_of (rm_requests m) rid = Some r'" "\<not> compares E rid m op"
    using that by (simp add: request_change_def)
  show ?P
  proof (cases op)
    case (VerifyCode t rid' code)
    then show ?thesis using verify_code_change [of E t m rid' code rid r'] r' by (auto simp del: compares.simps)
  next
    case (ApproveGuardian t wall rid' gid ip)
    then show ?thesis using guardian_change [of t wall m rid' gid ip rid r'] r' by auto
  next
    case (CleanupExpired t)
    then have "map_of (rm_requests m) rid = Some r'"
      using r' d by (auto simp: cleanup_expired_requests_def Let_def map_of_filter_distinct split: option.splits if_splits)
    then show ?thesis by (rule same) (simp add: CleanupExpired)
  next
    case (CheckTimeLock t wall rid')
    then show ?thesis using other_change [of "recovery_do E op m" rid r' t wall m rid'] r' by auto
  next
    case (CompleteRecovery rid')
    then show ?thesis using other_change [of "recovery_do E op m" rid r' 0 0 m rid'] r' by auto
  next
    case (CancelRequest rid')
    then show ?thesis using other_change [of "recovery_do E op m" rid r' 0 0 m rid'] r' by auto
  next
    case (InitiateEmail t wall num rnd u ip ag)
    then show ?thesis using upd [OF initiate_requests(1)] r' o by (intro same) auto
  next
    case (InitiateSms t wall num rnd u ip ag)
    then show ?thesis using upd [OF initiate_requests(2)] r' o by (intro same) auto
  next
    case (InitiateTimeLocked t wall rnd u ip ag)
    then show ?thesis using upd [OF initiate_requests(3)] r' o by (intro same) auto
  next
    case (InitiateSocial t wall rnd u ip ag)
    then show ?thesis using upd [OF initiate_requests(4)] r' o by (intro same) auto
  qed (use r' same in \<open>simp_all add: user_requests\<close>)
qed

interpretation guess: budgeted "recovery_do E" "\<lambda>m. distinct (map fst (rm_requests m))" "\<lambda>op. opens E op \<noteq> Some rid" "compares E rid"
  "\<lambda>m. budget m rid" for E rid
proof
  fix m :: recovery_manager and op
  assume d: "distinct (map fst (rm_requests m))" and o: "opens E op \<noteq> Some rid"
  show "distinct (map fst (rm_requests (recovery_do E op m)))" using d by (rule recovery_do_distinct)
  note * = recovery_do_request [OF d o]
  show "budget (recovery_do E op m) rid \<le> budget m rid"
    using * by (fastforce simp: budget_def request_change_def unat_incr split: option.split)
  assume c: "compares E rid m op"
  show "budget (recovery_do E op m) rid < budget m rid"
  proof (cases "map_of (rm_requests (recovery_do E op m)) rid")
    case None
    then show ?thesis using c by (cases op) (auto simp: verify_code_def Let_def update_conv' split: option.splits if_splits)
  next
    case (Some r')
    from * [OF Some] c show ?thesis using Some
      by (auto simp: budget_def request_change_def unat_incr word_less_nat_alt)
  qed
qed

text \<open>A request is opened with the configured number of attempts, and the configuration stays.\<close>

lemma recovery_do_config [simp]: "rm_config (recovery_do E op m) = rm_config m"
  by (cases op)
    (simp_all add: configure_user_def initiate_email_recovery_def initiate_sms_recovery_def initiate_time_locked_recovery_def
      initiate_social_recovery_def verify_code_def verify_backup_code_def record_guardian_approval_def check_time_lock_def
      complete_recovery_def cancel_request_def cleanup_expired_requests_def regenerate_backup_codes_def open_request_def put_request_def Let_def
      split: option.split sum.split recovery_method.split)

definition fresh_request :: "recovery_config \<Rightarrow> recovery_request \<Rightarrow> bool" where
  "fresh_request c r \<longleftrightarrow> rq_attempts r = 0 \<and> rq_max_attempts r = rcf_max_attempts c \<and> \<not> list_ex ga_approved (rq_guardian_approvals r)"

lemma opened_request:
  assumes "opens E op = Some rid" "map_of (rm_requests (recovery_do E op m)) rid = Some r"
  shows "map_of (rm_requests m) rid = Some r \<or> fresh_request (rm_config m) r"
  using assms
  by (cases op)
    (auto simp: initiate_email_recovery_def initiate_sms_recovery_def initiate_time_locked_recovery_def initiate_social_recovery_def
      Let_def update_conv' fresh_request_def new_request_def list_ex_iff split: sum.splits)

lemma opened_budget:
  assumes "opens E op = Some rid"
  shows "budget (recovery_do E op m) rid \<le> budget m rid + unat (rcf_max_attempts (rm_config m))"
  using opened_request [OF assms] by (fastforce simp: budget_def fresh_request_def split: option.split)

definition openings :: "recovery_env \<Rightarrow> string \<Rightarrow> recovery_op list \<Rightarrow> nat" where
  "openings E rid ops = length (filter (\<lambda>op. opens E op = Some rid) ops)"

lemma guesses_budget:
  assumes "distinct (map fst (rm_requests m))"
  shows "guesses E rid m ops \<le> budget m rid + openings E rid ops * unat (rcf_max_attempts (rm_config m))"
  using assms
proof (induction ops arbitrary: m)
  case (Cons op ops)
  have IH: "guesses E rid (recovery_do E op m) ops \<le>
      budget (recovery_do E op m) rid + openings E rid ops * unat (rcf_max_attempts (rm_config m))"
    using Cons.IH [of "recovery_do E op m"] recovery_do_distinct [OF Cons.prems] by simp
  show ?case
  proof (cases "opens E op = Some rid")
    case True
    moreover have "\<not> compares E rid m op" using True by (cases op) auto
    ultimately show ?thesis using IH opened_budget [OF True, of m] by (simp add: guesses_def openings_def)
  next
    case False
    then show ?thesis
      using IH guess.free_step [OF Cons.prems False] guess.counted_step [OF Cons.prems False]
      by (auto simp: guesses_def openings_def)
  qed
qed (simp add: guesses_def)

text \<open>C28: In every run of the recovery manager, with any interleaving of its operations by any callers at any times, the submitted codes
  that are compared with the code of a request number at most the configured attempts for every time that the request was opened: no
  sequence of cancellations, approvals, clean-ups or reconfigurations gives a guesser more attempts.\<close>

theorem recovery_guesses_bounded:
  "guesses E rid (recovery_new c) ops \<le> openings E rid ops * unat (rcf_max_attempts c)"
  using guesses_budget [of "recovery_new c" E rid ops] by (simp add: recovery_new_def budget_def)

section \<open>Guardians\<close>

text \<open>Only the first entry with a given identifier is ever approved.\<close>

primrec approved_ids :: "guardian_approval list \<Rightarrow> string set" where
  "approved_ids [] = {}"
| "approved_ids (g # gs) = (if ga_approved g then insert (ga_guardian_id g) (approved_ids gs) else approved_ids gs)"

primrec first_approved :: "guardian_approval list \<Rightarrow> bool" where
  "first_approved [] \<longleftrightarrow> True"
| "first_approved (g # gs) \<longleftrightarrow> first_approved gs \<and> ga_guardian_id g \<notin> approved_ids gs"

lemma approve_guardian_Cons:
  "approve_guardian wall ip gid (g # gs) = Inr gs' \<longleftrightarrow>
     (if ga_guardian_id g = gid
      then \<not> ga_approved g \<and> gs' = g\<lparr>ga_approved := True, ga_approved_at := Some wall, ga_approved_from_ip := ip\<rparr> # gs
      else \<exists>gs1. approve_guardian wall ip gid gs = Inr gs1 \<and> gs' = g # gs1)"
  by (cases "approve_guardian wall ip gid gs") auto

lemma approve_guardian_ids: "approve_guardian wall ip gid gs = Inr gs' \<Longrightarrow> approved_ids gs' = insert gid (approved_ids gs)"
proof (induction gs arbitrary: gs')
  case (Cons g gs)
  show ?case
  proof (cases "ga_guardian_id g = gid")
    case True
    with Cons.prems show ?thesis by (auto split: if_splits)
  next
    case False
    with Cons.prems obtain gs1 where "approve_guardian wall ip gid gs = Inr gs1" "gs' = g # gs1"
      unfolding approve_guardian_Cons by auto
    with Cons.IH [of gs1] show ?thesis by (simp add: insert_commute)
  qed
qed simp

lemma approve_guardian_first: "approve_guardian wall ip gid gs = Inr gs' \<Longrightarrow> first_approved gs \<Longrightarrow> first_approved gs'"
proof (induction gs arbitrary: gs')
  case (Cons g gs)
  show ?case
  proof (cases "ga_guardian_id g = gid")
    case True
    with Cons.prems show ?thesis by (auto split: if_splits)
  next
    case False
    with Cons.prems obtain gs1 where "approve_guardian wall ip gid gs = Inr gs1" "gs' = g # gs1"
      unfolding approve_guardian_Cons by auto
    with False Cons.prems Cons.IH [of gs1] approve_guardian_ids [of wall ip gid gs gs1] show ?thesis by simp
  qed
qed simp

lemma finite_approved_ids [simp]: "finite (approved_ids gs)"
  by (induction gs) auto

lemma card_approved: "first_approved gs \<Longrightarrow> card (approved_ids gs) = length (filter ga_approved gs)"
  by (induction gs) auto

lemma not_approved: "\<not> list_ex ga_approved gs \<Longrightarrow> first_approved gs \<and> approved_ids gs = {}"
  by (induction gs) auto

definition approvals_from :: "string set \<Rightarrow> recovery_manager \<Rightarrow> string \<Rightarrow> bool" where
  "approvals_from A m rid \<longleftrightarrow> (\<forall>r. map_of (rm_requests m) rid = Some r \<longrightarrow>
     first_approved (rq_guardian_approvals r) \<and> approved_ids (rq_guardian_approvals r) \<subseteq> A)"

text \<open>The guardian whose approval an operation records.\<close>

fun approver :: "string \<Rightarrow> recovery_manager \<Rightarrow> recovery_op \<Rightarrow> string set" where
  "approver rid m (ApproveGuardian t wall rid' gid ip) =
     (if rid' = rid \<and> \<not> isl (snd (record_guardian_approval t wall m rid gid ip)) then {gid} else {})"
| "approver rid m op = {}"

lemma approver_step:
  assumes d: "distinct (map fst (rm_requests m))" and a: "approvals_from A m rid"
  shows "approvals_from (A \<union> approver rid m op) (recovery_do E op m) rid"
  unfolding approvals_from_def
proof (intro allI impI)
  fix r' assume r': "map_of (rm_requests (recovery_do E op m)) rid = Some r'"
  show "first_approved (rq_guardian_approvals r') \<and> approved_ids (rq_guardian_approvals r') \<subseteq> A \<union> approver rid m op"
  proof (cases "opens E op = Some rid")
    case True
    from opened_request [OF this r'] show ?thesis
      using a not_approved [of "rq_guardian_approvals r'"] by (auto simp: approvals_from_def fresh_request_def)
  next
    case False
    from recovery_do_request [OF d False r'] obtain r where r: "map_of (rm_requests m) rid = Some r"
      and c: "rq_guardian_approvals r' = rq_guardian_approvals r \<or>
        (\<exists>t wall gid ip. op = ApproveGuardian t wall rid gid ip \<and>
          approve_guardian wall ip gid (rq_guardian_approvals r) = Inr (rq_guardian_approvals r') \<and>
          \<not> isl (snd (record_guardian_approval t wall m rid gid ip)))" by blast
    have f: "first_approved (rq_guardian_approvals r)" "approved_ids (rq_guardian_approvals r) \<subseteq> A"
      using a r by (simp_all add: approvals_from_def)
    from c show ?thesis
    proof (elim disjE exE conjE)
      fix t wall gid ip
      assume op: "op = ApproveGuardian t wall rid gid ip" "\<not> isl (snd (record_guardian_approval t wall m rid gid ip))"
        and g: "approve_guardian wall ip gid (rq_guardian_approvals r) = Inr (rq_guardian_approvals r')"
      show ?thesis using f approve_guardian_first [OF g f(1)] by (auto simp: op approve_guardian_ids [OF g])
    qed (use f in auto)
  qed
qed

fun approvers :: "recovery_env \<Rightarrow> string \<Rightarrow> recovery_manager \<Rightarrow> recovery_op list \<Rightarrow> string set" where
  "approvers E rid m [] = {}"
| "approvers E rid m (op # ops) = approver rid m op \<union> approvers E rid (recovery_do E op m) ops"

lemma approvers_append [simp]:
  "approvers E rid m (xs @ ys) = approvers E rid m xs \<union> approvers E rid (run_ops (recovery_do E) m xs) ys"
  by (induction xs arbitrary: m) auto

lemma approvers_run:
  assumes "distinct (map fst (rm_requests m))" "approvals_from A m rid"
  shows "approvals_from (A \<union> approvers E rid m ops) (run_ops (recovery_do E) m ops) rid"
  using assms
proof (induction ops arbitrary: m A)
  case (Cons op ops)
  then show ?case
    using Cons.IH [OF recovery_do_distinct [OF Cons.prems(1)] approver_step [OF Cons.prems]] by (simp add: Un_assoc)
qed simp

lemma quorum_answer:
  assumes "snd (record_guardian_approval t wall m rid gid ip) = Inr True"
  shows "\<exists>r n threshold. map_of (rm_requests (fst (record_guardian_approval t wall m rid gid ip))) rid = Some r \<and>
    rq_method r = SocialRecovery threshold n \<and> has_guardian_quorum threshold r"
  using assms
  by (auto simp: record_guardian_approval_def Let_def has_guardian_quorum_def update_conv'
      split: option.splits if_splits sum.splits recovery_method.splits)

lemma finite_approvers: "finite (approvers E rid m ops)"
proof (induction ops arbitrary: m)
  case (Cons op ops)
  then show ?case by (cases op) auto
qed simp

text \<open>C29: When a guardian's approval is answered with the news that the quorum is reached, in any run of the recovery manager, at least as
  many different guardians as the request's threshold have had an approval of that request accepted in the run: a guardian who approves
  twice, or is listed twice, counts once.\<close>

theorem quorum_takes_distinct_guardians:
  assumes "snd (record_guardian_approval t wall (run_ops (recovery_do E) (recovery_new c) ops) rid gid ip) = Inr True"
  shows "\<exists>r threshold n. get_request (run_ops (recovery_do E) (recovery_new c) ops) rid = Some r \<and>
    rq_method r = SocialRecovery threshold n \<and>
    threshold \<le> card (approvers E rid (recovery_new c) (ops @ [ApproveGuardian t wall rid gid ip]))"
proof -
  let ?op = "ApproveGuardian t wall rid gid ip" and ?m = "run_ops (recovery_do E) (recovery_new c) ops"
  let ?A = "approvers E rid (recovery_new c) (ops @ [?op])"
  from quorum_answer [OF assms] obtain r threshold n where r: "map_of (rm_requests (recovery_do E ?op ?m)) rid = Some r"
    "rq_method r = SocialRecovery threshold n" "has_guardian_quorum threshold r" by auto
  from guardian_change [of t wall ?m rid gid ip rid r] r(1,2) obtain r0 where
    r0: "map_of (rm_requests ?m) rid = Some r0" "rq_method r0 = SocialRecovery threshold n" by (auto simp: request_change_def)
  have "approvals_from ?A (run_ops (recovery_do E) (recovery_new c) (ops @ [?op])) rid"
    using approvers_run [of "recovery_new c" "{}" rid E "ops @ [?op]"] by (simp add: recovery_new_def approvals_from_def)
  with r have a: "first_approved (rq_guardian_approvals r)" "approved_ids (rq_guardian_approvals r) \<subseteq> ?A"
    by (simp_all add: approvals_from_def)
  have "threshold \<le> card (approved_ids (rq_guardian_approvals r))"
    using r(3) card_approved [OF a(1)] by (simp add: has_guardian_quorum_def)
  also have "\<dots> \<le> card ?A" using a(2) finite_approvers by (rule card_mono [rotated])
  finally show ?thesis using r0 by (auto simp: get_request_def)
qed

definition sample_recovery_env :: recovery_env where
  "sample_recovery_env = \<lparr>re_sha256 = (\<lambda>x. x), re_hex = sample_hex, re_unhex = (\<lambda>s. Some (hex_pairs s))\<rparr>"

definition sample_guardians :: "guardian list" where
  "sample_guardians = map (\<lambda>g. \<lparr>gd_id = g, gd_name = g, gd_email = g, gd_added_at = 0\<rparr>) [''ann'', ''bob'', ''eve'']"

definition sample_social_run :: "recovery_op list" where
  "sample_social_run = [ConfigureUser 0 (\<lambda>i. [word_of_nat i]) ''joe'' (Some ''joe@x'') None sample_guardians True,
     InitiateSocial 0 0 [7] ''joe'' None None, ApproveGuardian 1 1 ''rec_07'' ''ann'' None]"

lemma sample_quorum:
  "snd (record_guardian_approval 2 2 (run_ops (recovery_do sample_recovery_env) (recovery_new recovery_config_default) sample_social_run)
     ''rec_07'' ''eve'' None) = Inr True"
  by code_simp

theorem quorum_takes_distinct_guardians_witness:
  "\<exists>r threshold n. get_request (run_ops (recovery_do sample_recovery_env) (recovery_new recovery_config_default) sample_social_run) ''rec_07'' = Some r \<and>
    rq_method r = SocialRecovery threshold n \<and>
    threshold \<le> card (approvers sample_recovery_env ''rec_07'' (recovery_new recovery_config_default)
      (sample_social_run @ [ApproveGuardian 2 2 ''rec_07'' ''eve'' None]))"
  using quorum_takes_distinct_guardians [OF sample_quorum] .

end
