(* ===== verification/Recovery_Codes.thy ===== *)
theory Recovery_Codes
  imports Recovery_Properties
begin

text \<open>
  Backup codes of the account recovery: each is accepted exactly once.
\<close>

text \<open>The stored hashes that a code matches, and the uses of one code.\<close>

definition matching :: "recovery_env \<Rightarrow> string \<Rightarrow> string \<Rightarrow> recovery_manager \<Rightarrow> nat" where
  "matching E u h m = (case map_of (rm_user_configs m) u of
     None \<Rightarrow> 0 | Some c \<Rightarrow> length (filter (\<lambda>s. ct_eq_hex_hash E s h) (uc_backup_code_hashes c)))"

fun code_used :: "recovery_env \<Rightarrow> string \<Rightarrow> string \<Rightarrow> recovery_manager \<Rightarrow> recovery_op \<Rightarrow> bool" where
  "code_used E u h m (VerifyBackupCode u' code) \<longleftrightarrow>
     u' = u \<and> backup_code_hash E code = h \<and> snd (verify_backup_code E m u code) = Inr ()"
| "code_used E u h m op \<longleftrightarrow> False"

text \<open>The operations that hand out new codes to a user.\<close>

fun new_codes_for :: "string \<Rightarrow> recovery_op \<Rightarrow> bool" where
  "new_codes_for u (ConfigureUser wall rnds u' em ph gs l) \<longleftrightarrow> u' = u"
| "new_codes_for u (RegenerateCodes wall rnds u') \<longleftrightarrow> u' = u"
| "new_codes_for u op \<longleftrightarrow> False"

lemma last_match_simps [simp]:
  "last_match E h [] = None"
  "last_match E h (xs @ [x]) = (if ct_eq_hex_hash E x h then Some (length xs) else last_match E h xs)"
  by (simp_all add: last_match_def)

lemma last_match_Some: "last_match E h xs = Some pos \<Longrightarrow> pos < length xs \<and> ct_eq_hex_hash E (xs ! pos) h"
  by (induction xs rule: rev_induct) (auto simp: nth_append split: if_splits)

lemma last_match_None: "last_match E h xs = None \<longleftrightarrow> \<not> list_ex (\<lambda>s. ct_eq_hex_hash E s h) xs"
  by (induction xs rule: rev_induct) auto

lemma remove_nth_matching:
  assumes "pos < length xs"
  shows "length (filter P (remove_nth pos xs)) = length (filter P xs) - (if P (xs ! pos) then 1 else 0)"
proof -
  have "filter P xs = filter P (take pos xs @ xs ! pos # drop (Suc pos) xs)" using assms by (simp add: id_take_nth_drop [symmetric])
  then show ?thesis by (simp add: remove_nth_def)
qed

text \<open>Only a use, a reconfiguration or a regeneration changes the stored codes of a user.\<close>

lemma recovery_do_users:
  assumes "\<not> new_codes_for u op" "\<And>code. op \<noteq> VerifyBackupCode u code"
  shows "map_of (rm_user_configs (recovery_do E op m)) u = map_of (rm_user_configs m) u"
  using assms
  by (cases op)
    (auto simp: configure_user_def initiate_email_recovery_def initiate_sms_recovery_def initiate_time_locked_recovery_def
      initiate_social_recovery_def verify_code_def verify_backup_code_def record_guardian_approval_def check_time_lock_def
      complete_recovery_def cancel_request_def cleanup_expired_requests_def regenerate_backup_codes_def open_request_def put_request_def Let_def
      update_conv' split: option.split sum.split recovery_method.split)

lemma removed_match:
  assumes "last_match E h xs = Some p"
  shows "length (filter (\<lambda>s. ct_eq_hex_hash E s h) (remove_nth p xs)) < length (filter (\<lambda>s. ct_eq_hex_hash E s h) xs)"
proof -
  from last_match_Some [OF assms] have p: "p < length xs" "ct_eq_hex_hash E (xs ! p) h" by simp_all
  then have "filter (\<lambda>s. ct_eq_hex_hash E s h) xs \<noteq> []" by (auto simp: filter_empty_conv)
  then show ?thesis using p by (simp add: remove_nth_matching)
qed

lemma verify_backup_code_matching:
  "matching E u h (fst (verify_backup_code E m u code)) \<le> matching E u h m"
  "snd (verify_backup_code E m u code) = Inr () \<Longrightarrow> backup_code_hash E code = h \<Longrightarrow>
    matching E u h (fst (verify_backup_code E m u code)) < matching E u h m"
  by (auto simp: verify_backup_code_def matching_def update_conv' remove_nth_matching dest: last_match_Some split: option.split)
    (auto dest: removed_match split: option.splits)

interpretation backup: budgeted "recovery_do E" "\<lambda>_. True" "\<lambda>op. \<not> new_codes_for u op" "code_used E u h" "matching E u h" for E u h
proof
  fix m :: recovery_manager and op
  assume n: "\<not> new_codes_for u op"
  show "matching E u h (recovery_do E op m) \<le> matching E u h m"
  proof (cases "\<exists>code. op = VerifyBackupCode u code")
    case False
    then show ?thesis using recovery_do_users [OF n, of E m] by (simp add: matching_def)
  qed (auto simp: verify_backup_code_matching(1))
  show "matching E u h (recovery_do E op m) < matching E u h m" if "code_used E u h m op"
    using that verify_backup_code_matching(2) by (cases op) auto
qed simp

text \<open>What is stored for the codes handed out, and how a code may be typed.\<close>

lemma filter_formatted: "filter (\<lambda>c. c \<noteq> CHR ''-'') (formatted code) = filter (\<lambda>c. c \<noteq> CHR ''-'') code"
proof -
  have *: "concat (map (\<lambda>x. filter (\<lambda>c. c \<noteq> CHR ''-'') (''-'' @ x)) (chunks4 code)) = filter (\<lambda>c. c \<noteq> CHR ''-'') code" for code
    by (induction code rule: chunks4.induct) auto
  show ?thesis
    using * [of code] by (auto simp: formatted_def filter_concat comp_def split: list.split)
qed

lemma ascii_upper_dash [simp]: "ascii_upper c = CHR ''-'' \<longleftrightarrow> c = CHR ''-''" "CHR ''-'' = ascii_upper c \<longleftrightarrow> c = CHR ''-''"
proof -
  have False if "char_of (n - 32) = CHR ''-''" "97 \<le> n" "n \<le> 122" for n :: nat
    using arg_cong [OF that(1), of "of_char :: char \<Rightarrow> nat"] that(2,3) by (simp add: of_char_of take_bit_eq_mod)
  then show "ascii_upper c = CHR ''-'' \<longleftrightarrow> c = CHR ''-''" by (auto simp: ascii_upper_def Let_def)
  then show "CHR ''-'' = ascii_upper c \<longleftrightarrow> c = CHR ''-''" by auto
qed

lemma ascii_upper_dash_eq [simp]: "ascii_upper CHR ''-'' = CHR ''-''"
  by simp

lemma distinct_count_list: "distinct xs \<Longrightarrow> count_list xs x = (if x \<in> set xs then 1 else 0)"
  by (induction xs) auto

lemma filter_map_upper: "filter (\<lambda>c. c \<noteq> CHR ''-'') (map ascii_upper s) = map ascii_upper (filter (\<lambda>c. c \<noteq> CHR ''-'') s)"
  by (induction s) auto

text \<open>A handed-out code typed as printed, in groups of four, or in lower case.\<close>

definition typed :: "string \<Rightarrow> string set" where
  "typed code = {code, formatted code, map ascii_lower code}"

lemma backup_code_hash_typed:
  assumes "\<And>x. CHR ''-'' \<notin> set (re_hex E x)" "s \<in> typed (generate_recovery_code E n rnd)"
  shows "backup_code_hash E s = recovery_code_hash E (generate_recovery_code E n rnd)"
proof -
  let ?code = "generate_recovery_code E n rnd"
  have "CHR ''-'' \<notin> set ?code"
    using assms(1) [of rnd] in_set_takeD [of "CHR ''-''" n "re_hex E rnd"] by (auto simp: generate_recovery_code_def)
  then have *: "filter (\<lambda>c. c \<noteq> CHR ''-'') ?code = ?code" by (auto intro: filter_True)
  have lower: "map ascii_upper (map ascii_lower ?code) = map ascii_upper ?code" by simp
  from assms(2) show ?thesis
    unfolding typed_def
  proof (elim insertE emptyE)
    assume "s = formatted ?code"
    then show ?thesis using * by (simp add: backup_code_hash_def recovery_code_hash_def filter_map_upper filter_formatted)
  next
    assume "s = map ascii_lower ?code"
    then show ?thesis unfolding backup_code_hash_def recovery_code_hash_def by (simp only: lower) (simp add: filter_map_upper *)
  qed (simp add: backup_code_hash_def recovery_code_hash_def filter_map_upper *)
qed

lemma ct_eq_hex:
  assumes "\<And>x. re_unhex E (re_hex E x) = Some x"
  shows "ct_eq_hex_hash E (re_hex E a) (re_hex E b) \<longleftrightarrow> a = b"
  by (auto simp: ct_eq_hex_hash_def assms)

lemma configured_hashes:
  assumes "configure_user E wall rnds m u em ph gs l = (m1, codes)"
  shows "\<exists>cfg. map_of (rm_user_configs m1) u = Some cfg \<and> uc_backup_code_hashes cfg = map (recovery_code_hash E) codes"
  using assms by (auto simp: configure_user_def Let_def update_conv')

lemma matching_configured:
  assumes hex: "\<And>x. re_unhex E (re_hex E x) = Some x" and c: "configure_user E wall rnds m u em ph gs l = (m1, codes)"
  shows "matching E u (recovery_code_hash E code) m1 = count_list (map (recovery_code_hash E) codes) (recovery_code_hash E code)"
proof -
  have "re_hex E a = re_hex E b \<longleftrightarrow> a = b" for a b using hex by (metis option.inject)
  then have "ct_eq_hex_hash E (recovery_code_hash E a) (recovery_code_hash E b) \<longleftrightarrow> recovery_code_hash E b = recovery_code_hash E a" for a b
    by (auto simp: recovery_code_hash_def ct_eq_hex [OF hex])
  then have "length (filter (\<lambda>s. ct_eq_hex_hash E s (recovery_code_hash E code)) (map (recovery_code_hash E) xs)) =
      count_list (map (recovery_code_hash E) xs) (recovery_code_hash E code)" for xs
    by (induction xs) auto
  with configured_hashes [OF c] show ?thesis by (auto simp: matching_def)
qed

lemma matching_accepted:
  assumes "0 < matching E u (backup_code_hash E s) m"
  shows "snd (verify_backup_code E m u s) = Inr ()"
proof (cases "map_of (rm_user_configs m) u")
  case (Some cfg)
  with assms have "list_ex (\<lambda>x. ct_eq_hex_hash E x (backup_code_hash E s)) (uc_backup_code_hashes cfg)"
    by (auto simp: matching_def list_ex_iff filter_empty_conv)
  then have "last_match E (backup_code_hash E s) (uc_backup_code_hashes cfg) \<noteq> None" by (simp add: last_match_None)
  then show ?thesis using Some by (auto simp: verify_backup_code_def)
qed (use assms in \<open>simp add: matching_def\<close>)

text \<open>C30: A backup code works exactly once. A user is configured and handed codes with different hashes. Any of the codes, typed as
  printed, in groups or in lower case, is accepted; and in any run of operations in which the user gets no new codes, no code is accepted
  twice, however it is typed.\<close>

theorem backup_code_works_once:
  assumes hex: "\<And>x. re_unhex E (re_hex E x) = Some x" "\<And>x. CHR ''-'' \<notin> set (re_hex E x)"
    and c: "configure_user E wall rnds m u em ph gs l = (m1, codes)" "distinct (map (recovery_code_hash E) codes)"
    and s: "code \<in> set codes" "s \<in> typed code"
    and ops: "list_all (\<lambda>op. \<not> new_codes_for u op) ops"
  shows "snd (verify_backup_code E m1 u s) = Inr () \<and> tally (recovery_do E) (code_used E u (backup_code_hash E s)) m1 ops \<le> 1"
proof
  from c(1) s(1) obtain rnd where code: "code = generate_recovery_code E 12 rnd" by (auto simp: configure_user_def Let_def)
  have h: "backup_code_hash E s = recovery_code_hash E code" using backup_code_hash_typed [OF hex(2)] s(2) code by simp
  have count: "matching E u (backup_code_hash E s) m1 = 1"
    using matching_configured [OF hex(1) c(1), of code] c(2) s(1) by (simp add: h distinct_count_list)
  then show "snd (verify_backup_code E m1 u s) = Inr ()" by (simp add: matching_accepted)
  show "tally (recovery_do E) (code_used E u (backup_code_hash E s)) m1 ops \<le> 1"
    using backup.tally_bound [OF TrueI ops] unfolding count [symmetric] .
qed

lemma configured_codes: "snd (configure_user E wall rnds m u em ph gs l) = map (\<lambda>i. generate_recovery_code E 12 (rnds i)) [0..<10]"
  by (simp add: configure_user_def Let_def)

definition sample_codes :: "string list" where
  "sample_codes = map (\<lambda>i. ''00000000000'' @ [hex_digit i]) [0..<10]"

definition sample_user :: recovery_manager where
  "sample_user = fst (configure_user sample_recovery_env 0 (\<lambda>i. [0, 0, 0, 0, 0, word_of_nat i]) recovery_with_defaults ''joe'' None None [] False)"

lemma sample_configured:
  "configure_user sample_recovery_env 0 (\<lambda>i. [0, 0, 0, 0, 0, word_of_nat i]) recovery_with_defaults ''joe'' None None [] False =
     (sample_user, sample_codes)"
proof (rule prod_eqI)
  have "map (\<lambda>i. generate_recovery_code sample_recovery_env 12 [0, 0, 0, 0, 0, word_of_nat i]) [0..<10] = sample_codes" by code_simp
  then show "snd (configure_user sample_recovery_env 0 (\<lambda>i. [0, 0, 0, 0, 0, word_of_nat i]) recovery_with_defaults ''joe'' None None [] False) =
    snd (sample_user, sample_codes)"
    unfolding configured_codes by simp
qed (simp add: sample_user_def)

lemma sample_hex_dash: "CHR ''-'' \<notin> set (sample_hex bs)"
proof -
  have "\<forall>n \<in> set [0..<16]. hex_digit n \<noteq> CHR ''-''" by code_simp
  moreover have "unat b div 16 < 16" "unat b mod 16 < 16" for b :: "8 word"
    using unsigned_less [where ?'a = nat, of b] by (simp_all add: less_mult_imp_div_less)
  ultimately show ?thesis by (fastforce simp: sample_hex_def)
qed

theorem backup_code_works_once_witness:
  "snd (verify_backup_code sample_recovery_env sample_user ''joe'' ''0000-0000-0001'') = Inr () \<and>
   tally (recovery_do sample_recovery_env) (code_used sample_recovery_env ''joe'' (backup_code_hash sample_recovery_env ''0000-0000-0001''))
     sample_user [VerifyBackupCode ''joe'' ''0000-0000-0001'', CancelRequest ''rec_07'', VerifyBackupCode ''joe'' ''000000000001''] \<le> 1"
  by (rule backup_code_works_once [OF _ _ sample_configured, where code = "''000000000001''"])
    (simp add: sample_recovery_env_def hex_pairs_sample_hex, simp add: sample_recovery_env_def sample_hex_dash,
      code_simp, code_simp, code_simp, simp)

end
