(* ===== verification/Recovery_Locks.thy ===== *)
theory Recovery_Locks
  imports Recovery_Properties
begin

text \<open>
  Time-locked recovery, and a way around the proofs that the other methods ask for.
\<close>

text \<open>A time-locked request that is not approved, has no code and no guardians, and ends at a given time.\<close>

definition locked_until :: "int \<Rightarrow> string \<Rightarrow> recovery_manager \<Rightarrow> bool" where
  "locked_until e rid m \<longleftrightarrow> (\<forall>r. map_of (rm_requests m) rid = Some r \<longrightarrow>
     rq_time_lock_ends_at r = Some e \<and> rq_verification_hash r = None \<and> rq_guardian_approvals r = [] \<and> rq_status r \<notin> {RApproved, RCompleted})"

text \<open>The operations other than opening the request again and looking at the lock after its end.\<close>

fun before_end :: "recovery_env \<Rightarrow> int \<Rightarrow> string \<Rightarrow> recovery_op \<Rightarrow> bool" where
  "before_end E e rid (CheckTimeLock t wall rid') \<longleftrightarrow> rid' \<noteq> rid \<or> wall < e"
| "before_end E e rid op \<longleftrightarrow> opens E op \<noteq> Some rid"

lemma locked_verify:
  assumes "locked_until e rid m"
  shows "locked_until e rid (fst (verify_code E t m rid' code))"
proof (cases "rid' = rid")
  case True
  with assms show ?thesis
    by (cases "map_of (rm_requests m) rid") (simp_all add: locked_until_def verify_code_def update_conv')
next
  case False
  then have "map_of (rm_requests (fst (verify_code E t m rid' code))) rid = map_of (rm_requests m) rid"
    by (simp add: verify_code_def Let_def update_conv' split: option.split)
  with assms show ?thesis by (simp add: locked_until_def)
qed

lemma locked_step:
  assumes d: "distinct (map fst (rm_requests m))" and l: "locked_until e rid m" and b: "before_end E e rid op"
  shows "locked_until e rid (recovery_do E op m)"
proof (cases op)
  case (VerifyCode t rid' code)
  with locked_verify [OF l] show ?thesis by simp
next
  case (ApproveGuardian t wall rid' gid ip)
  with l show ?thesis
    by (auto simp: locked_until_def record_guardian_approval_def Let_def update_conv' split: option.splits sum.splits recovery_method.splits)
next
  case (CheckTimeLock t wall rid')
  with l b show ?thesis by (auto simp: locked_until_def check_time_lock_def time_lock_passed_def update_conv' split: option.splits)
next
  case (CompleteRecovery rid')
  with l show ?thesis by (auto simp: locked_until_def complete_recovery_def update_conv' split: option.splits)
next
  case (CancelRequest rid')
  with l show ?thesis by (auto simp: locked_until_def cancel_request_def update_conv' split: option.splits)
next
  case (CleanupExpired t)
  with l d show ?thesis by (auto simp: locked_until_def cleanup_expired_requests_def Let_def map_of_filter_distinct split: option.splits)
next
  case (InitiateEmail t wall num rnd u ip ag)
  with l b show ?thesis using initiate_requests(1) [of E t wall num rnd m u ip ag] by (auto simp: locked_until_def update_conv')
next
  case (InitiateSms t wall num rnd u ip ag)
  with l b show ?thesis using initiate_requests(2) [of E t wall num rnd m u ip ag] by (auto simp: locked_until_def update_conv')
next
  case (InitiateTimeLocked t wall rnd u ip ag)
  with l b show ?thesis using initiate_requests(3) [of E t wall rnd m u ip ag] by (auto simp: locked_until_def update_conv')
next
  case (InitiateSocial t wall rnd u ip ag)
  with l b show ?thesis using initiate_requests(4) [of E t wall rnd m u ip ag] by (auto simp: locked_until_def update_conv')
qed (use l in \<open>simp_all add: locked_until_def user_requests\<close>)

lemma locked_run:
  assumes "distinct (map fst (rm_requests m))" "locked_until e rid m" "list_all (before_end E e rid) ops"
  shows "locked_until e rid (run_ops (recovery_do E) m ops)"
  using assms by (induction ops arbitrary: m) (simp_all add: locked_step recovery_do_distinct)

lemma locked_not_completed: "locked_until e rid m \<Longrightarrow> snd (complete_recovery m rid) \<noteq> Inr ()"
  by (auto simp: locked_until_def complete_recovery_def split: option.split)

lemma opened_locked:
  assumes "initiate_time_locked_recovery E t wall rnd m u ip ag = (m1, Inr rid)" "map_of (rm_user_configs m) u = Some cfg"
  shows "locked_until (wall + uint (uc_time_lock_hours cfg) * 3600) rid m1"
  using assms
  by (cases "recovery_rate_limit t m u")
    (auto simp: initiate_time_locked_recovery_def Let_def locked_until_def new_request_def update_conv' recovery_user_def ok_or_def
      split: if_splits)

lemma initiate_distinct:
  assumes "distinct (map fst (rm_requests m))"
  shows "distinct (map fst (rm_requests (fst (initiate_time_locked_recovery E t wall rnd m u ip ag))))"
  using recovery_do_distinct [OF assms, of E "InitiateTimeLocked t wall rnd u ip ag"] by simp

text \<open>C31: A time-locked recovery cannot be completed before its lock ends. After the request is opened, no run of operations of the
  manager, by anyone and about any request, makes it completable as long as the request is not looked at with a clock at or past the end
  of the lock, and its identifier is not drawn again.\<close>

theorem time_lock_holds:
  assumes m: "distinct (map fst (rm_requests m))" "map_of (rm_user_configs m) u = Some cfg"
    and i: "initiate_time_locked_recovery E t wall rnd m u ip ag = (m1, Inr rid)"
    and ops: "list_all (before_end E (wall + uint (uc_time_lock_hours cfg) * 3600) rid) ops"
  shows "snd (complete_recovery (run_ops (recovery_do E) m1 ops) rid) \<noteq> Inr ()"
proof -
  have "distinct (map fst (rm_requests m1))" using initiate_distinct [OF m(1), of E t wall rnd u ip ag] i by simp
  from locked_run [OF this opened_locked [OF i m(2)] ops] show ?thesis by (rule locked_not_completed)
qed

definition sample_locked :: recovery_manager where
  "sample_locked = (recovery_new (recovery_config_default\<lparr>rcf_code_length := 2\<rparr>))\<lparr>rm_user_configs := [(''joe'', \<lparr>uc_user_id = ''joe'', uc_email = Some ''joe@x'', uc_phone = None,
     uc_backup_code_hashes = [], uc_guardians = [], uc_time_locked_enabled = True, uc_time_lock_hours = 24, uc_updated_at = 0\<rparr>)]\<rparr>"

lemma sample_lock_opened:
  "initiate_time_locked_recovery sample_recovery_env 0 1000 [7] sample_locked ''joe'' None None =
     (fst (initiate_time_locked_recovery sample_recovery_env 0 1000 [7] sample_locked ''joe'' None None), Inr ''rec_07'')"
  by (rule prod_eqI) (simp, code_simp)

theorem time_lock_holds_witness:
  "snd (complete_recovery (run_ops (recovery_do sample_recovery_env)
     (fst (initiate_time_locked_recovery sample_recovery_env 0 1000 [7] sample_locked ''joe'' None None))
     [CheckTimeLock 5 87399 ''rec_07'', VerifyCode 6 ''rec_07'' ''123456'']) ''rec_07'') \<noteq> Inr ()"
proof -
  have u: "map_of (rm_user_configs sample_locked) ''joe'' = Some (snd (hd (rm_user_configs sample_locked)))" by (simp add: sample_locked_def)
  have d: "distinct (map fst (rm_requests sample_locked))" by (simp add: sample_locked_def recovery_new_def)
  show ?thesis by (rule time_lock_holds [OF d u sample_lock_opened]) (simp add: sample_locked_def)
qed

text \<open>Without a time lock, the time lock counts as passed.\<close>

lemma check_time_lock_approves:
  assumes "map_of (rm_requests m) rid = Some r" "rq_time_lock_ends_at r = None" "\<not> request_is_expired t r"
  shows "snd (check_time_lock t wall m rid) = Inr True \<and> snd (complete_recovery (fst (check_time_lock t wall m rid)) rid) = Inr ()"
  using assms by (simp add: check_time_lock_def time_lock_passed_def complete_recovery_def put_request_def update_conv')

text \<open>A request that has been denied is approved again by the same look at its lock.\<close>

lemma denied_request_is_approved:
  assumes "map_of (rm_requests m) rid = Some r" "rq_time_lock_ends_at r = None" "\<not> request_is_expired t r"
  shows "snd (complete_recovery (fst (check_time_lock t wall (fst (cancel_request m rid)) rid)) rid) = Inr ()"
  using assms check_time_lock_approves [of "fst (cancel_request m rid)" rid "r\<lparr>rq_status := RDenied\<rparr>" t wall]
  by (simp add: cancel_request_def request_is_expired_def update_conv')

text \<open>A recovery by email is completed without the code. After the request is opened and until it expires, asking for its time
  lock, of which it has none, answers true and approves it, and the recovery completes; the code was never submitted.\<close>

theorem email_recovery_needs_no_code:
  assumes "initiate_email_recovery E t wall num rnd m u ip ag = (m1, Inr (rid, code))" "t' - t \<le> rcf_code_ttl (rm_config m)"
    "0 \<le> rcf_code_ttl (rm_config m)"
  shows "snd (check_time_lock t' wall' m1 rid) = Inr True \<and> snd (complete_recovery (fst (check_time_lock t' wall' m1 rid)) rid) = Inr ()"
proof (rule check_time_lock_approves)
  let ?r = "the (map_of (rm_requests m1) rid)"
  from assms show "map_of (rm_requests m1) rid = Some ?r" "rq_time_lock_ends_at ?r = None" "\<not> request_is_expired t' ?r"
    by (auto simp: initiate_email_recovery_def Let_def new_request_def request_is_expired_def update_conv' split: sum.splits)
qed

lemma sample_email_opened:
  "initiate_email_recovery sample_recovery_env 0 1000 42 [7] sample_locked ''joe'' None None =
     (fst (initiate_email_recovery sample_recovery_env 0 1000 42 [7] sample_locked ''joe'' None None), Inr (''rec_07'', ''42''))"
  by (rule prod_eqI) (simp, code_simp)

theorem email_recovery_needs_no_code_witness:
  "let m1 = fst (initiate_email_recovery sample_recovery_env 0 1000 42 [7] sample_locked ''joe'' None None) in
   snd (check_time_lock 5 1000 m1 ''rec_07'') = Inr True \<and>
   snd (complete_recovery (fst (check_time_lock 5 1000 m1 ''rec_07'')) ''rec_07'') = Inr ()"
  unfolding Let_def
  by (rule email_recovery_needs_no_code [OF sample_email_opened])
    (simp_all add: sample_locked_def recovery_new_def recovery_config_default_def seconds_def)

text \<open>An email address without a local part makes the list of methods panic.\<close>

lemma empty_local_part_panics: "mask_email (CHR ''@'' # domain) = None"
  by (simp add: mask_email_def split_once_at_def)

end
