(* ===== verification/Policy_Types.thy ===== *)
theory Policy_Types
  imports Hsm_Prelude
begin

text \<open>
  Data of the transaction policy engine: \<^verbatim>\<open>crates/auth/src/policy/types.rs\<close>, \<^verbatim>\<open>spending.rs\<close>, \<^verbatim>\<open>address.rs\<close>. Instants are
  nanoseconds, the current one an argument \<open>now\<close>; texts are ASCII; identifiers and time stamps of new objects are arguments. The rules of a
  policy are JSON values, a type parameter.
\<close>

section \<open>Assets, windows and policies\<close>

datatype asset_type =
    Native string
  | Erc20 u64 string
  | Erc721 u64 string
  | AnyAsset

datatype policy_scope =
    GlobalScope
  | NamespaceScope string
  | KeyScope string
  | UserScope string
  | AssetScope asset_type

definition native :: "string \<Rightarrow> asset_type" where
  "native symbol = Native (map ascii_upper symbol)"

definition erc20 :: "u64 \<Rightarrow> string \<Rightarrow> asset_type" where
  "erc20 chain_id contract = Erc20 chain_id (map ascii_lower contract)"

fun asset_matches :: "asset_type \<Rightarrow> asset_type \<Rightarrow> bool" where
  "asset_matches AnyAsset _ \<longleftrightarrow> True"
| "asset_matches _ AnyAsset \<longleftrightarrow> True"
| "asset_matches (Native a) (Native b) \<longleftrightarrow> a = b"
| "asset_matches (Erc20 c1 a1) (Erc20 c2 a2) \<longleftrightarrow> c1 = c2 \<and> a1 = a2"
| "asset_matches (Erc721 c1 a1) (Erc721 c2 a2) \<longleftrightarrow> c1 = c2 \<and> a1 = a2"
| "asset_matches _ _ \<longleftrightarrow> False"

fun show_asset :: "asset_type \<Rightarrow> string" where
  "show_asset (Native symbol) = symbol"
| "show_asset (Erc20 chain_id contract) = ''ERC20:'' @ show_nat (unat chain_id) @ '':'' @ take (min 8 (length contract)) contract"
| "show_asset (Erc721 chain_id contract) = ''ERC721:'' @ show_nat (unat chain_id) @ '':'' @ take (min 8 (length contract)) contract"
| "show_asset AnyAsset = ''*''"

datatype time_window = PerTransaction | Hour | Day | Week | Month

definition hours :: "int \<Rightarrow> int" where
  "hours h = h * 3600000000000"

fun window_duration :: "time_window \<Rightarrow> int option" where
  "window_duration PerTransaction = None"
| "window_duration Hour = Some (hours 1)"
| "window_duration Day = Some (hours 24)"
| "window_duration Week = Some (hours (7 * 24))"
| "window_duration Month = Some (hours (30 * 24))"

definition is_within :: "int \<Rightarrow> time_window \<Rightarrow> int \<Rightarrow> bool" where
  "is_within now w timestamp = (case window_duration w of None \<Rightarrow> True | Some d \<Rightarrow> now - timestamp < d)"

definition window_start_time :: "int \<Rightarrow> time_window \<Rightarrow> int" where
  "window_start_time now w = (case window_duration w of None \<Rightarrow> now | Some d \<Rightarrow> now - d)"

fun show_window :: "time_window \<Rightarrow> string" where
  "show_window PerTransaction = ''per-tx''"
| "show_window Hour = ''hourly''"
| "show_window Day = ''daily''"
| "show_window Week = ''weekly''"
| "show_window Month = ''monthly''"

record 'j policy =
  pol_id :: u128
  pol_name :: string
  pol_description :: "string option"
  pol_scope :: policy_scope
  pol_enabled :: bool
  pol_priority :: int
  pol_created_at :: int
  pol_updated_at :: int
  pol_version :: u32
  pol_rules :: 'j

definition policy_new :: "u128 \<Rightarrow> int \<Rightarrow> string \<Rightarrow> policy_scope \<Rightarrow> 'j \<Rightarrow> 'j policy" where
  "policy_new uuid now name scope rules =
     \<lparr>pol_id = uuid, pol_name = name, pol_description = None, pol_scope = scope, pol_enabled = True, pol_priority = 0,
      pol_created_at = now, pol_updated_at = now, pol_version = 1, pol_rules = rules\<rparr>"

definition with_description :: "'j policy \<Rightarrow> string \<Rightarrow> 'j policy" where
  "with_description p d = p\<lparr>pol_description := Some d\<rparr>"

definition with_priority :: "'j policy \<Rightarrow> int \<Rightarrow> 'j policy" where
  "with_priority p n = p\<lparr>pol_priority := n\<rparr>"

definition set_enabled :: "int \<Rightarrow> 'j policy \<Rightarrow> bool \<Rightarrow> 'j policy" where
  "set_enabled now p b = p\<lparr>pol_enabled := b, pol_updated_at := now, pol_version := pol_version p + 1\<rparr>"

definition update_rules :: "int \<Rightarrow> 'j policy \<Rightarrow> 'j \<Rightarrow> 'j policy" where
  "update_rules now p rules = p\<lparr>pol_rules := rules, pol_updated_at := now, pol_version := pol_version p + 1\<rparr>"

section \<open>Spending and velocity limits\<close>

definition parse_u128 :: "string \<Rightarrow> u128 option" where
  "parse_u128 s = map_option word_of_nat (parse_uint 128 s)"

record spending_limit =
  sl_asset_type :: asset_type
  sl_window :: time_window
  sl_max_value :: string
  sl_max_transactions :: "u32 option"
  sl_hard_limit :: bool

definition spending_limit_new :: "asset_type \<Rightarrow> time_window \<Rightarrow> string \<Rightarrow> spending_limit" where
  "spending_limit_new a w v =
     \<lparr>sl_asset_type = a, sl_window = w, sl_max_value = v, sl_max_transactions = None, sl_hard_limit = True\<rparr>"

definition with_max_transactions :: "spending_limit \<Rightarrow> u32 \<Rightarrow> spending_limit" where
  "with_max_transactions l n = l\<lparr>sl_max_transactions := Some n\<rparr>"

definition soft_limit :: "spending_limit \<Rightarrow> spending_limit" where
  "soft_limit l = l\<lparr>sl_hard_limit := False\<rparr>"

definition max_value_u128 :: "spending_limit \<Rightarrow> u128 option" where
  "max_value_u128 l = parse_u128 (sl_max_value l)"

definition exceeds :: "spending_limit \<Rightarrow> string \<Rightarrow> bool" where
  "exceeds l v = (case (max_value_u128 l, parse_u128 v) of (Some mx, Some x) \<Rightarrow> x > mx | _ \<Rightarrow> False)"

definition show_spending_limit :: "spending_limit \<Rightarrow> string" where
  "show_spending_limit l =
     (if sl_hard_limit l then ''Hard'' else ''Soft'') @ '' '' @ show_window (sl_window l) @ '' max '' @ sl_max_value l @ '' '' @ show_asset (sl_asset_type l)"

record velocity_limit =
  vl_window :: time_window
  vl_max_count :: u32
  vl_max_total_value :: "string option"
  vl_asset_type :: "asset_type option"
  vl_cooldown_seconds :: "u32 option"

definition velocity_limit_new :: "time_window \<Rightarrow> u32 \<Rightarrow> velocity_limit" where
  "velocity_limit_new w n =
     \<lparr>vl_window = w, vl_max_count = n, vl_max_total_value = None, vl_asset_type = None, vl_cooldown_seconds = None\<rparr>"

definition with_max_total_value :: "velocity_limit \<Rightarrow> string \<Rightarrow> velocity_limit" where
  "with_max_total_value l v = l\<lparr>vl_max_total_value := Some v\<rparr>"

definition velocity_for_asset :: "velocity_limit \<Rightarrow> asset_type \<Rightarrow> velocity_limit" where
  "velocity_for_asset l a = l\<lparr>vl_asset_type := Some a\<rparr>"

definition with_cooldown :: "velocity_limit \<Rightarrow> u32 \<Rightarrow> velocity_limit" where
  "with_cooldown l n = l\<lparr>vl_cooldown_seconds := Some n\<rparr>"

definition exceeds_count :: "velocity_limit \<Rightarrow> u32 \<Rightarrow> bool" where
  "exceeds_count l n \<longleftrightarrow> n \<ge> vl_max_count l"

definition exceeds_value :: "velocity_limit \<Rightarrow> string \<Rightarrow> bool" where
  "exceeds_value l tot =
     (case vl_max_total_value l of
        Some mx \<Rightarrow> (case (parse_u128 mx, parse_u128 tot) of (Some a, Some b) \<Rightarrow> b > a | _ \<Rightarrow> False)
      | None \<Rightarrow> False)"

definition show_velocity_limit :: "velocity_limit \<Rightarrow> string" where
  "show_velocity_limit l =
     show_nat (unat (vl_max_count l)) @ '' tx per '' @ show_window (vl_window l) @
     (case vl_max_total_value l of Some v \<Rightarrow> '' (max '' @ v @ '')'' | None \<Rightarrow> []) @
     (case vl_cooldown_seconds l of Some c \<Rightarrow> '' ['' @ show_nat (unat c) @ ''s cooldown]'' | None \<Rightarrow> [])"

record spending_policy =
  sp_limits :: "spending_limit list"
  sp_velocity_limits :: "velocity_limit list"
  sp_bypass_addresses :: "string list"

definition spending_policy_new :: spending_policy where
  "spending_policy_new = \<lparr>sp_limits = [], sp_velocity_limits = [], sp_bypass_addresses = []\<rparr>"

definition add_limit :: "spending_policy \<Rightarrow> spending_limit \<Rightarrow> spending_policy" where
  "add_limit p l = p\<lparr>sp_limits := sp_limits p @ [l]\<rparr>"

definition add_velocity_limit :: "spending_policy \<Rightarrow> velocity_limit \<Rightarrow> spending_policy" where
  "add_velocity_limit p l = p\<lparr>sp_velocity_limits := sp_velocity_limits p @ [l]\<rparr>"

definition add_bypass :: "spending_policy \<Rightarrow> string \<Rightarrow> spending_policy" where
  "add_bypass p a = p\<lparr>sp_bypass_addresses := sp_bypass_addresses p @ [map ascii_lower a]\<rparr>"

definition is_bypass_address :: "spending_policy \<Rightarrow> string \<Rightarrow> bool" where
  "is_bypass_address p a \<longleftrightarrow> map ascii_lower a \<in> set (sp_bypass_addresses p)"

definition limits_for_asset :: "spending_policy \<Rightarrow> asset_type \<Rightarrow> spending_limit list" where
  "limits_for_asset p a = filter (\<lambda>l. asset_matches (sl_asset_type l) a) (sp_limits p)"

section \<open>Address lists\<close>

datatype address_restriction_mode = Allowlist | Blocklist

record address_entry =
  ad_address :: string
  ad_label :: "string option"
  ad_enabled :: bool
  ad_expires_at :: "int option"

definition address_entry_new :: "string \<Rightarrow> address_entry" where
  "address_entry_new a = \<lparr>ad_address = map ascii_lower a, ad_label = None, ad_enabled = True, ad_expires_at = None\<rparr>"

definition with_label :: "address_entry \<Rightarrow> string \<Rightarrow> address_entry" where
  "with_label e s = e\<lparr>ad_label := Some s\<rparr>"

definition entry_expires_at :: "address_entry \<Rightarrow> int \<Rightarrow> address_entry" where
  "entry_expires_at e t = e\<lparr>ad_expires_at := Some t\<rparr>"

definition entry_is_valid :: "int \<Rightarrow> address_entry \<Rightarrow> bool" where
  "entry_is_valid now e =
     (if \<not> ad_enabled e then False
      else case ad_expires_at e of Some t \<Rightarrow> \<not> now > t | None \<Rightarrow> True)"

record address_policy =
  ap_mode :: address_restriction_mode
  ap_addresses :: "address_entry list"
  ap_patterns :: "string list"
  ap_chain_id :: "u64 option"
  ap_check_contracts :: bool

definition allowlist :: address_policy where
  "allowlist = \<lparr>ap_mode = Allowlist, ap_addresses = [], ap_patterns = [], ap_chain_id = None, ap_check_contracts = True\<rparr>"

definition blocklist :: address_policy where
  "blocklist = \<lparr>ap_mode = Blocklist, ap_addresses = [], ap_patterns = [], ap_chain_id = None, ap_check_contracts = True\<rparr>"

definition add_address :: "address_policy \<Rightarrow> address_entry \<Rightarrow> address_policy" where
  "add_address p e = p\<lparr>ap_addresses := ap_addresses p @ [e]\<rparr>"

definition add_addresses :: "address_policy \<Rightarrow> string list \<Rightarrow> address_policy" where
  "add_addresses p as = fold (\<lambda>a p. add_address p (address_entry_new a)) as p"

definition add_pattern :: "address_policy \<Rightarrow> string \<Rightarrow> address_policy" where
  "add_pattern p s = p\<lparr>ap_patterns := ap_patterns p @ [map ascii_lower s]\<rparr>"

definition for_chain :: "address_policy \<Rightarrow> u64 \<Rightarrow> address_policy" where
  "for_chain p c = p\<lparr>ap_chain_id := Some c\<rparr>"

definition starts_with :: "string \<Rightarrow> string \<Rightarrow> bool" where
  "starts_with s pre \<longleftrightarrow> take (length pre) s = pre"

definition ends_with :: "string \<Rightarrow> string \<Rightarrow> bool" where
  "ends_with s suf \<longleftrightarrow> starts_with (rev s) (rev suf)"

definition matches_pattern :: "string \<Rightarrow> string \<Rightarrow> bool" where
  "matches_pattern address pattern =
     (if pattern \<noteq> [] \<and> last pattern = CHR ''*'' then starts_with address (butlast pattern)
      else if pattern \<noteq> [] \<and> hd pattern = CHR ''*'' then ends_with address (tl pattern)
      else address = pattern)"

definition contains_address :: "int \<Rightarrow> address_policy \<Rightarrow> string \<Rightarrow> bool" where
  "contains_address now p address =
     (let normalized = map ascii_lower address in
      if list_ex (\<lambda>e. entry_is_valid now e \<and> ad_address e = normalized) (ap_addresses p) then True
      else if list_ex (matches_pattern normalized) (ap_patterns p) then True
      else False)"

definition address_is_allowed :: "int \<Rightarrow> address_policy \<Rightarrow> string \<Rightarrow> bool" where
  "address_is_allowed now p address =
     (let in_list = contains_address now p address in
      case ap_mode p of Allowlist \<Rightarrow> in_list | Blocklist \<Rightarrow> \<not> in_list)"

definition rejection_reason :: "int \<Rightarrow> address_policy \<Rightarrow> string \<Rightarrow> string option" where
  "rejection_reason now p address =
     (if address_is_allowed now p address then None
      else case ap_mode p of
          Allowlist \<Rightarrow> Some (''Address '' @ address @ '' not in allowlist'')
        | Blocklist \<Rightarrow> Some (''Address '' @ address @ '' is blocklisted''))"

definition get_addresses :: "int \<Rightarrow> address_policy \<Rightarrow> string list" where
  "get_addresses now p = map ad_address (filter (entry_is_valid now) (ap_addresses p))"

definition remove_address :: "address_policy \<Rightarrow> string \<Rightarrow> address_policy" where
  "remove_address p address = p\<lparr>ap_addresses := filter (\<lambda>e. ad_address e \<noteq> map ascii_lower address) (ap_addresses p)\<rparr>"

fun enable_first :: "string \<Rightarrow> bool \<Rightarrow> address_entry list \<Rightarrow> address_entry list" where
  "enable_first a b [] = []"
| "enable_first a b (e # es) = (if ad_address e = a then e\<lparr>ad_enabled := b\<rparr> # es else e # enable_first a b es)"

definition set_address_enabled :: "address_policy \<Rightarrow> string \<Rightarrow> bool \<Rightarrow> address_policy" where
  "set_address_enabled p address b = p\<lparr>ap_addresses := enable_first (map ascii_lower address) b (ap_addresses p)\<rparr>"

definition show_address_policy :: "int \<Rightarrow> address_policy \<Rightarrow> string" where
  "show_address_policy now p =
     (case ap_mode p of Allowlist \<Rightarrow> ''Allowlist'' | Blocklist \<Rightarrow> ''Blocklist'') @ '' ('' @
     show_nat (length (filter (entry_is_valid now) (ap_addresses p))) @ '' addresses, '' @ show_nat (length (ap_patterns p)) @ '' patterns)''"

definition scam_patterns :: address_policy where
  "scam_patterns = add_pattern (add_pattern blocklist ''0x0000000000000000000000000000000000000000'')
     ''0x000000000000000000000000000000000000dead''"

definition known_defi_contracts :: "u64 \<Rightarrow> address_policy" where
  "known_defi_contracts chain_id =
     (let p = for_chain allowlist chain_id in
      if chain_id = 1
      then add_address (add_address (add_address p
             (with_label (address_entry_new ''0xC02aaA39b223FE8D0A0e5C4F27eAD9083C756Cc2'') ''WETH''))
             (with_label (address_entry_new ''0x7a250d5630B4cF539739dF2C5dAcb4c659F2488D'') ''Uniswap V2 Router''))
             (with_label (address_entry_new ''0xE592427A0AEce92De3Edee1F18E0157C05861564'') ''Uniswap V3 Router'')
      else p)"

end
