(* ===== verification/Policy_Engine.thy ===== *)
theory Policy_Engine
  imports Policy_Types "HOL-Library.AList"
begin

text \<open>
  The spending tracker and the policy evaluator: \<^verbatim>\<open>crates/auth/src/policy/tracker.rs\<close>, \<^verbatim>\<open>evaluation.rs\<close>. The readings of the clock
  within one operation are equal.
\<close>

section \<open>Tracker\<close>

record transaction_record =
  tr_tx_id :: string
  tr_timestamp :: int
  tr_asset_type :: asset_type
  tr_value :: string
  tr_recipient :: string
  tr_key_id :: string
  tr_namespace :: string
  tr_user :: string

definition transaction_record_new :: "int \<Rightarrow> string \<Rightarrow> asset_type \<Rightarrow> string \<Rightarrow> string \<Rightarrow> string \<Rightarrow> string \<Rightarrow> string \<Rightarrow> transaction_record" where
  "transaction_record_new now tx_id a v recipient key_id ns user =
     \<lparr>tr_tx_id = tx_id, tr_timestamp = now, tr_asset_type = a, tr_value = v, tr_recipient = recipient, tr_key_id = key_id,
      tr_namespace = ns, tr_user = user\<rparr>"

definition value_u128 :: "transaction_record \<Rightarrow> u128 option" where
  "value_u128 r = parse_u128 (tr_value r)"

record tracker_key =
  tk_asset_type :: string
  tk_scope :: string

definition tracker_for_key :: "asset_type \<Rightarrow> string \<Rightarrow> tracker_key" where
  "tracker_for_key a key_id = \<lparr>tk_asset_type = show_asset a, tk_scope = ''key:'' @ key_id\<rparr>"

definition tracker_for_namespace :: "asset_type \<Rightarrow> string \<Rightarrow> tracker_key" where
  "tracker_for_namespace a ns = \<lparr>tk_asset_type = show_asset a, tk_scope = ''ns:'' @ ns\<rparr>"

definition tracker_for_user :: "asset_type \<Rightarrow> string \<Rightarrow> tracker_key" where
  "tracker_for_user a user = \<lparr>tk_asset_type = show_asset a, tk_scope = ''user:'' @ user\<rparr>"

definition tracker_global :: "asset_type \<Rightarrow> tracker_key" where
  "tracker_global a = \<lparr>tk_asset_type = show_asset a, tk_scope = ''global''\<rparr>"

record spending_aggregate =
  sa_total_value :: u128
  sa_tx_count :: u32
  sa_last_tx :: "int option"

definition aggregate_default :: spending_aggregate where
  "aggregate_default = \<lparr>sa_total_value = 0, sa_tx_count = 0, sa_last_tx = None\<rparr>"

definition aggregate_add :: "spending_aggregate \<Rightarrow> u128 \<Rightarrow> int \<Rightarrow> spending_aggregate" where
  "aggregate_add g v t = \<lparr>sa_total_value = sat_add (sa_total_value g) v, sa_tx_count = sa_tx_count g + 1, sa_last_tx = Some t\<rparr>"

record spending_tracker =
  st_transactions :: "(tracker_key \<times> transaction_record list) list"
  st_max_history :: nat

definition tracker_with_max_history :: "nat \<Rightarrow> spending_tracker" where
  "tracker_with_max_history n = \<lparr>st_transactions = [], st_max_history = n\<rparr>"

definition tracker_new :: spending_tracker where
  "tracker_new = tracker_with_max_history 10000"

definition records_of :: "spending_tracker \<Rightarrow> tracker_key \<Rightarrow> transaction_record list" where
  "records_of T k = (case map_of (st_transactions T) k of Some v \<Rightarrow> v | None \<Rightarrow> [])"

definition trim_history :: "nat \<Rightarrow> transaction_record list \<Rightarrow> transaction_record list" where
  "trim_history n v = (if length v > n then drop (length v - n) v else v)"

definition record_for_key :: "spending_tracker \<Rightarrow> tracker_key \<Rightarrow> transaction_record \<Rightarrow> spending_tracker" where
  "record_for_key T k r =
     T\<lparr>st_transactions := map (\<lambda>(k, v). (k, trim_history (st_max_history T) v))
       (AList.update k (records_of T k @ [r]) (st_transactions T))\<rparr>"

definition record_tx :: "spending_tracker \<Rightarrow> transaction_record \<Rightarrow> spending_tracker" where
  "record_tx T r =
     (let T1 = record_for_key T (tracker_for_key (tr_asset_type r) (tr_key_id r)) r;
          T2 = record_for_key T1 (tracker_for_namespace (tr_asset_type r) (tr_namespace r)) r;
          T3 = record_for_key T2 (tracker_for_user (tr_asset_type r) (tr_user r)) r
      in record_for_key T3 (tracker_global (tr_asset_type r)) r)"

definition aggregate_step :: "int \<Rightarrow> transaction_record \<Rightarrow> spending_aggregate \<Rightarrow> spending_aggregate" where
  "aggregate_step start r g =
     (if tr_timestamp r \<ge> start then case value_u128 r of Some v \<Rightarrow> aggregate_add g v (tr_timestamp r) | None \<Rightarrow> g else g)"

definition get_aggregate :: "int \<Rightarrow> spending_tracker \<Rightarrow> tracker_key \<Rightarrow> time_window \<Rightarrow> spending_aggregate" where
  "get_aggregate now T k w = fold (aggregate_step (window_start_time now w)) (records_of T k) aggregate_default"

definition get_spending_for_key :: "int \<Rightarrow> spending_tracker \<Rightarrow> asset_type \<Rightarrow> string \<Rightarrow> time_window \<Rightarrow> spending_aggregate" where
  "get_spending_for_key now T a key_id w = get_aggregate now T (tracker_for_key a key_id) w"

definition get_spending_for_namespace :: "int \<Rightarrow> spending_tracker \<Rightarrow> asset_type \<Rightarrow> string \<Rightarrow> time_window \<Rightarrow> spending_aggregate" where
  "get_spending_for_namespace now T a ns w = get_aggregate now T (tracker_for_namespace a ns) w"

definition get_spending_for_user :: "int \<Rightarrow> spending_tracker \<Rightarrow> asset_type \<Rightarrow> string \<Rightarrow> time_window \<Rightarrow> spending_aggregate" where
  "get_spending_for_user now T a user w = get_aggregate now T (tracker_for_user a user) w"

definition get_global_spending :: "int \<Rightarrow> spending_tracker \<Rightarrow> asset_type \<Rightarrow> time_window \<Rightarrow> spending_aggregate" where
  "get_global_spending now T a w = get_aggregate now T (tracker_global a) w"

definition would_exceed_limit :: "int \<Rightarrow> spending_tracker \<Rightarrow> tracker_key \<Rightarrow> time_window \<Rightarrow> u128 \<Rightarrow> u128 \<Rightarrow> bool" where
  "would_exceed_limit now T k w new_value max_value \<longleftrightarrow> sat_add (sa_total_value (get_aggregate now T k w)) new_value > max_value"

definition would_exceed_count :: "int \<Rightarrow> spending_tracker \<Rightarrow> tracker_key \<Rightarrow> time_window \<Rightarrow> u32 \<Rightarrow> bool" where
  "would_exceed_count now T k w max_count \<longleftrightarrow> sa_tx_count (get_aggregate now T k w) \<ge> max_count"

definition time_since_last_tx :: "int \<Rightarrow> spending_tracker \<Rightarrow> tracker_key \<Rightarrow> time_window \<Rightarrow> int option" where
  "time_since_last_tx now T k w = map_option (\<lambda>t. now - t) (sa_last_tx (get_aggregate now T k w))"

definition tracker_cleanup :: "int \<Rightarrow> spending_tracker \<Rightarrow> int \<Rightarrow> spending_tracker" where
  "tracker_cleanup now T retention =
     T\<lparr>st_transactions := map (\<lambda>(k, v). (k, filter (\<lambda>r. tr_timestamp r > now - retention) v)) (st_transactions T)\<rparr>"

definition get_recent :: "spending_tracker \<Rightarrow> tracker_key \<Rightarrow> nat \<Rightarrow> transaction_record list" where
  "get_recent T k n = take n (rev (records_of T k))"

section \<open>Evaluation\<close>

datatype policy_decision = Allow | RequireApproval | Deny

datatype violation_type =
    SpendingLimitExceeded
  | VelocityLimitExceeded
  | AddressNotAllowed
  | AddressBlocklisted
  | CooldownActive
  | TransactionCountExceeded

record policy_violation =
  pv_violation_type :: violation_type
  pv_message :: string
  pv_policy_name :: "string option"
  pv_current_value :: "string option"
  pv_limit_value :: "string option"

definition spending_violation :: "string \<Rightarrow> string \<Rightarrow> time_window \<Rightarrow> policy_violation" where
  "spending_violation current lim w =
     \<lparr>pv_violation_type = SpendingLimitExceeded,
      pv_message = show_window w @ '' spending limit exceeded: '' @ current @ '' / '' @ lim @ '' max'',
      pv_policy_name = None, pv_current_value = Some current, pv_limit_value = Some lim\<rparr>"

definition velocity_violation :: "u32 \<Rightarrow> u32 \<Rightarrow> time_window \<Rightarrow> policy_violation" where
  "velocity_violation n mx w =
     \<lparr>pv_violation_type = VelocityLimitExceeded,
      pv_message = show_window w @ '' transaction limit exceeded: '' @ show_nat (unat n) @ '' / '' @ show_nat (unat mx) @ '' max'',
      pv_policy_name = None, pv_current_value = Some (show_nat (unat n)), pv_limit_value = Some (show_nat (unat mx))\<rparr>"

definition address_not_allowed :: "string \<Rightarrow> policy_violation" where
  "address_not_allowed a =
     \<lparr>pv_violation_type = AddressNotAllowed, pv_message = ''Address '' @ a @ '' not in allowlist'', pv_policy_name = None,
      pv_current_value = Some a, pv_limit_value = None\<rparr>"

definition address_blocklisted :: "string \<Rightarrow> policy_violation" where
  "address_blocklisted a =
     \<lparr>pv_violation_type = AddressBlocklisted, pv_message = ''Address '' @ a @ '' is blocklisted'', pv_policy_name = None,
      pv_current_value = Some a, pv_limit_value = None\<rparr>"

definition cooldown_active :: "nat \<Rightarrow> policy_violation" where
  "cooldown_active remaining =
     \<lparr>pv_violation_type = CooldownActive, pv_message = ''Cooldown active: '' @ show_nat remaining @ '' seconds remaining'',
      pv_policy_name = None, pv_current_value = Some (show_nat remaining), pv_limit_value = None\<rparr>"

record transaction_context =
  tc_asset_type :: asset_type
  tc_value :: string
  tc_recipient :: string
  tc_key_id :: string
  tc_namespace :: string
  tc_user :: string

record evaluation_result =
  er_decision :: policy_decision
  er_violations :: "policy_violation list"
  er_required_approvals :: "u32 option"

definition result_allow :: evaluation_result where
  "result_allow = \<lparr>er_decision = Allow, er_violations = [], er_required_approvals = None\<rparr>"

definition result_deny :: "policy_violation list \<Rightarrow> evaluation_result" where
  "result_deny vs = \<lparr>er_decision = Deny, er_violations = vs, er_required_approvals = None\<rparr>"

definition result_require_approval :: "policy_violation list \<Rightarrow> u32 \<Rightarrow> evaluation_result" where
  "result_require_approval vs n = \<lparr>er_decision = RequireApproval, er_violations = vs, er_required_approvals = Some n\<rparr>"

record policy_evaluator =
  pe_spending_policy :: "spending_policy option"
  pe_address_policy :: "address_policy option"
  pe_tracker :: spending_tracker

definition evaluator_new :: "spending_tracker \<Rightarrow> policy_evaluator" where
  "evaluator_new T = \<lparr>pe_spending_policy = None, pe_address_policy = None, pe_tracker = T\<rparr>"

definition with_spending_policy :: "policy_evaluator \<Rightarrow> spending_policy \<Rightarrow> policy_evaluator" where
  "with_spending_policy P p = P\<lparr>pe_spending_policy := Some p\<rparr>"

definition with_address_policy :: "policy_evaluator \<Rightarrow> address_policy \<Rightarrow> policy_evaluator" where
  "with_address_policy P p = P\<lparr>pe_address_policy := Some p\<rparr>"

definition parsed_or_zero :: "string \<Rightarrow> u128" where
  "parsed_or_zero s = (case parse_u128 s of Some v \<Rightarrow> v | None \<Rightarrow> 0)"

definition check_spending_limit :: "int \<Rightarrow> spending_tracker \<Rightarrow> transaction_context \<Rightarrow> spending_limit \<Rightarrow> policy_violation option" where
  "check_spending_limit now T ctx l =
     (if sl_window l = PerTransaction
      then if exceeds l (tc_value ctx) then Some (spending_violation (tc_value ctx) (sl_max_value l) PerTransaction) else None
      else
        let agg = get_aggregate now T (tracker_for_key (tc_asset_type ctx) (tc_key_id ctx)) (sl_window l);
            tot = sat_add (sa_total_value agg) (parsed_or_zero (tc_value ctx))
        in if (case max_value_u128 l of Some mx \<Rightarrow> tot > mx | None \<Rightarrow> False)
           then Some (spending_violation (show_nat (unat tot)) (sl_max_value l) (sl_window l))
           else (case sl_max_transactions l of
               Some max_tx \<Rightarrow> if sa_tx_count agg \<ge> max_tx then Some (velocity_violation (sa_tx_count agg) max_tx (sl_window l)) else None
             | None \<Rightarrow> None))"

definition cooldown_violation :: "int \<Rightarrow> spending_tracker \<Rightarrow> tracker_key \<Rightarrow> velocity_limit \<Rightarrow> policy_violation option" where
  "cooldown_violation now T k l =
     (case vl_cooldown_seconds l of
        None \<Rightarrow> None
      | Some cooldown \<Rightarrow> (case time_since_last_tx now T k (vl_window l) of
            None \<Rightarrow> None
          | Some since_last \<Rightarrow> let d = uint cooldown * 1000000000 in
              if since_last < d then Some (cooldown_active (nat ((d - since_last) div 1000000000))) else None))"

definition check_velocity_limit :: "int \<Rightarrow> spending_tracker \<Rightarrow> transaction_context \<Rightarrow> velocity_limit \<Rightarrow> policy_violation option" where
  "check_velocity_limit now T ctx l =
     (let k = tracker_for_key (tc_asset_type ctx) (tc_key_id ctx); agg = get_aggregate now T k (vl_window l) in
      if exceeds_count l (sa_tx_count agg) then Some (velocity_violation (sa_tx_count agg) (vl_max_count l) (vl_window l))
      else case cooldown_violation now T k l of
          Some v \<Rightarrow> Some v
        | None \<Rightarrow> (case vl_max_total_value l of
              None \<Rightarrow> None
            | Some max_total \<Rightarrow>
                let tot = sat_add (sa_total_value agg) (parsed_or_zero (tc_value ctx)) in
                if exceeds_value l (show_nat (unat tot)) then Some (spending_violation (show_nat (unat tot)) max_total (vl_window l)) else None))"

text \<open>The violations of the spending policy: those of hard limits and of velocity limits, and those of soft limits.\<close>

definition some_list :: "'a option \<Rightarrow> 'a list" where
  "some_list x = (case x of Some y \<Rightarrow> [y] | None \<Rightarrow> [])"

definition velocity_applies :: "velocity_limit \<Rightarrow> asset_type \<Rightarrow> bool" where
  "velocity_applies l a = (case vl_asset_type l of Some b \<Rightarrow> asset_matches b a | None \<Rightarrow> True)"

definition spending_violations :: "int \<Rightarrow> spending_tracker \<Rightarrow> transaction_context \<Rightarrow> spending_policy \<Rightarrow>
  policy_violation list \<times> policy_violation list" where
  "spending_violations now T ctx p =
     (if is_bypass_address p (tc_recipient ctx) then ([], [])
      else let ls = limits_for_asset p (tc_asset_type ctx) in
       (concat (map (\<lambda>l. some_list (check_spending_limit now T ctx l)) (filter sl_hard_limit ls)) @
        concat (map (\<lambda>l. some_list (check_velocity_limit now T ctx l))
          (filter (\<lambda>l. velocity_applies l (tc_asset_type ctx)) (sp_velocity_limits p))),
        concat (map (\<lambda>l. some_list (check_spending_limit now T ctx l)) (filter (\<lambda>l. \<not> sl_hard_limit l) ls))))"

definition evaluate :: "int \<Rightarrow> policy_evaluator \<Rightarrow> transaction_context \<Rightarrow> evaluation_result" where
  "evaluate now P ctx =
     (case (case pe_address_policy P of
          Some a \<Rightarrow> if \<not> address_is_allowed now a (tc_recipient ctx)
            then Some (case ap_mode a of
                Allowlist \<Rightarrow> address_not_allowed (tc_recipient ctx)
              | Blocklist \<Rightarrow> address_blocklisted (tc_recipient ctx))
            else None
        | None \<Rightarrow> None) of
        Some v \<Rightarrow> result_deny [v]
      | None \<Rightarrow>
          let (violations, soft_violations) = (case pe_spending_policy P of
              Some p \<Rightarrow> spending_violations now (pe_tracker P) ctx p
            | None \<Rightarrow> ([], [])) in
          if violations \<noteq> [] then result_deny violations
          else if soft_violations \<noteq> [] then result_require_approval soft_violations 1
          else result_allow)"

end
