(* ===== verification/Policy_Spending.thy ===== *)
theory Policy_Spending
  imports Policy_Engine Budgets
begin

text \<open>
  Runs of the policy evaluator in which every allowed transaction is recorded: how much a key can spend in a time window, and what escapes
  the limits.
\<close>

section \<open>The tracker as a list of transactions\<close>

lemma records_of_record [simp]:
  "records_of (record_for_key T k r) k' = trim_history (st_max_history T) (if k' = k then records_of T k @ [r] else records_of T k')"
proof -
  have "map_of (map (\<lambda>(k, v). (k, trim_history (st_max_history T) v)) xs) k' =
      map_option (trim_history (st_max_history T)) (map_of xs k')" for xs
    by (simp add: map_of_map)
  then show ?thesis by (simp add: record_for_key_def records_of_def update_conv' trim_history_def split: option.split)
qed

lemma max_history_record [simp]: "st_max_history (record_for_key T k r) = st_max_history T"
  by (simp add: record_for_key_def)

lemma trim_short [simp]: "length v \<le> n \<Longrightarrow> trim_history n v = v"
  by (simp add: trim_history_def)

lemma trim_trim [simp]: "trim_history n (trim_history n v) = trim_history n v"
  by (simp add: trim_history_def)

lemma max_history_tx [simp]: "st_max_history (record_tx T r) = st_max_history T"
  by (simp add: record_tx_def Let_def)

abbreviation key_of :: "transaction_record \<Rightarrow> tracker_key" where
  "key_of r \<equiv> tracker_for_key (tr_asset_type r) (tr_key_id r)"

lemma tracker_keys_distinct [simp]:
  "tracker_for_key a k \<noteq> tracker_for_namespace b n" "tracker_for_key a k \<noteq> tracker_for_user b u" "tracker_for_key a k \<noteq> tracker_global b"
  by (simp_all add: tracker_for_key_def tracker_for_namespace_def tracker_for_user_def tracker_global_def)

lemma records_of_tx:
  "records_of (record_tx T r) (tracker_for_key a k) = trim_history (st_max_history T)
     (if tracker_for_key a k = key_of r then records_of T (tracker_for_key a k) @ [r] else records_of T (tracker_for_key a k))"
  by (simp add: record_tx_def Let_def)

lemma records_of_cleanup: "records_of (tracker_cleanup now T ret) k = filter (\<lambda>r. tr_timestamp r > now - ret) (records_of T k)"
  by (simp add: tracker_cleanup_def records_of_def map_of_map split: option.split)

section \<open>Aggregates\<close>

definition amount :: "transaction_record \<Rightarrow> nat" where
  "amount r = unat (parsed_or_zero (tr_value r))"

lemma unat_u128_le: "unat (w :: u128) \<le> 2 ^ 128 - 1"
  using unsigned_less [where ?'a = nat, of w] by simp

lemma aggregate_step_total:
  "unat (sa_total_value (aggregate_step s r g)) =
     min (unat (sa_total_value g) + (if tr_timestamp r \<ge> s then amount r else 0)) (2 ^ 128 - 1)"
  using unat_u128_le [of "sa_total_value g"]
  by (simp add: aggregate_step_def aggregate_add_def unat_sat_add amount_def value_u128_def parsed_or_zero_def split: option.split)

lemma aggregate_total:
  "unat (sa_total_value (fold (aggregate_step s) rs g)) =
     min (unat (sa_total_value g) + sum_list (map amount (filter (\<lambda>r. tr_timestamp r \<ge> s) rs))) (2 ^ 128 - 1)"
proof (induction rs arbitrary: g)
  case Nil
  then show ?case using unat_u128_le [of "sa_total_value g"] by simp
next
  case (Cons r rs)
  show ?case using Cons [of "aggregate_step s r g"] aggregate_step_total [of s r g] by (auto simp: min_def)
qed

lemma get_aggregate_total:
  "unat (sa_total_value (get_aggregate now T k w)) =
     min (sum_list (map amount (filter (\<lambda>r. tr_timestamp r \<ge> window_start_time now w) (records_of T k)))) (2 ^ 128 - 1)"
  by (simp add: get_aggregate_def aggregate_total aggregate_default_def)

section \<open>What an allowed transaction has passed\<close>

lemma some_list_Nil [simp]: "some_list x = [] \<longleftrightarrow> x = None"
  by (cases x) (simp_all add: some_list_def)

lemma allowed_passes:
  assumes "er_decision (evaluate now P ctx) = Allow" "pe_spending_policy P = Some p" "\<not> is_bypass_address p (tc_recipient ctx)"
  shows "\<forall>l \<in> set (limits_for_asset p (tc_asset_type ctx)). check_spending_limit now (pe_tracker P) ctx l = None"
    "\<forall>l \<in> set (sp_velocity_limits p). velocity_applies l (tc_asset_type ctx) \<longrightarrow> check_velocity_limit now (pe_tracker P) ctx l = None"
  using assms
  by (auto simp: evaluate_def spending_violations_def result_deny_def result_allow_def result_require_approval_def Let_def
      split: option.splits if_splits prod.splits)

lemma passed_limit:
  assumes c: "check_spending_limit now T ctx l = None" and w: "window_duration (sl_window l) = Some d"
    and mx: "max_value_u128 l = Some mx" "unat mx < 2 ^ 128 - 1"
  shows "sum_list (map amount (filter (\<lambda>r. tr_timestamp r \<ge> now - d) (records_of T (tracker_for_key (tc_asset_type ctx) (tc_key_id ctx))))) +
    unat (parsed_or_zero (tc_value ctx)) \<le> unat mx"
proof -
  let ?k = "tracker_for_key (tc_asset_type ctx) (tc_key_id ctx)"
  let ?S = "sum_list (map amount (filter (\<lambda>r. tr_timestamp r \<ge> now - d) (records_of T ?k)))"
  have "sl_window l \<noteq> PerTransaction" using w by auto
  with c mx(1) have "\<not> mx < sat_add (sa_total_value (get_aggregate now T ?k (sl_window l))) (parsed_or_zero (tc_value ctx))"
    by (auto simp: check_spending_limit_def Let_def split: if_splits)
  then have "min (min ?S (2 ^ 128 - 1) + unat (parsed_or_zero (tc_value ctx))) (2 ^ 128 - 1) \<le> unat mx"
    unfolding not_less word_le_nat_alt unat_sat_add get_aggregate_total window_start_time_def w by simp
  with mx(2) show ?thesis by linarith
qed

section \<open>Runs\<close>

text \<open>A submitted transaction is recorded when the evaluator allows it; now and then old records are dropped.\<close>

datatype spend_op =
    Submit int string transaction_context
  | Prune int int

fun op_time :: "spend_op \<Rightarrow> int" where
  "op_time (Submit now tx_id ctx) = now"
| "op_time (Prune now ret) = now"

definition record_of :: "int \<Rightarrow> string \<Rightarrow> transaction_context \<Rightarrow> transaction_record" where
  "record_of now tx_id ctx = transaction_record_new now tx_id (tc_asset_type ctx) (tc_value ctx) (tc_recipient ctx) (tc_key_id ctx)
     (tc_namespace ctx) (tc_user ctx)"

fun spend_do :: "spend_op \<Rightarrow> policy_evaluator \<Rightarrow> policy_evaluator" where
  "spend_do (Submit now tx_id ctx) P =
     (if er_decision (evaluate now P ctx) = Allow then P\<lparr>pe_tracker := record_tx (pe_tracker P) (record_of now tx_id ctx)\<rparr> else P)"
| "spend_do (Prune now ret) P = P\<lparr>pe_tracker := tracker_cleanup now (pe_tracker P) ret\<rparr>"

fun executed :: "policy_evaluator \<Rightarrow> spend_op \<Rightarrow> transaction_record list" where
  "executed P (Submit now tx_id ctx) = (if er_decision (evaluate now P ctx) = Allow then [record_of now tx_id ctx] else [])"
| "executed P (Prune now ret) = []"

fun executions :: "policy_evaluator \<Rightarrow> spend_op list \<Rightarrow> transaction_record list" where
  "executions P [] = []"
| "executions P (op # ops) = executed P op @ executions (spend_do op P) ops"

text \<open>The tracker knows the executed transactions of a key that are younger than \<open>d\<close>.\<close>

definition tracks :: "int \<Rightarrow> nat \<Rightarrow> int \<Rightarrow> policy_evaluator \<Rightarrow> transaction_record list \<Rightarrow> bool" where
  "tracks d n now P X \<longleftrightarrow> (\<forall>r \<in> set X. tr_timestamp r \<le> now) \<and> (\<forall>a k.
     length (records_of (pe_tracker P) (tracker_for_key a k)) \<le> n \<and>
     filter (\<lambda>r. tr_timestamp r \<ge> now - d) (records_of (pe_tracker P) (tracker_for_key a k)) =
     filter (\<lambda>r. tr_timestamp r \<ge> now - d \<and> key_of r = tracker_for_key a k) X)"

fun keeps :: "int \<Rightarrow> spend_op \<Rightarrow> bool" where
  "keeps d (Submit now tx_id ctx) \<longleftrightarrow> True"
| "keeps d (Prune now ret) \<longleftrightarrow> d < ret"

lemma filter_later:
  assumes "now \<le> (now' :: int)" "filter (\<lambda>r. tr_timestamp r \<ge> now - d) xs = filter (\<lambda>r. tr_timestamp r \<ge> now - d \<and> Q r) ys"
  shows "filter (\<lambda>r. tr_timestamp r \<ge> now' - d) xs = filter (\<lambda>r. tr_timestamp r \<ge> now' - d \<and> Q r) ys"
proof -
  have "filter (\<lambda>r. tr_timestamp r \<ge> now' - d) xs = filter (\<lambda>r. tr_timestamp r \<ge> now' - d) (filter (\<lambda>r. tr_timestamp r \<ge> now - d) xs)"
    using assms(1) by (auto simp: filter_filter intro!: filter_cong)
  also have "\<dots> = filter (\<lambda>r. tr_timestamp r \<ge> now' - d) (filter (\<lambda>r. tr_timestamp r \<ge> now - d \<and> Q r) ys)"
    by (simp only: assms(2))
  also have "\<dots> = filter (\<lambda>r. tr_timestamp r \<ge> now' - d \<and> Q r) ys"
    using assms(1) by (auto simp: filter_filter intro!: filter_cong)
  finally show ?thesis .
qed

lemma tracks_later:
  assumes "tracks d n now P X" "now \<le> now'"
  shows "tracks d n now' P X"
  using assms(1) filter_later [OF assms(2)] assms(2) unfolding tracks_def by fastforce

lemma tracks_step:
  assumes t: "tracks d n now P X" and op: "now \<le> op_time op" "keeps d op" and n: "Suc n \<le> st_max_history (pe_tracker P)" and d: "0 \<le> d"
  shows "tracks d (Suc n) (op_time op) (spend_do op P) (X @ executed P op)"
proof (cases op)
  case (Submit t tx_id ctx)
  note t' = tracks_later [OF t op(1)]
  have *: "trim_history (st_max_history (pe_tracker P)) v = v" if "length v \<le> Suc n" for v using that n by simp
  show ?thesis
  proof (cases "er_decision (evaluate t P ctx) = Allow")
    case True
    show ?thesis
      using t' d unfolding tracks_def Submit
      by (auto simp: True records_of_tx * record_of_def transaction_record_new_def le_SucI)
  next
    case False
    then show ?thesis using t' unfolding tracks_def Submit by (auto simp: le_SucI)
  qed
next
  case (Prune t ret)
  have *: "filter (\<lambda>r. t - ret < tr_timestamp r \<and> t - d \<le> tr_timestamp r) xs = filter (\<lambda>r. t - d \<le> tr_timestamp r) xs" for xs
    using op(2) Prune by (auto intro!: filter_cong)
  show ?thesis
    using tracks_later [OF t op(1)] unfolding tracks_def Prune
    by (auto simp: records_of_cleanup * le_SucI intro: order_trans [OF length_filter_le])
qed

text \<open>The amount that a key has spent of an asset, to addresses that do not bypass the limits, in the window that ends at \<open>t\<close>.\<close>

definition counted :: "spending_policy \<Rightarrow> asset_type \<Rightarrow> string \<Rightarrow> transaction_record \<Rightarrow> bool" where
  "counted p a k r \<longleftrightarrow> tr_asset_type r = a \<and> tr_key_id r = k \<and> \<not> is_bypass_address p (tr_recipient r)"

definition spent :: "spending_policy \<Rightarrow> asset_type \<Rightarrow> string \<Rightarrow> int \<Rightarrow> int \<Rightarrow> transaction_record list \<Rightarrow> nat" where
  "spent p a k d t X = sum_list (map amount (filter (\<lambda>r. counted p a k r \<and> t - d \<le> tr_timestamp r \<and> tr_timestamp r \<le> t) X))"

lemma sum_list_filter_mono:
  "(\<And>x. x \<in> set xs \<Longrightarrow> P x \<Longrightarrow> Q x) \<Longrightarrow> sum_list (map f (filter P xs)) \<le> sum_list (map (f :: 'a \<Rightarrow> nat) (filter Q xs))"
  by (induction xs) (auto simp: add_increasing)

lemma spent_step:
  assumes t: "tracks d n now P X" and op: "now \<le> op_time op"
    and p: "pe_spending_policy P = Some p" "l \<in> set (sp_limits p)" "asset_matches (sl_asset_type l) a"
    and l: "window_duration (sl_window l) = Some d" "max_value_u128 l = Some mx" "unat mx < 2 ^ 128 - 1"
    and IH: "\<And>t. spent p a k d t X \<le> unat mx"
  shows "spent p a k d t' (X @ executed P op) \<le> unat mx"
proof (cases "\<exists>tx_id ctx. op = Submit (op_time op) tx_id ctx \<and> er_decision (evaluate (op_time op) P ctx) = Allow \<and>
    counted p a k (record_of (op_time op) tx_id ctx) \<and> t' - d \<le> op_time op \<and> op_time op \<le> t'")
  case False
  then have "spent p a k d t' (X @ executed P op) = spent p a k d t' X"
    by (cases op) (auto simp: spent_def record_of_def transaction_record_new_def)
  then show ?thesis using IH by simp
next
  case True
  then obtain now' tx_id ctx where s: "op = Submit now' tx_id ctx" and a: "er_decision (evaluate now' P ctx) = Allow"
    and c: "counted p a k (record_of now' tx_id ctx)" and w: "t' - d \<le> now'" "now' \<le> t'" by (cases op) auto
  let ?r = "record_of now' tx_id ctx" and ?k = "tracker_for_key (tc_asset_type ctx) (tc_key_id ctx)"
  have ctx: "tc_asset_type ctx = a" "tc_key_id ctx = k" "\<not> is_bypass_address p (tc_recipient ctx)"
    using c by (simp_all add: counted_def record_of_def transaction_record_new_def)
  have "l \<in> set (limits_for_asset p (tc_asset_type ctx))" using p ctx by (simp add: limits_for_asset_def)
  with allowed_passes(1) [OF a p(1) ctx(3)] have "check_spending_limit now' (pe_tracker P) ctx l = None" by simp
  from passed_limit [OF this l] have
    "sum_list (map amount (filter (\<lambda>r. tr_timestamp r \<ge> now' - d) (records_of (pe_tracker P) ?k))) + amount ?r \<le> unat mx"
    by (simp add: amount_def record_of_def transaction_record_new_def)
  also have "filter (\<lambda>r. tr_timestamp r \<ge> now' - d) (records_of (pe_tracker P) ?k) =
      filter (\<lambda>r. tr_timestamp r \<ge> now' - d \<and> key_of r = ?k) X"
    using tracks_later [OF t, of now'] op s unfolding tracks_def by auto
  finally have "sum_list (map amount (filter (\<lambda>r. tr_timestamp r \<ge> now' - d \<and> key_of r = ?k) X)) + amount ?r \<le> unat mx" .
  moreover have "spent p a k d t' X \<le> sum_list (map amount (filter (\<lambda>r. tr_timestamp r \<ge> now' - d \<and> key_of r = ?k) X))"
    unfolding spent_def using w ctx by (intro sum_list_filter_mono) (auto simp: counted_def)
  moreover have "spent p a k d t' (X @ executed P op) \<le> spent p a k d t' X + amount ?r" by (simp add: spent_def s a)
  ultimately show ?thesis by linarith
qed

lemma spend_do_policy [simp]: "pe_spending_policy (spend_do op P) = pe_spending_policy P"
  by (cases op) simp_all

lemma spend_do_max_history [simp]: "st_max_history (pe_tracker (spend_do op P)) = st_max_history (pe_tracker P)"
  by (cases op) (simp_all add: tracker_cleanup_def)

lemma window_duration_pos: "window_duration w = Some d \<Longrightarrow> 0 \<le> d"
  by (cases w) (auto simp: hours_def)

lemma spent_run:
  assumes "pe_spending_policy P = Some p" "l \<in> set (sp_limits p)" "asset_matches (sl_asset_type l) a"
    and "window_duration (sl_window l) = Some d" "max_value_u128 l = Some mx" "unat mx < 2 ^ 128 - 1"
    and "tracks d n now P X" "\<And>t. spent p a k d t X \<le> unat mx"
    and "sorted (now # map op_time ops)" "list_all (keeps d) ops" "n + length ops \<le> st_max_history (pe_tracker P)"
  shows "spent p a k d t (X @ executions P ops) \<le> unat mx"
  using assms
proof (induction ops arbitrary: P X n now)
  case (Cons op ops)
  have "tracks d (Suc n) (op_time op) (spend_do op P) (X @ executed P op)"
    using Cons.prems window_duration_pos by (intro tracks_step) auto
  moreover have "spent p a k d t (X @ executed P op) \<le> unat mx" for t
    by (rule spent_step [OF Cons.prems(7) _ Cons.prems(1-6) Cons.prems(8)]) (use Cons.prems(9) in auto)
  ultimately have "spent p a k d t ((X @ executed P op) @ executions (spend_do op P) ops) \<le> unat mx"
    using Cons.prems by (intro Cons.IH [where n = "Suc n" and now = "op_time op"]) auto
  then show ?case by simp
qed simp


definition sample_spending :: spending_policy where
  "sample_spending = add_limit spending_policy_new (spending_limit_new (native ''eth'') Day ''100'')"

definition sample_payment :: "string \<Rightarrow> transaction_context" where
  "sample_payment v = \<lparr>tc_asset_type = native ''eth'', tc_value = v, tc_recipient = ''0xaa'', tc_key_id = ''k'', tc_namespace = ''n'', tc_user = ''u''\<rparr>"


section \<open>Amounts that are not read\<close>

lemma parsed_zero: "parse_u128 ''0'' = Some 0"
proof -
  have "show_nat 0 = ''0''" by code_simp
  then show ?thesis using parse_show_nat [of 0 128] by (simp add: parse_u128_def)
qed

lemma unread_checks:
  assumes "parse_u128 v = None"
  shows "check_spending_limit now T (ctx\<lparr>tc_value := v\<rparr>) l = check_spending_limit now T (ctx\<lparr>tc_value := ''0''\<rparr>) l"
    "check_velocity_limit now T (ctx\<lparr>tc_value := v\<rparr>) vl = check_velocity_limit now T (ctx\<lparr>tc_value := ''0''\<rparr>) vl"
  by (simp_all add: check_spending_limit_def check_velocity_limit_def exceeds_def parsed_or_zero_def assms parsed_zero Let_def split: option.split)

text \<open>An amount that is no 128-bit number is no amount. The evaluator decides about a transaction with such an amount exactly as if it
  paid zero, and once the transaction is recorded, no aggregate of its key changes: neither the spent amount nor the number of
  transactions.\<close>

theorem unread_amount_counts_as_zero:
  assumes v: "parse_u128 v = None" and h: "length (records_of T (tracker_for_key a k)) < st_max_history T"
  shows "evaluate now P (ctx\<lparr>tc_value := v\<rparr>) = evaluate now P (ctx\<lparr>tc_value := ''0''\<rparr>) \<and>
    get_aggregate t (record_tx T (record_of now tx_id (ctx\<lparr>tc_value := v\<rparr>))) (tracker_for_key a k) w = get_aggregate t T (tracker_for_key a k) w"
proof
  show "evaluate now P (ctx\<lparr>tc_value := v\<rparr>) = evaluate now P (ctx\<lparr>tc_value := ''0''\<rparr>)"
    by (simp add: evaluate_def spending_violations_def unread_checks [OF v] split: option.split address_restriction_mode.split)
  have "value_u128 (record_of now tx_id (ctx\<lparr>tc_value := v\<rparr>)) = None"
    using v by (simp add: record_of_def transaction_record_new_def value_u128_def)
  then show "get_aggregate t (record_tx T (record_of now tx_id (ctx\<lparr>tc_value := v\<rparr>))) (tracker_for_key a k) w =
      get_aggregate t T (tracker_for_key a k) w"
    using h by (auto simp: get_aggregate_def records_of_tx aggregate_step_def)
qed

lemma sample_too_large: "parse_u128 ''340282366920938463463374607431768211456'' = None"
  by (simp add: parse_u128_def parse_uint_def strip_plus_def digit_val_def Let_def)

theorem unread_amount_counts_as_zero_witness:
  "evaluate 5 (with_spending_policy (evaluator_new tracker_new) sample_spending)
       (sample_payment ''0''\<lparr>tc_value := ''340282366920938463463374607431768211456''\<rparr>) =
     evaluate 5 (with_spending_policy (evaluator_new tracker_new) sample_spending) (sample_payment ''0''\<lparr>tc_value := ''0''\<rparr>) \<and>
   get_aggregate 6 (record_tx tracker_new (record_of 5 ''a'' (sample_payment ''0''\<lparr>tc_value := ''340282366920938463463374607431768211456''\<rparr>)))
     (tracker_for_key (native ''eth'') ''k'') Day = get_aggregate 6 tracker_new (tracker_for_key (native ''eth'') ''k'') Day"
  by (rule unread_amount_counts_as_zero [OF sample_too_large])
    (simp add: tracker_new_def tracker_with_max_history_def records_of_def)

section \<open>Short histories\<close>

text \<open>When a window holds more transactions than the tracker keeps, the oldest are forgotten and the limit is exceeded. Here the history has
  length one, the daily limit is 100, and 150 are paid within a day; with the default of the source it takes 10000 transactions.\<close>

lemma sample_numbers: "parse_u128 ''100'' = Some 100" "parse_u128 ''60'' = Some 60" "parse_u128 ''30'' = Some 30"
proof -
  have "show_nat 100 = ''100''" "show_nat 60 = ''60''" "show_nat 30 = ''30''" by code_simp+
  then show "parse_u128 ''100'' = Some 100" "parse_u128 ''60'' = Some 60" "parse_u128 ''30'' = Some 30"
    using parse_show_nat [of 100 128] parse_show_nat [of 60 128] parse_show_nat [of 30 128] by (simp_all add: parse_u128_def)
qed

lemma records_of_empty: "records_of \<lparr>st_transactions = [], st_max_history = n\<rparr> k = []"
  by (simp add: records_of_def)

lemma short_history_exceeds_limit:
  "map tr_value (executions (with_spending_policy (evaluator_new (tracker_with_max_history 1)) sample_spending)
     [Submit 1 ''a'' (sample_payment ''60''), Submit 2 ''b'' (sample_payment ''30''), Submit 3 ''c'' (sample_payment ''60'')]) =
   [''60'', ''30'', ''60'']"
  by (simp add: sample_spending_def sample_payment_def with_spending_policy_def evaluator_new_def evaluate_def spending_violations_def
      limits_for_asset_def add_limit_def spending_policy_new_def spending_limit_new_def native_def is_bypass_address_def
      check_spending_limit_def Let_def max_value_u128_def sample_numbers parsed_or_zero_def get_aggregate_def aggregate_default_def
      records_of_tx record_of_def transaction_record_new_def tracker_with_max_history_def records_of_empty
      aggregate_step_def aggregate_add_def value_u128_def window_start_time_def hours_def sat_add_def some_list_def result_allow_def
      trim_history_def)

end
