(* ===== verification/Policy_Approval.thy ===== *)
theory Policy_Approval
  imports Policy_Types "HOL-Library.AList"
begin

text \<open>
  Approval workflows: \<^verbatim>\<open>crates/auth/src/policy/approval.rs\<close>. Identifiers of requests are drawn at random in the source and are
  arguments here, as is the clock; delays and expiration times stay within the range that the calendar library accepts. The
  transaction of a request is a JSON value, a type parameter.
\<close>

datatype approval_status = Pending | Approved | Rejected | Expired | Cancelled

record approval_vote =
  av_approver :: string
  av_approved :: bool
  av_timestamp :: int
  av_comment :: "string option"

record escalation_tier =
  et_threshold :: string
  et_required_approvals :: u32
  et_approvers :: "string list"
  et_time_delay_seconds :: "u64 option"

definition tier_new :: "string \<Rightarrow> u32 \<Rightarrow> string list \<Rightarrow> escalation_tier" where
  "tier_new threshold n approvers =
     \<lparr>et_threshold = threshold, et_required_approvals = n, et_approvers = approvers, et_time_delay_seconds = None\<rparr>"

definition tier_with_delay :: "escalation_tier \<Rightarrow> u64 \<Rightarrow> escalation_tier" where
  "tier_with_delay t s = t\<lparr>et_time_delay_seconds := Some s\<rparr>"

definition triggers :: "escalation_tier \<Rightarrow> string \<Rightarrow> bool" where
  "triggers t v = (case (parse_u128 (et_threshold t), parse_u128 v) of (Some th, Some x) \<Rightarrow> x \<ge> th | _ \<Rightarrow> False)"

record approval_policy =
  apl_min_approvals :: u32
  apl_approvers :: "string list"
  apl_escalation_tiers :: "escalation_tier list"
  apl_time_delay_seconds :: "u64 option"
  apl_expiration_seconds :: u64
  apl_requester_can_approve :: bool

definition approval_policy_new :: "u32 \<Rightarrow> string list \<Rightarrow> approval_policy" where
  "approval_policy_new n approvers =
     \<lparr>apl_min_approvals = n, apl_approvers = approvers, apl_escalation_tiers = [], apl_time_delay_seconds = None,
      apl_expiration_seconds = 86400, apl_requester_can_approve = False\<rparr>"

definition threshold_or_zero :: "escalation_tier \<Rightarrow> u128" where
  "threshold_or_zero t = (case parse_u128 (et_threshold t) of Some v \<Rightarrow> v | None \<Rightarrow> 0)"

text \<open>Stable sorting by descending threshold: sorting by the complement ascending.\<close>

definition add_tier :: "approval_policy \<Rightarrow> escalation_tier \<Rightarrow> approval_policy" where
  "add_tier p t = p\<lparr>apl_escalation_tiers := sort_key (\<lambda>x. - uint (threshold_or_zero x)) (apl_escalation_tiers p @ [t])\<rparr>"

definition policy_with_delay :: "approval_policy \<Rightarrow> u64 \<Rightarrow> approval_policy" where
  "policy_with_delay p s = p\<lparr>apl_time_delay_seconds := Some s\<rparr>"

definition with_expiration :: "approval_policy \<Rightarrow> u64 \<Rightarrow> approval_policy" where
  "with_expiration p s = p\<lparr>apl_expiration_seconds := s\<rparr>"

definition allow_self_approval :: "approval_policy \<Rightarrow> approval_policy" where
  "allow_self_approval p = p\<lparr>apl_requester_can_approve := True\<rparr>"

definition get_tier :: "approval_policy \<Rightarrow> string \<Rightarrow> escalation_tier option" where
  "get_tier p v = find (\<lambda>t. triggers t v) (apl_escalation_tiers p)"

definition required_approvals :: "approval_policy \<Rightarrow> string \<Rightarrow> u32" where
  "required_approvals p v = (case get_tier p v of Some t \<Rightarrow> et_required_approvals t | None \<Rightarrow> apl_min_approvals p)"

definition get_approvers :: "approval_policy \<Rightarrow> string \<Rightarrow> string list" where
  "get_approvers p v = (case get_tier p v of Some t \<Rightarrow> et_approvers t | None \<Rightarrow> apl_approvers p)"

definition get_delay :: "approval_policy \<Rightarrow> string \<Rightarrow> u64 option" where
  "get_delay p v =
     (case Option.bind (get_tier p v) et_time_delay_seconds of Some d \<Rightarrow> Some d | None \<Rightarrow> apl_time_delay_seconds p)"

record 'j approval_request =
  arq_id :: string
  arq_requester :: string
  arq_transaction :: 'j
  arq_value :: string
  arq_key_id :: string
  arq_namespace :: string
  arq_status :: approval_status
  arq_votes :: "approval_vote list"
  arq_required_approvals :: u32
  arq_created_at :: int
  arq_expires_at :: int
  arq_earliest_execution :: "int option"

definition approval_request_new :: "string \<Rightarrow> int \<Rightarrow> string \<Rightarrow> 'j \<Rightarrow> string \<Rightarrow> string \<Rightarrow> string \<Rightarrow> approval_policy \<Rightarrow> 'j approval_request" where
  "approval_request_new uuid now requester tx v key_id ns p =
     \<lparr>arq_id = uuid, arq_requester = requester, arq_transaction = tx, arq_value = v, arq_key_id = key_id, arq_namespace = ns,
      arq_status = Pending, arq_votes = [], arq_required_approvals = required_approvals p v, arq_created_at = now,
      arq_expires_at = now + uint (apl_expiration_seconds p) * 1000000000,
      arq_earliest_execution = map_option (\<lambda>d. now + uint d * 1000000000) (get_delay p v)\<rparr>"

definition update_status :: "int \<Rightarrow> 'j approval_request \<Rightarrow> 'j approval_request" where
  "update_status now r =
     (if arq_status r \<noteq> Pending then r
      else if now > arq_expires_at r then r\<lparr>arq_status := Expired\<rparr>
      else let approvals = word_of_nat (length (filter av_approved (arq_votes r)));
               rejections = length (filter (\<lambda>v. \<not> av_approved v) (arq_votes r))
           in if rejections > 0 then r\<lparr>arq_status := Rejected\<rparr>
              else if approvals \<ge> arq_required_approvals r then r\<lparr>arq_status := Approved\<rparr>
              else r)"

definition add_vote :: "int \<Rightarrow> 'j approval_request \<Rightarrow> string \<Rightarrow> bool \<Rightarrow> string option \<Rightarrow> 'j approval_request \<times> bool" where
  "add_vote now r approver approved comment =
     (if list_ex (\<lambda>v. av_approver v = approver) (arq_votes r) then (r, False)
      else (update_status now (r\<lparr>arq_votes := arq_votes r @
        [\<lparr>av_approver = approver, av_approved = approved, av_timestamp = now, av_comment = comment\<rparr>]\<rparr>), True))"

definition can_execute :: "int \<Rightarrow> 'j approval_request \<Rightarrow> bool" where
  "can_execute now r =
     (if arq_status r \<noteq> Approved then False
      else case arq_earliest_execution r of Some earliest \<Rightarrow> \<not> now < earliest | None \<Rightarrow> True)"

definition time_until_execution :: "int \<Rightarrow> 'j approval_request \<Rightarrow> int option" where
  "time_until_execution now r =
     (if arq_status r \<noteq> Approved then None
      else map_option (\<lambda>earliest. if earliest > now then earliest - now else 0) (arq_earliest_execution r))"

definition cancel_approval :: "'j approval_request \<Rightarrow> 'j approval_request \<times> bool" where
  "cancel_approval r = (if arq_status r = Pending then (r\<lparr>arq_status := Cancelled\<rparr>, True) else (r, False))"

record 'j approval_manager =
  am_requests :: "(string \<times> 'j approval_request) list"
  am_default_policy :: approval_policy

definition approval_manager_new :: "approval_policy \<Rightarrow> 'j approval_manager" where
  "approval_manager_new p = \<lparr>am_requests = [], am_default_policy = p\<rparr>"

definition create_approval :: "string \<Rightarrow> int \<Rightarrow> 'j approval_manager \<Rightarrow> string \<Rightarrow> 'j \<Rightarrow> string \<Rightarrow> string \<Rightarrow> string \<Rightarrow>
  'j approval_manager \<times> 'j approval_request" where
  "create_approval uuid now m requester tx v key_id ns =
     (let r = approval_request_new uuid now requester tx v key_id ns (am_default_policy m) in
      (m\<lparr>am_requests := AList.update (arq_id r) r (am_requests m)\<rparr>, r))"

definition get_approval :: "'j approval_manager \<Rightarrow> string \<Rightarrow> 'j approval_request option" where
  "get_approval m rid = map_of (am_requests m) rid"

definition vote :: "int \<Rightarrow> 'j approval_manager \<Rightarrow> string \<Rightarrow> string \<Rightarrow> bool \<Rightarrow> string option \<Rightarrow>
  'j approval_manager \<times> (string, 'j approval_request) res" where
  "vote now m rid approver approved comment =
     (case map_of (am_requests m) rid of
        None \<Rightarrow> (m, Inl ''Request not found'')
      | Some r \<Rightarrow>
          if approver \<notin> set (get_approvers (am_default_policy m) (arq_value r)) then (m, Inl ''Not an authorized approver'')
          else if arq_requester r = approver \<and> \<not> apl_requester_can_approve (am_default_policy m)
          then (m, Inl ''Requester cannot approve their own request'')
          else let (r', added) = add_vote now r approver approved comment;
                   m' = m\<lparr>am_requests := AList.update rid r' (am_requests m)\<rparr>
               in if \<not> added then (m', Inl ''Already voted'') else (m', Inr r'))"

definition pending_for_approver :: "'j approval_manager \<Rightarrow> string \<Rightarrow> 'j approval_request list" where
  "pending_for_approver m approver =
     filter (\<lambda>r. arq_status r = Pending \<and> approver \<in> set (get_approvers (am_default_policy m) (arq_value r)) \<and>
       \<not> list_ex (\<lambda>v. av_approver v = approver) (arq_votes r)) (map snd (am_requests m))"

definition cleanup_approvals :: "int \<Rightarrow> 'j approval_manager \<Rightarrow> 'j approval_manager \<times> nat" where
  "cleanup_approvals now m =
     (let expired = (\<lambda>(_, r). arq_status r = Pending \<and> now > arq_expires_at r) in
      (m\<lparr>am_requests := filter (\<lambda>x. \<not> expired x) (am_requests m)\<rparr>, length (filter expired (am_requests m))))"

end
