(* ===== verification/Policy_Votes.thy ===== *)
theory Policy_Votes
  imports Policy_Approval Budgets
begin

text \<open>
  Approval workflows over arbitrary sequences of operations: who must have voted before a request can be executed, and which escalation
  tier applies to an amount.
\<close>

section \<open>Operations as data\<close>

datatype 'j approval_op =
    CreateApproval int string string 'j string string string
  | CastVote int string string bool "string option"
  | CleanupApprovals int

fun approval_do :: "'j approval_op \<Rightarrow> 'j approval_manager \<Rightarrow> 'j approval_manager" where
  "approval_do (CreateApproval now uuid requester tx v key_id ns) m = fst (create_approval uuid now m requester tx v key_id ns)"
| "approval_do (CastVote now rid approver approved comment) m = fst (vote now m rid approver approved comment)"
| "approval_do (CleanupApprovals now) m = fst (cleanup_approvals now m)"

section \<open>Well-formed requests\<close>

text \<open>What holds of every request of a manager with policy \<open>p\<close>: the required number and the delay come from the policy, every voter is an
  approver of the amount and voted once, and an approved request has had enough approving votes.\<close>

definition may_vote :: "approval_policy \<Rightarrow> 'j approval_request \<Rightarrow> string \<Rightarrow> bool" where
  "may_vote p r a \<longleftrightarrow> a \<in> set (get_approvers p (arq_value r)) \<and> (a \<noteq> arq_requester r \<or> apl_requester_can_approve p)"

definition request_ok :: "approval_policy \<Rightarrow> 'j approval_request \<Rightarrow> bool" where
  "request_ok p r \<longleftrightarrow> distinct (map av_approver (arq_votes r)) \<and> (\<forall>a \<in> av_approver ` set (arq_votes r). may_vote p r a) \<and>
     arq_required_approvals r = required_approvals p (arq_value r) \<and>
     arq_earliest_execution r = map_option (\<lambda>d. arq_created_at r + uint d * 1000000000) (get_delay p (arq_value r)) \<and>
     (arq_status r = Approved \<longrightarrow> (\<exists>n \<le> length (arq_votes r). unat (required_approvals p (arq_value r)) \<le> n \<and>
       list_all av_approved (take n (arq_votes r))))"

lemma new_request_ok: "request_ok p (approval_request_new uuid now requester tx v key_id ns p)"
  by (simp add: request_ok_def approval_request_new_def)

lemma unat_of_nat_le: "unat (word_of_nat n :: 'a::len word) \<le> n"
  by (simp add: unsigned_of_nat take_bit_nat_less_eq_self)

lemma update_status_ok:
  assumes "request_ok p (r\<lparr>arq_status := Pending\<rparr>)" "arq_status r = Approved \<Longrightarrow> request_ok p r"
  shows "request_ok p (update_status now r)"
proof -
  have "unat (arq_required_approvals r) \<le> length (arq_votes r)"
    if "word_of_nat (length (filter av_approved (arq_votes r))) \<ge> arq_required_approvals r"
    using that unat_of_nat_le [where ?'a = 32, of "length (filter av_approved (arq_votes r))"] length_filter_le [of av_approved "arq_votes r"]
    unfolding word_le_nat_alt by linarith
  moreover have "list_all av_approved (arq_votes r)" if "filter (\<lambda>v. \<not> av_approved v) (arq_votes r) = []"
    using that by (simp add: filter_empty_conv list_all_iff)
  ultimately show ?thesis
    using assms by (auto simp: request_ok_def update_status_def may_vote_def Let_def intro: exI [of _ "length (arq_votes r)"])
qed

lemma add_vote_ok:
  assumes "request_ok p r" "may_vote p r a"
  shows "request_ok p (fst (add_vote now r a b c))"
proof (cases "list_ex (\<lambda>v. av_approver v = a) (arq_votes r)")
  case True
  then show ?thesis using assms by (simp add: add_vote_def)
next
  case False
  then have "request_ok p (update_status now (r\<lparr>arq_votes := arq_votes r @
      [\<lparr>av_approver = a, av_approved = b, av_timestamp = now, av_comment = c\<rparr>]\<rparr>))"
    using assms by (intro update_status_ok) (auto simp: request_ok_def may_vote_def list_ex_iff intro: le_SucI)
  with False show ?thesis by (simp add: add_vote_def)
qed

definition requests_ok :: "'j approval_manager \<Rightarrow> bool" where
  "requests_ok m \<longleftrightarrow> (\<forall>rid r. (rid, r) \<in> set (am_requests m) \<longrightarrow> request_ok (am_default_policy m) r)"

lemma set_update_subset: "set (AList.update k v xs) \<subseteq> insert (k, v) (set xs)"
  by (induction xs) auto

lemma approval_do_policy [simp]: "am_default_policy (approval_do op m) = am_default_policy m"
  by (cases op) (simp_all add: create_approval_def vote_def cleanup_approvals_def Let_def split: option.split prod.split)

lemma approval_do_ok:
  assumes "requests_ok m"
  shows "requests_ok (approval_do op m)"
proof (cases op)
  case (CreateApproval now uuid requester tx v key_id ns)
  then show ?thesis
    using assms new_request_ok [of "am_default_policy m" uuid now requester tx v key_id ns] set_update_subset
    by (fastforce simp: requests_ok_def create_approval_def Let_def)
next
  case (CastVote now rid a b c)
  show ?thesis
  proof (cases "\<exists>r. map_of (am_requests m) rid = Some r \<and> may_vote (am_default_policy m) r a")
    case True
    then obtain r where r: "map_of (am_requests m) rid = Some r" "may_vote (am_default_policy m) r a" by blast
    then have "request_ok (am_default_policy m) (fst (add_vote now r a b c))"
      using assms by (intro add_vote_ok) (auto simp: requests_ok_def dest: map_of_SomeD)
    moreover have "am_requests (approval_do op m) = AList.update rid (fst (add_vote now r a b c)) (am_requests m)"
      using r by (auto simp: CastVote vote_def may_vote_def Let_def split: prod.split)
    ultimately show ?thesis
      using assms set_update_subset [of rid "fst (add_vote now r a b c)" "am_requests m"] unfolding requests_ok_def by auto
  next
    case False
    then have "approval_do op m = m" by (auto simp: CastVote vote_def may_vote_def split: option.split)
    with assms show ?thesis by simp
  qed
next
  case (CleanupApprovals now)
  with assms show ?thesis by (auto simp: requests_ok_def cleanup_approvals_def Let_def)
qed

lemma approval_run_ok: "requests_ok m \<Longrightarrow> requests_ok (run_ops approval_do m ops)"
  by (induction ops arbitrary: m) (simp_all add: approval_do_ok)

lemma approval_run_policy [simp]: "am_default_policy (run_ops approval_do m ops) = am_default_policy m"
  by (induction ops arbitrary: m) simp_all


definition sample_approval_policy :: approval_policy where
  "sample_approval_policy = policy_with_delay (approval_policy_new 2 [''ann'', ''bob'', ''eve'']) 3600"

definition sample_votes :: "unit approval_op list" where
  "sample_votes = [CreateApproval 0 ''r1'' ''eve'' () ''x'' ''k'' ''n'', CastVote 1 ''r1'' ''eve'' True None, CastVote 2 ''r1'' ''ann'' True None,
     CastVote 3 ''r1'' ''ann'' True None, CastVote 4 ''r1'' ''bob'' True None]"

definition sample_approved :: "unit approval_request" where
  "sample_approved = the (get_approval (run_ops approval_do (approval_manager_new sample_approval_policy) sample_votes) ''r1'')"


section \<open>Escalation tiers\<close>

definition built_policy :: "u32 \<Rightarrow> string list \<Rightarrow> escalation_tier list \<Rightarrow> approval_policy" where
  "built_policy n approvers ts = fold (\<lambda>t p. add_tier p t) ts (approval_policy_new n approvers)"

lemma built_tiers:
  "set (apl_escalation_tiers (fold (\<lambda>t p. add_tier p t) ts p)) = set (apl_escalation_tiers p) \<union> set ts"
  "sorted (map (\<lambda>x. - uint (threshold_or_zero x)) (apl_escalation_tiers p)) \<Longrightarrow>
    sorted (map (\<lambda>x. - uint (threshold_or_zero x)) (apl_escalation_tiers (fold (\<lambda>t p. add_tier p t) ts p)))"
  by (induction ts arbitrary: p) (auto simp: add_tier_def)

lemma find_sorted:
  fixes f :: "'a \<Rightarrow> 'b::linorder"
  assumes "sorted (map f xs)" "find P xs = Some x" "y \<in> set xs" "P y"
  shows "f x \<le> f y"
  using assms by (induction xs) (auto split: if_splits)

lemma find_SomeD: "find P xs = Some x \<Longrightarrow> x \<in> set xs \<and> P x"
  by (induction xs) (auto split: if_splits)

lemma triggers_threshold: "triggers t v \<Longrightarrow> parse_u128 (et_threshold t) = Some (threshold_or_zero t)"
  by (auto simp: triggers_def threshold_or_zero_def split: option.splits)

text \<open>The escalation tier of an amount is the highest. For a policy built by adding tiers in any order, the tier that applies to an amount
  is one that the amount triggers, and every other tier that it triggers has at most its threshold; there is none exactly if no tier is
  triggered.\<close>

theorem highest_tier_applies:
  "case get_tier (built_policy n approvers ts) v of
     None \<Rightarrow> \<not> list_ex (\<lambda>t. triggers t v) ts
   | Some t \<Rightarrow> t \<in> set (filter (\<lambda>t. triggers t v) ts) \<and>
       list_all (\<lambda>t'. threshold_or_zero t' \<le> threshold_or_zero t) (filter (\<lambda>t. triggers t v) ts)"
proof -
  let ?ts = "apl_escalation_tiers (built_policy n approvers ts)"
  have set: "set ?ts = set ts" and sorted: "sorted (map (\<lambda>x. - uint (threshold_or_zero x)) ?ts)"
    using built_tiers [where ts = ts and p = "approval_policy_new n approvers"] by (simp_all add: built_policy_def approval_policy_new_def)
  show ?thesis
  proof (cases "get_tier (built_policy n approvers ts) v")
    case None
    then have "\<not> list_ex (\<lambda>t. triggers t v) ts" using set by (auto simp: get_tier_def find_None_iff list_ex_iff)
    then show ?thesis by (simp add: None)
  next
    case (Some t)
    then have f: "find (\<lambda>t. triggers t v) ?ts = Some t" by (simp add: get_tier_def)
    have "threshold_or_zero t' \<le> threshold_or_zero t" if "t' \<in> set ts" "triggers t' v" for t'
      using find_sorted [OF sorted f, of t'] that set by (simp add: word_le_def)
    then show ?thesis using find_SomeD [OF f] set Some by (auto simp: list_all_iff)
  qed
qed

text \<open>An amount that is no 128-bit number triggers no tier, and is left to the smallest number of approvals.\<close>

lemma unread_amount_is_not_escalated: "parse_u128 v = None \<Longrightarrow> required_approvals p v = apl_min_approvals p"
proof -
  assume "parse_u128 v = None"
  then have "\<not> triggers t v" for t by (simp add: triggers_def split: option.split)
  then have "get_tier p v = None" by (simp add: get_tier_def find_None_iff)
  then show ?thesis by (simp add: required_approvals_def)
qed

end
