(* ===== verification/Policy_Store.thy ===== *)
theory Policy_Store
  imports Policy_Types "HOL-Library.AList"
begin

text \<open>
  The policy store: \<^verbatim>\<open>crates/auth/src/policy/storage.rs\<close>. Writing and reading the JSON text of a snapshot is serde's, a parameter.
\<close>

record 'j policy_store =
  ps_policies :: "(u128 \<times> 'j policy) list"
  ps_scope_index :: "(string \<times> u128 list) list"

definition policy_store_new :: "'j policy_store" where
  "policy_store_new = \<lparr>ps_policies = [], ps_scope_index = []\<rparr>"

fun scope_key :: "policy_scope \<Rightarrow> string" where
  "scope_key GlobalScope = ''global''"
| "scope_key (NamespaceScope ns) = ''ns:'' @ ns"
| "scope_key (KeyScope key) = ''key:'' @ key"
| "scope_key (UserScope user) = ''user:'' @ user"
| "scope_key (AssetScope asset) = ''asset:'' @ show_asset asset"

definition index_of :: "'j policy_store \<Rightarrow> string \<Rightarrow> u128 list" where
  "index_of S k = (case map_of (ps_scope_index S) k of Some ids \<Rightarrow> ids | None \<Rightarrow> [])"

definition policy_add :: "'j policy_store \<Rightarrow> 'j policy \<Rightarrow> 'j policy_store \<times> u128" where
  "policy_add S p =
     (let k = scope_key (pol_scope p) in
      (S\<lparr>ps_policies := AList.update (pol_id p) p (ps_policies S),
         ps_scope_index := AList.update k (index_of S k @ [pol_id p]) (ps_scope_index S)\<rparr>, pol_id p))"

definition policy_get :: "'j policy_store \<Rightarrow> u128 \<Rightarrow> 'j policy option" where
  "policy_get S i = map_of (ps_policies S) i"

definition policy_update :: "int \<Rightarrow> 'j policy_store \<Rightarrow> u128 \<Rightarrow> ('j policy \<Rightarrow> 'j policy) \<Rightarrow> 'j policy_store \<times> 'j policy option" where
  "policy_update now S i updater =
     (case map_of (ps_policies S) i of
        None \<Rightarrow> (S, None)
      | Some p \<Rightarrow> let p1 = updater p; p2 = p1\<lparr>pol_updated_at := now, pol_version := pol_version p1 + 1\<rparr> in
          (S\<lparr>ps_policies := AList.update i p2 (ps_policies S)\<rparr>, Some p2))"

definition policy_delete :: "'j policy_store \<Rightarrow> u128 \<Rightarrow> 'j policy_store \<times> 'j policy option" where
  "policy_delete S i =
     (case map_of (ps_policies S) i of
        None \<Rightarrow> (S, None)
      | Some p \<Rightarrow> let k = scope_key (pol_scope p) in
          (S\<lparr>ps_policies := AList.delete i (ps_policies S),
             ps_scope_index := (case map_of (ps_scope_index S) k of
                 Some ids \<Rightarrow> AList.update k (filter (\<lambda>x. x \<noteq> i) ids) (ps_scope_index S)
               | None \<Rightarrow> ps_scope_index S)\<rparr>, Some p))"

definition get_for_scope :: "'j policy_store \<Rightarrow> policy_scope \<Rightarrow> 'j policy list" where
  "get_for_scope S scope = List.map_filter (\<lambda>i. map_of (ps_policies S) i) (index_of S (scope_key scope))"

definition get_enabled_for_scope :: "'j policy_store \<Rightarrow> policy_scope \<Rightarrow> 'j policy list" where
  "get_enabled_for_scope S scope = sort_key (\<lambda>p. - pol_priority p) (filter pol_enabled (get_for_scope S scope))"

definition get_for_key :: "'j policy_store \<Rightarrow> string \<Rightarrow> string \<Rightarrow> 'j policy list" where
  "get_for_key S key_id ns =
     sort_key (\<lambda>p. - pol_priority p)
       (get_enabled_for_scope S GlobalScope @ get_enabled_for_scope S (NamespaceScope ns) @ get_enabled_for_scope S (KeyScope key_id))"

definition policy_list :: "'j policy_store \<Rightarrow> 'j policy list" where
  "policy_list S = map snd (ps_policies S)"

definition policy_count :: "'j policy_store \<Rightarrow> nat" where
  "policy_count S = length (ps_policies S)"

definition policy_enable :: "int \<Rightarrow> 'j policy_store \<Rightarrow> u128 \<Rightarrow> 'j policy_store \<times> bool" where
  "policy_enable now S i = (let (S', r) = policy_update now S i (\<lambda>p. p\<lparr>pol_enabled := True\<rparr>) in (S', r \<noteq> None))"

definition policy_disable :: "int \<Rightarrow> 'j policy_store \<Rightarrow> u128 \<Rightarrow> 'j policy_store \<times> bool" where
  "policy_disable now S i = (let (S', r) = policy_update now S i (\<lambda>p. p\<lparr>pol_enabled := False\<rparr>) in (S', r \<noteq> None))"

record 'j policy_snapshot =
  psn_policies :: "'j policy list"
  psn_timestamp :: int
  psn_version :: u32

definition policy_snapshot_of :: "int \<Rightarrow> 'j policy_store \<Rightarrow> 'j policy_snapshot" where
  "policy_snapshot_of now S = \<lparr>psn_policies = policy_list S, psn_timestamp = now, psn_version = 1\<rparr>"

definition policy_restore :: "'j policy_store \<Rightarrow> 'j policy_snapshot \<Rightarrow> 'j policy_store \<times> nat" where
  "policy_restore S sn = fold (\<lambda>p (S, n). (fst (policy_add S p), n + 1)) (psn_policies sn) (S, 0)"

definition policy_export_json :: "('j policy_snapshot \<Rightarrow> string option) \<Rightarrow> int \<Rightarrow> 'j policy_store \<Rightarrow> string" where
  "policy_export_json print now S = (case print (policy_snapshot_of now S) of Some s \<Rightarrow> s | None \<Rightarrow> [])"

definition policy_import_json :: "(string \<Rightarrow> ('e, 'j policy_snapshot) res) \<Rightarrow> 'j policy_store \<Rightarrow> string \<Rightarrow> 'j policy_store \<times> ('e, nat) res" where
  "policy_import_json parse S json =
     (case parse json of Inl e \<Rightarrow> (S, Inl e) | Inr sn \<Rightarrow> let (S', n) = policy_restore S sn in (S', Inr n))"

end
