(* ===== verification/Policy_Scopes.thy ===== *)
theory Policy_Scopes
  imports Policy_Store Policy_Engine Budgets
begin

text \<open>
  The policy store over arbitrary sequences of operations: its index agrees with its table, so that a key is subject to exactly the enabled
  policies of its scopes; and where tokens and snapshots get mixed up.
\<close>

datatype 'j policy_op =
    AddPolicy "'j policy"
  | UpdatePolicy int u128 "'j policy \<Rightarrow> 'j policy"
  | DeletePolicy u128
  | EnablePolicy int u128
  | DisablePolicy int u128

fun policy_do :: "'j policy_op \<Rightarrow> 'j policy_store \<Rightarrow> 'j policy_store" where
  "policy_do (AddPolicy p) S = fst (policy_add S p)"
| "policy_do (UpdatePolicy now i f) S = fst (policy_update now S i f)"
| "policy_do (DeletePolicy i) S = fst (policy_delete S i)"
| "policy_do (EnablePolicy now i) S = fst (policy_enable now S i)"
| "policy_do (DisablePolicy now i) S = fst (policy_disable now S i)"

text \<open>Added policies have fresh identifiers, and updates leave the identifier and the scope alone.\<close>

fun policy_op_ok :: "'j policy_op \<Rightarrow> bool" where
  "policy_op_ok (UpdatePolicy now i f) \<longleftrightarrow> (\<forall>p. pol_id (f p) = pol_id p \<and> pol_scope (f p) = pol_scope p)"
| "policy_op_ok op \<longleftrightarrow> True"

fun added_ids :: "'j policy_op list \<Rightarrow> u128 list" where
  "added_ids [] = []"
| "added_ids (AddPolicy p # ops) = pol_id p # added_ids ops"
| "added_ids (_ # ops) = added_ids ops"

definition store_ok :: "'j policy_store \<Rightarrow> bool" where
  "store_ok S \<longleftrightarrow> (\<forall>i p. policy_get S i = Some p \<longrightarrow> pol_id p = i) \<and>
     (\<forall>k. distinct (index_of S k) \<and> set (index_of S k) = {i. \<exists>p. policy_get S i = Some p \<and> scope_key (pol_scope p) = k})"

lemma store_ok_add:
  assumes "store_ok S" "policy_get S (pol_id p) = None"
  shows "store_ok (fst (policy_add S p))"
proof -
  have i: "index_of (fst (policy_add S p)) k = (if k = scope_key (pol_scope p) then index_of S k @ [pol_id p] else index_of S k)" for k
    by (simp add: policy_add_def index_of_def Let_def update_conv' split: option.split)
  have g: "policy_get (fst (policy_add S p)) i = (if i = pol_id p then Some p else policy_get S i)" for i
    by (simp add: policy_add_def policy_get_def Let_def update_conv')
  show ?thesis using assms unfolding store_ok_def by (auto simp: i g)
qed

lemma store_ok_update:
  assumes "store_ok S" "\<And>p. pol_id (f p) = pol_id p \<and> pol_scope (f p) = pol_scope p"
  shows "store_ok (fst (policy_update now S i f))"
proof (cases "policy_get S i")
  case (Some p)
  let ?p = "(f p)\<lparr>pol_updated_at := now, pol_version := pol_version (f p) + 1\<rparr>"
  have g: "policy_get (fst (policy_update now S i f)) j = (if j = i then Some ?p else policy_get S j)" for j
    using Some by (simp add: policy_update_def policy_get_def Let_def update_conv')
  have "index_of (fst (policy_update now S i f)) k = index_of S k" for k
    using Some by (simp add: policy_update_def policy_get_def index_of_def Let_def)
  then show ?thesis using assms Some unfolding store_ok_def by (auto simp: g)
qed (use assms in \<open>simp add: policy_update_def policy_get_def\<close>)

lemma store_ok_delete:
  assumes "store_ok S"
  shows "store_ok (fst (policy_delete S i))"
proof (cases "policy_get S i")
  case (Some p)
  have g: "policy_get (fst (policy_delete S i)) j = (if j = i then None else policy_get S j)" for j
    using Some by (simp add: policy_delete_def policy_get_def Let_def delete_conv')
  have n: "index_of (fst (policy_delete S i)) k = (if k = scope_key (pol_scope p) then filter (\<lambda>x. x \<noteq> i) (index_of S k) else index_of S k)" for k
    using Some by (auto simp: policy_delete_def policy_get_def index_of_def Let_def update_conv' split: option.split)
  show ?thesis using assms Some unfolding store_ok_def by (auto simp: g n)
qed (use assms in \<open>simp add: policy_delete_def policy_get_def\<close>)

lemma policy_enable_update [simp]:
  "fst (policy_enable now S i) = fst (policy_update now S i (\<lambda>p. p\<lparr>pol_enabled := True\<rparr>))"
  "fst (policy_disable now S i) = fst (policy_update now S i (\<lambda>p. p\<lparr>pol_enabled := False\<rparr>))"
  by (simp_all add: policy_enable_def policy_disable_def split: prod.split)

lemma policy_do_ok:
  assumes "store_ok S" "policy_op_ok op" "\<And>p. op = AddPolicy p \<Longrightarrow> policy_get S (pol_id p) = None"
  shows "store_ok (policy_do op S)"
  using assms store_ok_update [OF assms(1)] by (cases op) (auto simp: store_ok_add store_ok_delete)

lemma policy_get_do:
  assumes "policy_get S i = None" "\<And>p. op = AddPolicy p \<Longrightarrow> pol_id p \<noteq> i"
  shows "policy_get (policy_do op S) i = None"
  using assms
  by (cases op) (auto simp: policy_get_def policy_add_def policy_update_def policy_delete_def Let_def update_conv' delete_conv' split: option.split)

lemma added_ids_Cons: "added_ids (op # ops) = (case op of AddPolicy p \<Rightarrow> [pol_id p] | _ \<Rightarrow> []) @ added_ids ops"
  by (cases op) auto

lemma policy_run_ok:
  assumes "store_ok S" "list_all policy_op_ok ops" "distinct (added_ids ops)" "\<And>i. i \<in> set (added_ids ops) \<Longrightarrow> policy_get S i = None"
  shows "store_ok (run_ops policy_do S ops)"
  using assms
proof (induction ops arbitrary: S)
  case (Cons op ops)
  have "store_ok (policy_do op S)"
    using Cons.prems by (intro policy_do_ok) (auto simp: added_ids_Cons)
  moreover have "policy_get (policy_do op S) i = None" if "i \<in> set (added_ids ops)" for i
    using Cons.prems(3,4) that by (intro policy_get_do) (auto simp: added_ids_Cons)
  ultimately show ?case
    using Cons.prems(2,3) by (auto simp: added_ids_Cons intro!: Cons.IH)
qed simp


section \<open>The policies of a key\<close>

lemma map_filter_get:
  assumes "store_ok S"
  shows "distinct (get_for_scope S sc)"
    "set (get_for_scope S sc) = {p. policy_get S (pol_id p) = Some p \<and> scope_key (pol_scope p) = scope_key sc}"
proof -
  have ok: "distinct (index_of S (scope_key sc))" "\<And>i p. policy_get S i = Some p \<Longrightarrow> pol_id p = i"
    "set (index_of S (scope_key sc)) = {i. \<exists>p. policy_get S i = Some p \<and> scope_key (pol_scope p) = scope_key sc}"
    using assms by (auto simp: store_ok_def)
  have eq: "get_for_scope S sc = map (\<lambda>i. the (policy_get S i)) (index_of S (scope_key sc))"
  proof -
    have "filter (\<lambda>i. policy_get S i \<noteq> None) (index_of S (scope_key sc)) = index_of S (scope_key sc)"
      by (rule filter_True) (auto simp: ok(3))
    then show ?thesis by (simp add: get_for_scope_def policy_get_def map_filter_def comp_def)
  qed
  have "inj_on (\<lambda>i. the (policy_get S i)) (set (index_of S (scope_key sc)))"
    using ok by (auto intro!: inj_onI) (metis option.sel)
  then show "distinct (get_for_scope S sc)" using ok(1) by (simp add: eq distinct_map)
  show "set (get_for_scope S sc) = {p. policy_get S (pol_id p) = Some p \<and> scope_key (pol_scope p) = scope_key sc}"
    unfolding eq set_map ok(3)
  proof (intro equalityI subsetI)
    fix p assume "p \<in> (\<lambda>i. the (policy_get S i)) ` {i. \<exists>p. policy_get S i = Some p \<and> scope_key (pol_scope p) = scope_key sc}"
    then obtain i where "policy_get S i = Some p" "scope_key (pol_scope p) = scope_key sc" by auto
    then show "p \<in> {p. policy_get S (pol_id p) = Some p \<and> scope_key (pol_scope p) = scope_key sc}" using ok(2) [of i p] by simp
  next
    fix p assume "p \<in> {p. policy_get S (pol_id p) = Some p \<and> scope_key (pol_scope p) = scope_key sc}"
    then show "p \<in> (\<lambda>i. the (policy_get S i)) ` {i. \<exists>p. policy_get S i = Some p \<and> scope_key (pol_scope p) = scope_key sc}"
      by (intro image_eqI [of _ _ "pol_id p"]) auto
  qed
qed

lemma scope_key_eq:
  "scope_key sc = ''global'' \<longleftrightarrow> sc = GlobalScope"
  "scope_key sc = CHR ''n'' # CHR ''s'' # CHR '':'' # ns \<longleftrightarrow> sc = NamespaceScope ns"
  "scope_key sc = CHR ''k'' # CHR ''e'' # CHR ''y'' # CHR '':'' # k \<longleftrightarrow> sc = KeyScope k"
  by (cases sc; simp)+

lemma enabled_for_scope:
  assumes "store_ok S"
  shows "distinct (get_enabled_for_scope S sc)"
    "set (get_enabled_for_scope S sc) = {p. policy_get S (pol_id p) = Some p \<and> pol_enabled p \<and> scope_key (pol_scope p) = scope_key sc}"
  using map_filter_get [OF assms, of sc] by (auto simp: get_enabled_for_scope_def)

text \<open>A key is subject to exactly the enabled policies that are global, of its namespace or its own: after any such sequence of operations,
  they are returned once each, in the order of descending priority.\<close>

theorem policies_of_a_key:
  assumes "list_all policy_op_ok ops" "distinct (added_ids ops)" "S = run_ops policy_do policy_store_new ops"
  shows "set (get_for_key S key_id ns) = {p. policy_get S (pol_id p) = Some p \<and> pol_enabled p \<and>
      pol_scope p \<in> {GlobalScope, NamespaceScope ns, KeyScope key_id}} \<and>
    distinct (get_for_key S key_id ns) \<and> sorted (map (\<lambda>p. - pol_priority p) (get_for_key S key_id ns))"
proof -
  have "store_ok S"
    unfolding assms(3) using assms(1,2)
    by (intro policy_run_ok) (simp_all add: store_ok_def policy_store_new_def policy_get_def index_of_def)
  note e = enabled_for_scope [OF this]
  have "set (get_for_key S key_id ns) = {p. policy_get S (pol_id p) = Some p \<and> pol_enabled p \<and>
      pol_scope p \<in> {GlobalScope, NamespaceScope ns, KeyScope key_id}}"
    by (auto simp: get_for_key_def e scope_key_eq)
  moreover have "distinct (get_for_key S key_id ns)"
    by (auto simp: get_for_key_def e scope_key_eq)
  ultimately show ?thesis by (simp add: get_for_key_def)
qed

definition sample_policies :: "unit policy_op list" where
  "sample_policies = [AddPolicy (policy_new 1 0 ''a'' GlobalScope ()), AddPolicy (policy_new 2 0 ''b'' (KeyScope ''k'') ()), DisablePolicy 5 1]"


theorem policies_of_a_key_witness:
  "let S = run_ops policy_do policy_store_new sample_policies in
   set (get_for_key S ''k'' ''n'') = {p. policy_get S (pol_id p) = Some p \<and> pol_enabled p \<and>
      pol_scope p \<in> {GlobalScope, NamespaceScope ''n'', KeyScope ''k''}} \<and>
    distinct (get_for_key S ''k'' ''n'') \<and> sorted (map (\<lambda>p. - pol_priority p) (get_for_key S ''k'' ''n''))"
  unfolding Let_def by (rule policies_of_a_key [OF _ _ refl]) (simp_all add: sample_policies_def policy_new_def)

section \<open>Mixed up\<close>

text \<open>Tokens of one chain whose contracts agree in the first eight characters share the scope and the tracker.\<close>

lemma tokens_share_scope:
  assumes "take 8 c = take 8 c'"
  shows "scope_key (AssetScope (Erc20 chain c)) = scope_key (AssetScope (Erc20 chain c'))"
    "tracker_for_key (Erc20 chain c) k = tracker_for_key (Erc20 chain c') k"
proof -
  have "take (min 8 (length c)) c = take (min 8 (length c')) c'" using assms by (simp add: min_def) (metis nat_le_linear take_all)
  then show "scope_key (AssetScope (Erc20 chain c)) = scope_key (AssetScope (Erc20 chain c'))"
    "tracker_for_key (Erc20 chain c) k = tracker_for_key (Erc20 chain c') k"
    by (simp_all add: tracker_for_key_def)
qed

text \<open>Restoring a snapshot into the store that it was taken from lists every policy twice.\<close>

lemma restore_duplicates:
  "length (get_for_scope (fst (policy_restore S (policy_snapshot_of now S))) GlobalScope) = 2"
  if "S = fst (policy_add policy_store_new (policy_new 1 0 ''a'' GlobalScope ()))"
  unfolding that by code_simp

end
