(* ===== verification/Crash_Disk.thy ===== *)
theory Crash_Disk
  imports Hsm_Prelude "HOL-Library.AList"
begin

text \<open>
  The file system below the encrypted storage, \<^verbatim>\<open>crates/storage\<close>, as far as the code uses
  \<^verbatim>\<open>std::fs\<close>: directories and files of the namespaces, writes that can be cut short by an error or a crash,
  and synchronisation. An environment decides about every call by a script: the call proceeds, fails after
  some bytes, or the machine stops after some bytes. Creating and removing names is taken to be durable at once;
  the contents of a file are durable up to the last synchronisation. Assertions about programs that may stop are
  triples with a condition of their own for the crash.
\<close>

section \<open>Errors\<close>

datatype storage_error =
    KeyNotFound string
  | NamespaceNotFound string
  | Io string
  | Encryption string
  | CorruptionDetected string
  | JournalError string
  | SerializationError string
  | MasterKeyError string
  | InvalidPath string
  | OperationFailed string

section \<open>The disk\<close>

datatype dir = Base_Dir | Namespaces_Dir | Ns_Dir string | Keys_Dir string | Journal_Dir string

datatype path = Master_File | Journal_File string | Key_File string string | Meta_File string string

record fnode =
  file_content :: bytes
  stable :: nat

datatype event = Proceed | Fail nat | Crash nat

record disk =
  dirs :: "dir list"
  files :: "(path \<times> fnode) list"
  unsynced :: "path list"
  script :: "event list"

datatype 'a outcome = Stopped | Done "(storage_error, 'a) res"

definition file_at :: "('x disk_scheme) \<Rightarrow> path \<Rightarrow> fnode option" where
  "file_at d p = map_of (files d) p"

primrec parent :: "path \<Rightarrow> dir" where
  "parent Master_File = Base_Dir"
| "parent (Journal_File ns) = Journal_Dir ns"
| "parent (Key_File ns k) = Keys_Dir ns"
| "parent (Meta_File ns k) = Keys_Dir ns"

primrec path_ns :: "path \<Rightarrow> string option" where
  "path_ns Master_File = None"
| "path_ns (Journal_File ns) = Some ns"
| "path_ns (Key_File ns k) = Some ns"
| "path_ns (Meta_File ns k) = Some ns"

primrec dir_ns :: "dir \<Rightarrow> string option" where
  "dir_ns Base_Dir = None"
| "dir_ns Namespaces_Dir = None"
| "dir_ns (Ns_Dir ns) = Some ns"
| "dir_ns (Keys_Dir ns) = Some ns"
| "dir_ns (Journal_Dir ns) = Some ns"

primrec dirs_above :: "dir \<Rightarrow> dir list" where
  "dirs_above Base_Dir = [Base_Dir]"
| "dirs_above Namespaces_Dir = [Base_Dir, Namespaces_Dir]"
| "dirs_above (Ns_Dir ns) = [Base_Dir, Namespaces_Dir, Ns_Dir ns]"
| "dirs_above (Keys_Dir ns) = [Base_Dir, Namespaces_Dir, Ns_Dir ns, Keys_Dir ns]"
| "dirs_above (Journal_Dir ns) = [Base_Dir, Namespaces_Dir, Ns_Dir ns, Journal_Dir ns]"

section \<open>Programs\<close>

definition ret :: "'a \<Rightarrow> 's \<Rightarrow> 's \<times> 'a outcome" where
  "ret x = (\<lambda>s. (s, Done (Inr x)))"

definition throw :: "storage_error \<Rightarrow> 's \<Rightarrow> 's \<times> 'a outcome" where
  "throw e = (\<lambda>s. (s, Done (Inl e)))"

definition bind_io :: "('s \<Rightarrow> 's \<times> 'a outcome) \<Rightarrow> ('a \<Rightarrow> 's \<Rightarrow> 's \<times> 'b outcome) \<Rightarrow> 's \<Rightarrow> 's \<times> 'b outcome" where
  "bind_io m f = (\<lambda>s. case m s of
      (s', Stopped) \<Rightarrow> (s', Stopped)
    | (s', Done (Inl e)) \<Rightarrow> (s', Done (Inl e))
    | (s', Done (Inr x)) \<Rightarrow> f x s')"

definition read_state :: "('s \<Rightarrow> 's \<Rightarrow> 's \<times> 'a outcome) \<Rightarrow> 's \<Rightarrow> 's \<times> 'a outcome" where
  "read_state f = (\<lambda>s. f s s)"

definition lift_res :: "(storage_error, 'a) res \<Rightarrow> 's \<Rightarrow> 's \<times> 'a outcome" where
  "lift_res r = (\<lambda>s. (s, Done r))"

text \<open>\<^verbatim>\<open>let _ = ...\<close>: an error is dropped.\<close>

definition ignore :: "('s \<Rightarrow> 's \<times> 'a outcome) \<Rightarrow> 's \<Rightarrow> 's \<times> unit outcome" where
  "ignore m = (\<lambda>s. case m s of (s', Stopped) \<Rightarrow> (s', Stopped) | (s', Done _) \<Rightarrow> (s', Done (Inr ())))"

fun each :: "('a \<Rightarrow> 's \<Rightarrow> 's \<times> unit outcome) \<Rightarrow> 'a list \<Rightarrow> 's \<Rightarrow> 's \<times> unit outcome" where
  "each f [] = ret ()"
| "each f (x # xs) = bind_io (f x) (\<lambda>_. each f xs)"

section \<open>System calls\<close>

text \<open>A call does \<open>full\<close> when it proceeds and \<open>partial n\<close> when it fails or the machine stops.\<close>

definition syscall :: "('x disk_scheme \<Rightarrow> 'x disk_scheme) \<Rightarrow> (nat \<Rightarrow> 'x disk_scheme \<Rightarrow> 'x disk_scheme) \<Rightarrow>
  'x disk_scheme \<Rightarrow> 'x disk_scheme \<times> unit outcome" where
  "syscall full partial d =
     (case script d of
        [] \<Rightarrow> (full d, Done (Inr ()))
      | Proceed # es \<Rightarrow> (full (d\<lparr>script := es\<rparr>), Done (Inr ()))
      | Fail n # es \<Rightarrow> (partial n (d\<lparr>script := es\<rparr>), Done (Inl (Io ''I/O error'')))
      | Crash n # es \<Rightarrow> (partial n (d\<lparr>script := es\<rparr>), Stopped))"

definition nothing :: "nat \<Rightarrow> 's \<Rightarrow> 's" where
  "nothing n s = s"

definition put_file :: "path \<Rightarrow> fnode \<Rightarrow> 'x disk_scheme \<Rightarrow> 'x disk_scheme" where
  "put_file p f d = d\<lparr>files := AList.update p f (files d), unsynced := List.insert p (unsynced d)\<rparr>"

definition no_parent :: "'s \<Rightarrow> 's \<times> 'a outcome" where
  "no_parent = throw (Io ''No such file or directory'')"

text \<open>\<^verbatim>\<open>create_dir_all\<close>: the directory and those above it.\<close>

definition make_dirs :: "dir list \<Rightarrow> 'x disk_scheme \<Rightarrow> 'x disk_scheme" where
  "make_dirs xs d = d\<lparr>dirs := dirs d @ filter (\<lambda>x. x \<notin> set (dirs d)) (remdups xs)\<rparr>"

definition create_dir_all :: "dir \<Rightarrow> 'x disk_scheme \<Rightarrow> 'x disk_scheme \<times> unit outcome" where
  "create_dir_all x = syscall (make_dirs (dirs_above x)) (\<lambda>n. make_dirs (take n (dirs_above x)))"

text \<open>Opening for appending keeps the contents, \<^verbatim>\<open>create_restricted_file\<close> truncates.\<close>

definition open_append :: "path \<Rightarrow> 'x disk_scheme \<Rightarrow> 'x disk_scheme \<times> unit outcome" where
  "open_append p = read_state (\<lambda>d.
     if parent p \<notin> set (dirs d) then no_parent
     else syscall (\<lambda>d. if file_at d p = None then put_file p \<lparr>file_content = [], stable = 0\<rparr> d else d) nothing)"

definition create_restricted_file :: "path \<Rightarrow> 'x disk_scheme \<Rightarrow> 'x disk_scheme \<times> unit outcome" where
  "create_restricted_file p = read_state (\<lambda>d.
     if parent p \<notin> set (dirs d) then no_parent
     else syscall (put_file p \<lparr>file_content = [], stable = 0\<rparr>) nothing)"

definition extend_file :: "path \<Rightarrow> bytes \<Rightarrow> 'x disk_scheme \<Rightarrow> 'x disk_scheme" where
  "extend_file p bs d = (case file_at d p of None \<Rightarrow> d
     | Some f \<Rightarrow> put_file p (f\<lparr>file_content := file_content f @ bs\<rparr>) d)"

definition write_all :: "path \<Rightarrow> bytes \<Rightarrow> 'x disk_scheme \<Rightarrow> 'x disk_scheme \<times> unit outcome" where
  "write_all p bs = syscall (extend_file p bs) (\<lambda>n. extend_file p (take n bs))"

definition mark_synced :: "path \<Rightarrow> 'x disk_scheme \<Rightarrow> 'x disk_scheme" where
  "mark_synced p d = (case file_at d p of None \<Rightarrow> d
     | Some f \<Rightarrow> d\<lparr>files := AList.update p (f\<lparr>stable := length (file_content f)\<rparr>) (files d),
                   unsynced := removeAll p (unsynced d)\<rparr>)"

definition sync_all :: "path \<Rightarrow> 'x disk_scheme \<Rightarrow> 'x disk_scheme \<times> unit outcome" where
  "sync_all p = syscall (mark_synced p) nothing"

definition set_permissions :: "path \<Rightarrow> 'x disk_scheme \<Rightarrow> 'x disk_scheme \<times> unit outcome" where
  "set_permissions p = syscall id nothing"

definition drop_file :: "path \<Rightarrow> 'x disk_scheme \<Rightarrow> 'x disk_scheme" where
  "drop_file p d = d\<lparr>files := AList.delete p (files d), unsynced := removeAll p (unsynced d)\<rparr>"

definition remove_file :: "path \<Rightarrow> 'x disk_scheme \<Rightarrow> 'x disk_scheme \<times> unit outcome" where
  "remove_file p = syscall (drop_file p) nothing"

definition read_file :: "path \<Rightarrow> 'x disk_scheme \<Rightarrow> 'x disk_scheme \<times> bytes outcome" where
  "read_file p = read_state (\<lambda>d.
     case file_at d p of None \<Rightarrow> no_parent
     | Some f \<Rightarrow> bind_io (syscall id nothing) (\<lambda>_. ret (file_content f)))"

text \<open>\<^verbatim>\<open>remove_dir_all\<close> of a namespace removes its files one by one, then the directories.\<close>

definition drop_files :: "path list \<Rightarrow> 'x disk_scheme \<Rightarrow> 'x disk_scheme" where
  "drop_files ps d = fold drop_file ps d"

definition ns_files :: "string \<Rightarrow> 'x disk_scheme \<Rightarrow> path list" where
  "ns_files ns d = filter (\<lambda>p. path_ns p = Some ns) (map fst (files d))"

definition remove_namespace_dir :: "string \<Rightarrow> 'x disk_scheme \<Rightarrow> 'x disk_scheme \<times> unit outcome" where
  "remove_namespace_dir ns = read_state (\<lambda>d0. syscall
     (\<lambda>d. (drop_files (ns_files ns d0) d)\<lparr>dirs := filter (\<lambda>x. dir_ns x \<noteq> Some ns) (dirs d)\<rparr>)
     (\<lambda>n. drop_files (take n (ns_files ns d0))))"

section \<open>Assertions with a crash condition\<close>

text \<open>\<open>calm s\<close>: the environment will stop the machine at most, and never make a call fail.\<close>

definition calm :: "'x disk_scheme \<Rightarrow> bool" where
  "calm s \<longleftrightarrow> (\<forall>n. Fail n \<notin> set (script s))"

fun ends :: "('a \<Rightarrow> 'x disk_scheme \<Rightarrow> bool) \<Rightarrow> ('x disk_scheme \<Rightarrow> bool) \<Rightarrow> 'x disk_scheme \<times> 'a outcome \<Rightarrow> bool" where
  "ends Q C (s, Done (Inr x)) \<longleftrightarrow> calm s \<and> Q x s"
| "ends Q C (s, Done (Inl e)) \<longleftrightarrow> False"
| "ends Q C (s, Stopped) \<longleftrightarrow> C s"

text \<open>\<open>safe I m Q C\<close>: from a state with \<open>I\<close> the program \<open>m\<close> either returns a value with \<open>Q\<close>, or the machine stops in a
  state with \<open>C\<close>; it returns no error.\<close>

definition safe :: "('x disk_scheme \<Rightarrow> bool) \<Rightarrow> ('x disk_scheme \<Rightarrow> 'x disk_scheme \<times> 'a outcome) \<Rightarrow>
  ('a \<Rightarrow> 'x disk_scheme \<Rightarrow> bool) \<Rightarrow> ('x disk_scheme \<Rightarrow> bool) \<Rightarrow> bool" where
  "safe I m Q C \<longleftrightarrow> (\<forall>s. calm s \<longrightarrow> I s \<longrightarrow> ends Q C (m s))"

definition any_script :: "('x disk_scheme \<Rightarrow> bool) \<Rightarrow> bool" where
  "any_script I \<longleftrightarrow> (\<forall>s es. I s \<longrightarrow> I (s\<lparr>script := es\<rparr>))"

lemma safeD: "safe I m Q C \<Longrightarrow> calm s \<Longrightarrow> I s \<Longrightarrow> ends Q C (m s)"
  by (simp add: safe_def)

lemma safe_ret: "(\<And>s. I s \<Longrightarrow> Q x s) \<Longrightarrow> safe I (ret x) Q C"
  by (simp add: safe_def ret_def)

lemma safe_bind:
  assumes "safe I m R C" and "\<And>x. safe (R x) (f x) Q C"
  shows "safe I (bind_io m f) Q C"
  unfolding safe_def
proof (intro allI impI)
  fix s assume "calm s" "I s"
  with assms(1) have m: "ends R C (m s)" by (rule safeD)
  obtain s' r where "m s = (s', r)" by fastforce
  with m show "ends Q C (bind_io m f s)"
    by (cases r; cases "case r of Done z \<Rightarrow> z | Stopped \<Rightarrow> undefined")
      (auto simp: bind_io_def intro: safeD [OF assms(2)])
qed

lemma ends_mono:
  assumes "ends Q C r" and "\<And>x s. Q x s \<Longrightarrow> R x s" and "\<And>s. C s \<Longrightarrow> D s"
  shows "ends R D r"
  using assms by (cases "(Q, C, r)" rule: ends.cases) auto

lemma safe_conseq:
  assumes "safe I m Q C" and "\<And>s. J s \<Longrightarrow> I s" and "\<And>x s. Q x s \<Longrightarrow> R x s" and "\<And>s. C s \<Longrightarrow> D s"
  shows "safe J m R D"
  unfolding safe_def using assms(2) by (auto intro: ends_mono [OF safeD [OF assms(1)]] assms(3,4))

lemma safe_read_state: "(\<And>s. I s \<Longrightarrow> safe (\<lambda>t. t = s) (f s) Q C) \<Longrightarrow> safe I (read_state f) Q C"
  by (auto simp: safe_def read_state_def)

lemma safe_if: "(b \<Longrightarrow> safe I m Q C) \<Longrightarrow> (\<not> b \<Longrightarrow> safe I m' Q C) \<Longrightarrow> safe I (if b then m else m') Q C"
  by simp

lemma safe_each:
  assumes "\<And>ys x zs. xs = ys @ x # zs \<Longrightarrow> safe (J ys) (f x) (\<lambda>_. J (ys @ [x])) C"
  shows "safe (J []) (each f xs) (\<lambda>_. J xs) C"
proof -
  have "safe (J ys) (each f zs) (\<lambda>_. J xs) C" if "xs = ys @ zs" for ys zs
    using that
  proof (induction zs arbitrary: ys)
    case Nil
    then show ?case by (simp add: safe_ret)
  next
    case (Cons x zs)
    have "safe (J (ys @ [x])) (each f zs) (\<lambda>_. J xs) C" using Cons by simp
    with assms [OF Cons.prems] show ?case by (auto intro: safe_bind)
  qed
  from this [of "[]" xs] show ?thesis by simp
qed

lemma safe_syscall:
  assumes "any_script I" and "\<And>s. I s \<Longrightarrow> Q () (full s)" and "\<And>s n. I s \<Longrightarrow> C (partial n s)"
    and "\<And>s. script (full s) = script s"
  shows "safe I (syscall full partial) Q C"
  unfolding safe_def
proof (intro allI impI)
  fix s assume s: "calm s" "I s"
  have es: "I (s\<lparr>script := es\<rparr>)" for es using assms(1) s by (simp add: any_script_def)
  show "ends Q C (syscall full partial s)"
    using s assms(2) [OF s(2)] assms(2,3) [OF es] assms(4)
    by (auto simp: syscall_def calm_def split: list.split event.split)
qed

lemma file_at_simps [simp]:
  "file_at (put_file p f d) q = (if q = p then Some f else file_at d q)"
  "file_at (drop_file p d) q = (if q = p then None else file_at d q)"
  "file_at (mark_synced p d) q = (if q = p then map_option (\<lambda>f. f\<lparr>stable := length (file_content f)\<rparr>) (file_at d p) else file_at d q)"
  "file_at (extend_file p bs d) q =
     (if q = p then map_option (\<lambda>f. f\<lparr>file_content := file_content f @ bs\<rparr>) (file_at d p) else file_at d q)"
  "file_at (d\<lparr>script := es\<rparr>) q = file_at d q"
  "file_at (make_dirs xs d) q = file_at d q"
  by (auto simp: file_at_def put_file_def drop_file_def mark_synced_def extend_file_def make_dirs_def update_conv' delete_conv'
      split: option.split)

lemma unsynced_simps [simp]:
  "set (unsynced (put_file p f d)) = insert p (set (unsynced d))"
  "set (unsynced (drop_file p d)) = set (unsynced d) - {p}"
  "set (unsynced (mark_synced p d)) = (if file_at d p = None then set (unsynced d) else set (unsynced d) - {p})"
  "set (unsynced (extend_file p bs d)) = (if file_at d p = None then set (unsynced d) else insert p (set (unsynced d)))"
  "unsynced (make_dirs xs d) = unsynced d"
  by (auto simp: put_file_def drop_file_def mark_synced_def extend_file_def make_dirs_def split: option.split)

lemma dirs_simps [simp]:
  "dirs (put_file p f d) = dirs d" "dirs (drop_file p d) = dirs d" "dirs (mark_synced p d) = dirs d"
  "dirs (extend_file p bs d) = dirs d" "set (dirs (make_dirs xs d)) = set (dirs d) \<union> set xs"
  by (auto simp: put_file_def drop_file_def mark_synced_def extend_file_def make_dirs_def split: option.split)

lemma script_simps [simp]:
  "script (put_file p f d) = script d" "script (drop_file p d) = script d" "script (mark_synced p d) = script d"
  "script (extend_file p bs d) = script d" "script (make_dirs xs d) = script d"
  by (auto simp: put_file_def drop_file_def mark_synced_def extend_file_def make_dirs_def split: option.split)

lemma more_simps [simp]:
  "disk.more (put_file p f d) = disk.more d" "disk.more (drop_file p d) = disk.more d"
  "disk.more (mark_synced p d) = disk.more d" "disk.more (extend_file p bs d) = disk.more d"
  "disk.more (make_dirs xs d) = disk.more d"
  by (auto simp: put_file_def drop_file_def mark_synced_def extend_file_def make_dirs_def split: option.split)

end
