(* ===== verification/Wal_Journal.thy ===== *)
theory Wal_Journal
  imports Crash_Disk
begin

text \<open>
  The write-ahead journal, \<^verbatim>\<open>crates/storage/src/journal.rs\<close>, and the checksums it uses, \<^verbatim>\<open>checksum.rs\<close>. The binary
  format of the postcard crate and SHA-256 are fields of a parameter record. The length prefix is a 32-bit
  number, so the length of a record is taken modulo two to the 32.
\<close>

section \<open>Checksums\<close>

record checksummed_data =
  cd_data :: bytes
  cd_checksum :: bytes

record key_metadata =
  km_checksum :: bytes
  km_timestamp :: u64
  km_size :: u64
  km_version :: u32

datatype journal_op =
    StoreKey string string bytes
  | DeleteKey string string
  | CreateNamespace string
  | DeleteNamespace string

record journal_entry =
  je_sequence :: u64
  je_operation :: journal_op
  je_timestamp :: u64

record encrypted_data =
  ed_nonce :: bytes
  ed_ciphertext :: bytes

record store_codec =
  sc_sha256 :: "bytes \<Rightarrow> bytes"
  ser_entry :: "journal_entry \<Rightarrow> (string, bytes) res"
  de_entry :: "bytes \<Rightarrow> (string, journal_entry) res"
  ser_checked :: "checksummed_data \<Rightarrow> (string, bytes) res"
  de_checked :: "bytes \<Rightarrow> (string, checksummed_data) res"
  ser_meta :: "key_metadata \<Rightarrow> (string, bytes) res"
  de_meta :: "bytes \<Rightarrow> (string, key_metadata) res"
  ser_encrypted :: "encrypted_data \<Rightarrow> (string, bytes) res"
  de_encrypted :: "bytes \<Rightarrow> (string, encrypted_data) res"

definition checksum_compute :: "store_codec \<Rightarrow> bytes \<Rightarrow> bytes" where
  "checksum_compute C data = sc_sha256 C data"

definition checksum_verify :: "store_codec \<Rightarrow> bytes \<Rightarrow> bytes \<Rightarrow> (storage_error, unit) res" where
  "checksum_verify C expected data =
     (if checksum_compute C data = expected then Inr () else Inl (CorruptionDetected ''Checksum mismatch''))"

definition checksummed_new :: "store_codec \<Rightarrow> bytes \<Rightarrow> checksummed_data" where
  "checksummed_new C data = \<lparr>cd_data = data, cd_checksum = checksum_compute C data\<rparr>"

definition into_verified_data :: "store_codec \<Rightarrow> checksummed_data \<Rightarrow> (storage_error, bytes) res" where
  "into_verified_data C cd = bind_res (checksum_verify C (cd_checksum cd) (cd_data cd)) (\<lambda>_. Inr (cd_data cd))"

definition metadata_new :: "store_codec \<Rightarrow> u64 \<Rightarrow> bytes \<Rightarrow> key_metadata" where
  "metadata_new C now enc = \<lparr>km_checksum = checksum_compute C enc, km_timestamp = now,
     km_size = word_of_nat (length enc), km_version = 1\<rparr>"

definition metadata_verify :: "store_codec \<Rightarrow> key_metadata \<Rightarrow> bytes \<Rightarrow> (storage_error, unit) res" where
  "metadata_verify C km enc =
     (if word_of_nat (length enc) \<noteq> km_size km
      then Inl (CorruptionDetected (''Size mismatch: expected '' @ show_nat (unat (km_size km)) @ '', got '' @
        show_nat (length enc)))
      else checksum_verify C (km_checksum km) enc)"

section \<open>Reading a journal\<close>

definition put_len :: "nat \<Rightarrow> bytes" where
  "put_len n = rev (be_digits 4 (unat (word_of_nat n :: u32)))"

definition get_len :: "bytes \<Rightarrow> nat" where
  "get_len bs = be_value (rev bs)"

definition read_record :: "store_codec \<Rightarrow> bytes \<Rightarrow> journal_entry list" where
  "read_record C rec =
     (case de_checked C rec of
        Inl _ \<Rightarrow> []
      | Inr cd \<Rightarrow> (case into_verified_data C cd of
          Inl _ \<Rightarrow> []
        | Inr eb \<Rightarrow> (case de_entry C eb of Inl _ \<Rightarrow> [] | Inr e \<Rightarrow> [e])))"

text \<open>\<open>buf\<close> is what follows the offset of the source.\<close>

function replay_buffer :: "store_codec \<Rightarrow> bytes \<Rightarrow> journal_entry list" where
  "replay_buffer C buf =
     (if buf = [] then []
      else if length buf < 4 then []
      else let len = get_len (take 4 buf); rest = drop 4 buf in
        if length rest < len then []
        else read_record C (take len rest) @ replay_buffer C (drop len rest))"
  by pat_completeness auto
termination by (relation "measure (\<lambda>(C, buf). length buf)") auto

declare replay_buffer.simps [simp del]

lemma replay_buffer_code [code]:
  "replay_buffer C [] = []"
  "replay_buffer C (b # bs) =
     (if length bs < 3 then []
      else let len = get_len (take 4 (b # bs)); rest = drop 3 bs in
        if length rest < len then []
        else read_record C (take len rest) @ replay_buffer C (drop len rest))"
  by (subst replay_buffer.simps, simp)+

definition replay :: "store_codec \<Rightarrow> string \<Rightarrow> 'x disk_scheme \<Rightarrow> 'x disk_scheme \<times> journal_entry list outcome" where
  "replay C ns = read_state (\<lambda>d.
     if file_at d (Journal_File ns) = None then ret []
     else bind_io (read_file (Journal_File ns)) (\<lambda>buf. ret (replay_buffer C buf)))"

definition read_last_sequence :: "store_codec \<Rightarrow> string \<Rightarrow> 'x disk_scheme \<Rightarrow> 'x disk_scheme \<times> u64 outcome" where
  "read_last_sequence C ns =
     bind_io (replay C ns) (\<lambda>es. ret (if es = [] then 0 else je_sequence (last es)))"

section \<open>Writing a journal\<close>

record wal =
  wal_sequence :: u64
  wal_pending :: "journal_entry list"

definition wal_new :: "store_codec \<Rightarrow> string \<Rightarrow> 'x disk_scheme \<Rightarrow> 'x disk_scheme \<times> wal outcome" where
  "wal_new C ns =
     bind_io (create_dir_all (Journal_Dir ns)) (\<lambda>_.
     bind_io (read_state (\<lambda>d. if file_at d (Journal_File ns) \<noteq> None then read_last_sequence C ns else ret 0)) (\<lambda>sq.
     ret \<lparr>wal_sequence = sq, wal_pending = []\<rparr>))"

definition wal_append :: "u64 \<Rightarrow> wal \<Rightarrow> journal_op \<Rightarrow> wal" where
  "wal_append now w op =
     (let sq = wal_sequence w + 1 in
      \<lparr>wal_sequence = sq, wal_pending = wal_pending w @ [\<lparr>je_sequence = sq, je_operation = op, je_timestamp = now\<rparr>]\<rparr>)"

definition entry_record :: "store_codec \<Rightarrow> journal_entry \<Rightarrow> (storage_error, bytes) res" where
  "entry_record C e =
     bind_res (map_err (\<lambda>m. SerializationError (''Failed to serialize journal entry: '' @ m)) (ser_entry C e)) (\<lambda>eb.
     map_err (\<lambda>m. SerializationError (''Failed to serialize checksummed entry: '' @ m))
       (ser_checked C (checksummed_new C eb)))"

definition write_entry :: "store_codec \<Rightarrow> string \<Rightarrow> journal_entry \<Rightarrow> 'x disk_scheme \<Rightarrow> 'x disk_scheme \<times> unit outcome" where
  "write_entry C ns e =
     bind_io (lift_res (entry_record C e)) (\<lambda>rec.
     bind_io (write_all (Journal_File ns) (put_len (length rec))) (\<lambda>_.
     write_all (Journal_File ns) rec))"

definition wal_commit :: "store_codec \<Rightarrow> string \<Rightarrow> wal \<Rightarrow> 'x disk_scheme \<Rightarrow> 'x disk_scheme \<times> wal outcome" where
  "wal_commit C ns w =
     (if wal_pending w = [] then ret w
      else
        bind_io (open_append (Journal_File ns)) (\<lambda>_.
        bind_io (each (write_entry C ns) (wal_pending w)) (\<lambda>_.
        bind_io (sync_all (Journal_File ns)) (\<lambda>_.
        bind_io (set_permissions (Journal_File ns)) (\<lambda>_.
        ret (w\<lparr>wal_pending := []\<rparr>))))))"

definition wal_truncate :: "string \<Rightarrow> wal \<Rightarrow> 'x disk_scheme \<Rightarrow> 'x disk_scheme \<times> wal outcome" where
  "wal_truncate ns w = read_state (\<lambda>d.
     bind_io (if file_at d (Journal_File ns) \<noteq> None then remove_file (Journal_File ns) else ret ()) (\<lambda>_.
     ret \<lparr>wal_sequence = 0, wal_pending = []\<rparr>))"

definition has_pending :: "wal \<Rightarrow> bool" where
  "has_pending w \<longleftrightarrow> wal_pending w \<noteq> []"

definition pending_count :: "wal \<Rightarrow> nat" where
  "pending_count w = length (wal_pending w)"

section \<open>Records that a crash cuts short\<close>

text \<open>What the code relies on: a serialized value is read back. \<open>fits\<close> bounds a record by its length prefix.\<close>

definition codec_reads_back :: "store_codec \<Rightarrow> bool" where
  "codec_reads_back C \<longleftrightarrow>
     (\<forall>e. \<exists>b. ser_entry C e = Inr b \<and> de_entry C b = Inr e) \<and>
     (\<forall>cd. \<exists>b. ser_checked C cd = Inr b \<and> de_checked C b = Inr cd) \<and>
     (\<forall>m. \<exists>b. ser_meta C m = Inr b \<and> de_meta C b = Inr m) \<and>
     (\<forall>x. \<exists>b. ser_encrypted C x = Inr b \<and> de_encrypted C b = Inr x)"

definition record_of :: "store_codec \<Rightarrow> journal_entry \<Rightarrow> bytes" where
  "record_of C e = (case entry_record C e of Inr rec \<Rightarrow> rec | Inl _ \<Rightarrow> [])"

definition fits :: "store_codec \<Rightarrow> journal_entry \<Rightarrow> bool" where
  "fits C e \<longleftrightarrow> length (record_of C e) < 2 ^ 32"

definition frame :: "store_codec \<Rightarrow> journal_entry \<Rightarrow> bytes" where
  "frame C e = put_len (length (record_of C e)) @ record_of C e"

definition frames :: "store_codec \<Rightarrow> journal_entry list \<Rightarrow> bytes" where
  "frames C es = concat (map (frame C) es)"

lemma entry_record_total: "codec_reads_back C \<Longrightarrow> entry_record C e = Inr (record_of C e)"
  unfolding codec_reads_back_def entry_record_def record_of_def by (metis bind_res_simps(2) map_err_simps(2) sum.simps(6))

lemma read_record_of: "codec_reads_back C \<Longrightarrow> read_record C (record_of C e) = [e]"
proof -
  assume C: "codec_reads_back C"
  obtain eb where eb: "ser_entry C e = Inr eb" "de_entry C eb = Inr e"
    using C unfolding codec_reads_back_def by blast
  obtain rb where rb: "ser_checked C (checksummed_new C eb) = Inr rb" "de_checked C rb = Inr (checksummed_new C eb)"
    using C unfolding codec_reads_back_def by blast
  show ?thesis
    using eb rb by (simp add: record_of_def entry_record_def read_record_def into_verified_data_def checksum_verify_def
        checksummed_new_def)
qed

lemma length_put_len [simp]: "length (put_len n) = 4"
  by (simp add: put_len_def)

lemma put_len_not_Nil [simp]: "put_len n \<noteq> []"
  using length_put_len [of n] by (metis list.size(3) zero_neq_numeral)

lemma get_put_len: "n < 2 ^ 32 \<Longrightarrow> get_len (put_len n) = n"
  by (simp add: get_len_def put_len_def unsigned_of_nat take_bit_eq_mod be_value_digits)

lemma replay_frame:
  assumes "codec_reads_back C" and "fits C e"
  shows "replay_buffer C (frame C e @ rest) = e # replay_buffer C rest"
proof -
  have t: "take 4 (frame C e @ rest) = put_len (length (record_of C e))"
      "drop 4 (frame C e @ rest) = record_of C e @ rest"
    by (simp_all add: frame_def)
  have "get_len (put_len (length (record_of C e))) = length (record_of C e)"
    using assms(2) by (intro get_put_len) (simp add: fits_def)
  then show ?thesis
    using assms(1) t by (subst replay_buffer.simps) (simp add: Let_def read_record_of frame_def)
qed

lemma replay_frames:
  assumes "codec_reads_back C" and "\<forall>e\<in>set es. fits C e"
  shows "replay_buffer C (frames C es @ rest) = es @ replay_buffer C rest"
  using assms(2) by (induction es) (simp_all add: frames_def replay_frame [OF assms(1)])

lemma replay_torn:
  assumes "fits C e" and "n < length (frame C e)"
  shows "replay_buffer C (take n (frame C e)) = []"
proof (cases "n < 4")
  case True
  then show ?thesis by (subst replay_buffer.simps) simp
next
  case False
  have "take 4 (take n (frame C e)) = put_len (length (record_of C e))"
    using False by (simp add: frame_def)
  moreover have "get_len (put_len (length (record_of C e))) = length (record_of C e)"
    using assms(1) by (intro get_put_len) (simp add: fits_def)
  moreover have "length (drop 4 (take n (frame C e))) < length (record_of C e)"
    using assms(2) False by (simp add: frame_def)
  ultimately show ?thesis by (subst replay_buffer.simps) (simp add: Let_def del: take_take length_drop)
qed
end
