(* ===== verification/Encrypted_Storage.thy ===== *)
theory Encrypted_Storage
  imports Wal_Journal
begin

text \<open>
  The encrypted file storage, \<^verbatim>\<open>crates/storage/src/encrypted_fs.rs\<close>, with the master key of \<^verbatim>\<open>master_key.rs\<close>.
  AES-256-GCM is a parameter; nonces, overwriting bytes and time stamps are arguments. A namespace is one name in the
  directory of namespaces and a key two files in it; the empty name, a dot and names with path
  separators are outside of this picture.
\<close>

record vault = disk +
  journals :: "(string \<times> wal) list"

record gcm =
  gcm_new :: "bytes \<Rightarrow> (string, unit) res"
  gcm_encrypt :: "bytes \<Rightarrow> bytes \<Rightarrow> bytes \<Rightarrow> (string, bytes) res"
  gcm_decrypt :: "bytes \<Rightarrow> bytes \<Rightarrow> bytes \<Rightarrow> (string, bytes) res"

section \<open>The master key\<close>

definition MASTER_KEY_SIZE :: nat where
  "MASTER_KEY_SIZE = 32"

definition master_key_from_bytes :: "bytes \<Rightarrow> (storage_error, bytes) res" where
  "master_key_from_bytes key =
     (if length key \<noteq> MASTER_KEY_SIZE
      then Inl (MasterKeyError (''Invalid key size: expected '' @ show_nat MASTER_KEY_SIZE @ '', got '' @ show_nat (length key)))
      else Inr key)"

definition master_encrypt :: "gcm \<Rightarrow> bytes \<Rightarrow> bytes \<Rightarrow> bytes \<Rightarrow> (storage_error, encrypted_data) res" where
  "master_encrypt G key nonce plain =
     bind_res (map_err (\<lambda>m. Encryption (''Failed to create cipher: '' @ m)) (gcm_new G key)) (\<lambda>_.
     bind_res (map_err (\<lambda>m. Encryption (''Encryption failed: '' @ m)) (gcm_encrypt G key nonce plain)) (\<lambda>ct.
     Inr \<lparr>ed_nonce = nonce, ed_ciphertext = ct\<rparr>))"

definition master_decrypt :: "gcm \<Rightarrow> bytes \<Rightarrow> encrypted_data \<Rightarrow> (storage_error, bytes) res" where
  "master_decrypt G key e =
     bind_res (map_err (\<lambda>m. Encryption (''Failed to create cipher: '' @ m)) (gcm_new G key)) (\<lambda>_.
     map_err (\<lambda>m. Encryption (''Decryption failed: '' @ m)) (gcm_decrypt G key (ed_nonce e) (ed_ciphertext e)))"

definition encrypt_with_kek :: "gcm \<Rightarrow> bytes \<Rightarrow> bytes \<Rightarrow> bytes \<Rightarrow> (storage_error, encrypted_data) res" where
  "encrypt_with_kek G kek nonce key =
     bind_res (map_err (\<lambda>m. Encryption (''Failed to create KEK cipher: '' @ m)) (gcm_new G kek)) (\<lambda>_.
     bind_res (map_err (\<lambda>m. Encryption (''KEK encryption failed: '' @ m)) (gcm_encrypt G kek nonce key)) (\<lambda>ct.
     Inr \<lparr>ed_nonce = nonce, ed_ciphertext = ct\<rparr>))"

definition decrypt_with_kek :: "gcm \<Rightarrow> encrypted_data \<Rightarrow> bytes \<Rightarrow> (storage_error, bytes) res" where
  "decrypt_with_kek G e kek =
     bind_res (map_err (\<lambda>m. Encryption (''Failed to create KEK cipher: '' @ m)) (gcm_new G kek)) (\<lambda>_.
     bind_res (map_err (\<lambda>m. Encryption (''KEK decryption failed: '' @ m)) (gcm_decrypt G kek (ed_nonce e) (ed_ciphertext e)))
       master_key_from_bytes)"

definition master_save :: "store_codec \<Rightarrow> gcm \<Rightarrow> bytes \<Rightarrow> bytes \<Rightarrow> bytes \<Rightarrow> vault \<Rightarrow> vault \<times> unit outcome" where
  "master_save C G kek nonce key =
     bind_io (create_dir_all Base_Dir) (\<lambda>_.
     bind_io (lift_res (encrypt_with_kek G kek nonce key)) (\<lambda>e.
     bind_io (lift_res (map_err (\<lambda>m. SerializationError (''Failed to serialize master key: '' @ m)) (ser_encrypted C e))) (\<lambda>bs.
     bind_io (create_restricted_file Master_File) (\<lambda>_.
     write_all Master_File bs))))"

definition master_load :: "store_codec \<Rightarrow> gcm \<Rightarrow> bytes \<Rightarrow> vault \<Rightarrow> vault \<times> bytes outcome" where
  "master_load C G kek =
     bind_io (read_file Master_File) (\<lambda>bs.
     bind_io (lift_res (map_err (\<lambda>m. SerializationError (''Failed to deserialize master key: '' @ m)) (de_encrypted C bs))) (\<lambda>e.
     lift_res (decrypt_with_kek G e kek)))"

section \<open>Paths\<close>

definition validate_path_component :: "string \<Rightarrow> string \<Rightarrow> (storage_error, unit) res" where
  "validate_path_component c label =
     (if CHR ''/'' \<in> set c \<or> CHR 0x5C \<in> set c \<or> sublist ''..'' c \<or> CHR 0x00 \<in> set c
      then Inl (OperationFailed (''Invalid '' @ label @ '': contains path traversal characters''))
      else Inr ())"

definition get_key_file_path :: "string \<Rightarrow> string \<Rightarrow> (storage_error, path) res" where
  "get_key_file_path ns k =
     bind_res (validate_path_component ns ''namespace'') (\<lambda>_.
     bind_res (validate_path_component k ''key ID'') (\<lambda>_. Inr (Key_File ns k)))"

definition get_meta_file_path :: "string \<Rightarrow> string \<Rightarrow> (storage_error, path) res" where
  "get_meta_file_path ns k =
     bind_res (validate_path_component ns ''namespace'') (\<lambda>_.
     bind_res (validate_path_component k ''key ID'') (\<lambda>_. Inr (Meta_File ns k)))"

section \<open>Files of keys\<close>

definition encrypt_key_data :: "store_codec \<Rightarrow> gcm \<Rightarrow> bytes \<Rightarrow> bytes \<Rightarrow> bytes \<Rightarrow> (storage_error, bytes) res" where
  "encrypt_key_data C G key nonce data =
     bind_res (master_encrypt G key nonce data) (\<lambda>e.
     map_err (\<lambda>m. SerializationError (''Failed to serialize encrypted data: '' @ m)) (ser_encrypted C e))"

definition write_encrypted_to_disk :: "store_codec \<Rightarrow> u64 \<Rightarrow> string \<Rightarrow> bytes \<Rightarrow> string \<Rightarrow> vault \<Rightarrow> vault \<times> unit outcome" where
  "write_encrypted_to_disk C now k enc ns =
     bind_io (lift_res (get_key_file_path ns k)) (\<lambda>kp.
     bind_io (create_restricted_file kp) (\<lambda>_.
     bind_io (write_all kp enc) (\<lambda>_.
     bind_io (sync_all kp) (\<lambda>_.
     bind_io (lift_res (get_meta_file_path ns k)) (\<lambda>mp.
     bind_io (lift_res (map_err (\<lambda>m. SerializationError (''Failed to serialize metadata: '' @ m))
       (ser_meta C (metadata_new C now enc)))) (\<lambda>mb.
     bind_io (create_restricted_file mp) (\<lambda>_.
     bind_io (write_all mp mb) (\<lambda>_.
     sync_all mp))))))))"

definition overwrite :: "(nat \<Rightarrow> bytes option) \<Rightarrow> path \<Rightarrow> nat \<Rightarrow> vault \<Rightarrow> vault \<times> unit outcome" where
  "overwrite rnd p sz =
     (case rnd sz of
        None \<Rightarrow> ret ()
      | Some bs \<Rightarrow> ignore (bind_io (create_restricted_file p) (\<lambda>_.
          bind_io (ignore (write_all p bs)) (\<lambda>_. ignore (sync_all p)))))"

definition secure_remove :: "(nat \<Rightarrow> bytes option) \<Rightarrow> path \<Rightarrow> vault \<Rightarrow> vault \<times> unit outcome" where
  "secure_remove rnd p = read_state (\<lambda>s.
     case file_at s p of
       None \<Rightarrow> ret ()
     | Some f \<Rightarrow>
         bind_io (ignore (bind_io (syscall id nothing) (\<lambda>_.
           if 0 < length (file_content f) then overwrite rnd p (length (file_content f)) else ret ()))) (\<lambda>_.
         remove_file p))"

definition delete_key_impl :: "(nat \<Rightarrow> bytes option) \<Rightarrow> string \<Rightarrow> string \<Rightarrow> vault \<Rightarrow> vault \<times> unit outcome" where
  "delete_key_impl rnd k ns =
     bind_io (lift_res (get_key_file_path ns k)) (\<lambda>kp.
     bind_io (lift_res (get_meta_file_path ns k)) (\<lambda>mp.
     bind_io (secure_remove rnd kp) (\<lambda>_. secure_remove rnd mp)))"

definition create_namespace_impl :: "string \<Rightarrow> vault \<Rightarrow> vault \<times> unit outcome" where
  "create_namespace_impl ns = read_state (\<lambda>s.
     if Ns_Dir ns \<in> set (dirs s) then ret ()
     else
       bind_io (create_dir_all (Ns_Dir ns)) (\<lambda>_.
       bind_io (create_dir_all (Keys_Dir ns)) (\<lambda>_.
       create_dir_all (Journal_Dir ns))))"

definition delete_namespace_impl :: "string \<Rightarrow> vault \<Rightarrow> vault \<times> unit outcome" where
  "delete_namespace_impl ns = read_state (\<lambda>s.
     if Ns_Dir ns \<in> set (dirs s) then remove_namespace_dir ns else ret ())"

section \<open>Recovery\<close>

definition apply_entry :: "store_codec \<Rightarrow> u64 \<Rightarrow> (nat \<Rightarrow> bytes option) \<Rightarrow> journal_entry \<Rightarrow> vault \<Rightarrow> vault \<times> unit outcome" where
  "apply_entry C now rnd e =
     (case je_operation e of
        StoreKey k ns data \<Rightarrow> write_encrypted_to_disk C now k data ns
      | DeleteKey k ns \<Rightarrow> delete_key_impl rnd k ns
      | CreateNamespace ns \<Rightarrow> create_namespace_impl ns
      | DeleteNamespace ns \<Rightarrow> delete_namespace_impl ns)"

definition recover_namespace :: "store_codec \<Rightarrow> u64 \<Rightarrow> (nat \<Rightarrow> bytes option) \<Rightarrow> string \<Rightarrow> vault \<Rightarrow> vault \<times> unit outcome" where
  "recover_namespace C now rnd ns = read_state (\<lambda>s.
     if file_at s (Journal_File ns) = None then ret ()
     else
       bind_io (wal_new C ns) (\<lambda>_.
       bind_io (replay C ns) (\<lambda>es.
       bind_io (each (apply_entry C now rnd) es) (\<lambda>_.
       bind_io (wal_new C ns) (\<lambda>w.
       bind_io (wal_truncate ns w) (\<lambda>_. ret ()))))))"

definition namespace_names :: "vault \<Rightarrow> string list" where
  "namespace_names s = concat (map (\<lambda>x. case x of Ns_Dir ns \<Rightarrow> [ns] | _ \<Rightarrow> []) (dirs s))"

definition recover :: "store_codec \<Rightarrow> u64 \<Rightarrow> (nat \<Rightarrow> bytes option) \<Rightarrow> vault \<Rightarrow> vault \<times> unit outcome" where
  "recover C now rnd = read_state (\<lambda>s.
     if Namespaces_Dir \<notin> set (dirs s) then ret ()
     else bind_io (syscall id nothing) (\<lambda>_. each (recover_namespace C now rnd) (namespace_names s)))"

definition storage_new :: "store_codec \<Rightarrow> u64 \<Rightarrow> (nat \<Rightarrow> bytes option) \<Rightarrow> vault \<Rightarrow> vault \<times> unit outcome" where
  "storage_new C now rnd =
     bind_io (create_dir_all Base_Dir) (\<lambda>_.
     bind_io (create_dir_all Namespaces_Dir) (\<lambda>_.
     bind_io (read_state (\<lambda>s t. (t\<lparr>journals := []\<rparr>, Done (Inr ())))) (\<lambda>_.
     recover C now rnd)))"

definition create_with_new_key :: "store_codec \<Rightarrow> gcm \<Rightarrow> u64 \<Rightarrow> (nat \<Rightarrow> bytes option) \<Rightarrow> bytes \<Rightarrow> bytes \<Rightarrow> bytes \<Rightarrow> vault \<Rightarrow>
  vault \<times> bytes outcome" where
  "create_with_new_key C G now rnd kek nonce key =
     bind_io (master_save C G kek nonce key) (\<lambda>_.
     bind_io (storage_new C now rnd) (\<lambda>_. ret key))"

definition open_storage :: "store_codec \<Rightarrow> gcm \<Rightarrow> u64 \<Rightarrow> (nat \<Rightarrow> bytes option) \<Rightarrow> bytes \<Rightarrow> vault \<Rightarrow> vault \<times> bytes outcome" where
  "open_storage C G now rnd kek =
     bind_io (master_load C G kek) (\<lambda>key.
     bind_io (storage_new C now rnd) (\<lambda>_. ret key))"

section \<open>The operations\<close>

definition put_journal :: "string \<Rightarrow> wal \<Rightarrow> vault \<Rightarrow> vault \<times> unit outcome" where
  "put_journal ns w s = (s\<lparr>journals := AList.update ns w (journals s)\<rparr>, Done (Inr ()))"

definition get_or_create_journal :: "store_codec \<Rightarrow> string \<Rightarrow> vault \<Rightarrow> vault \<times> wal outcome" where
  "get_or_create_journal C ns = read_state (\<lambda>s.
     case map_of (journals s) ns of
       Some w \<Rightarrow> ret w
     | None \<Rightarrow> bind_io (wal_new C ns) (\<lambda>w. bind_io (put_journal ns w) (\<lambda>_. ret w)))"

text \<open>Append and commit one operation, as every mutating operation does before it touches the files.\<close>

definition journal_operation :: "store_codec \<Rightarrow> u64 \<Rightarrow> string \<Rightarrow> journal_op \<Rightarrow> vault \<Rightarrow> vault \<times> unit outcome" where
  "journal_operation C now ns op =
     bind_io (get_or_create_journal C ns) (\<lambda>w. let w1 = wal_append now w op in
     bind_io (put_journal ns w1) (\<lambda>_.
     bind_io (wal_commit C ns w1) (\<lambda>w2. put_journal ns w2)))"

definition store_key :: "store_codec \<Rightarrow> gcm \<Rightarrow> bytes \<Rightarrow> u64 \<Rightarrow> bytes \<Rightarrow> string \<Rightarrow> bytes \<Rightarrow> string \<Rightarrow> vault \<Rightarrow> vault \<times> unit outcome" where
  "store_key C G key now nonce k data ns = read_state (\<lambda>s.
     if Ns_Dir ns \<notin> set (dirs s) then throw (NamespaceNotFound ns)
     else
       bind_io (lift_res (encrypt_key_data C G key nonce data)) (\<lambda>enc.
       bind_io (journal_operation C now ns (StoreKey k ns enc)) (\<lambda>_.
       write_encrypted_to_disk C now k enc ns)))"

definition load_key :: "store_codec \<Rightarrow> gcm \<Rightarrow> bytes \<Rightarrow> string \<Rightarrow> string \<Rightarrow> vault \<Rightarrow> vault \<times> bytes outcome" where
  "load_key C G key k ns = read_state (\<lambda>s.
     if Ns_Dir ns \<notin> set (dirs s) then throw (NamespaceNotFound ns)
     else
       bind_io (lift_res (get_key_file_path ns k)) (\<lambda>kp.
       bind_io (lift_res (get_meta_file_path ns k)) (\<lambda>mp.
       if file_at s kp = None then throw (KeyNotFound k)
       else
         bind_io (read_file kp) (\<lambda>enc.
         bind_io (if file_at s mp \<noteq> None
           then bind_io (read_file mp) (\<lambda>mb.
             bind_io (lift_res (map_err (\<lambda>m. SerializationError (''Failed to deserialize metadata: '' @ m)) (de_meta C mb)))
               (\<lambda>km. lift_res (metadata_verify C km enc)))
           else ret ()) (\<lambda>_.
         bind_io (lift_res (map_err (\<lambda>m. SerializationError (''Failed to deserialize encrypted data: '' @ m))
           (de_encrypted C enc))) (\<lambda>e. lift_res (master_decrypt G key e)))))))"

definition delete_key :: "store_codec \<Rightarrow> u64 \<Rightarrow> (nat \<Rightarrow> bytes option) \<Rightarrow> string \<Rightarrow> string \<Rightarrow> vault \<Rightarrow> vault \<times> unit outcome" where
  "delete_key C now rnd k ns = read_state (\<lambda>s.
     if Ns_Dir ns \<notin> set (dirs s) then throw (NamespaceNotFound ns)
     else
       bind_io (lift_res (get_key_file_path ns k)) (\<lambda>kp.
       if file_at s kp = None then throw (KeyNotFound k)
       else
         bind_io (journal_operation C now ns (DeleteKey k ns)) (\<lambda>_.
         delete_key_impl rnd k ns)))"

definition list_keys :: "string \<Rightarrow> vault \<Rightarrow> vault \<times> string list outcome" where
  "list_keys ns = read_state (\<lambda>s.
     if Keys_Dir ns \<notin> set (dirs s) then throw (NamespaceNotFound ns)
     else bind_io (syscall id nothing) (\<lambda>_.
       ret (concat (map (\<lambda>(p, _). case p of Key_File m k \<Rightarrow> if m = ns then [k] else [] | _ \<Rightarrow> []) (files s)))))"

definition key_exists :: "string \<Rightarrow> string \<Rightarrow> vault \<Rightarrow> vault \<times> bool outcome" where
  "key_exists k ns = read_state (\<lambda>s.
     bind_io (lift_res (get_key_file_path ns k)) (\<lambda>kp. ret (file_at s kp \<noteq> None)))"

definition sync_storage :: "store_codec \<Rightarrow> vault \<Rightarrow> vault \<times> unit outcome" where
  "sync_storage C = read_state (\<lambda>s.
     each (\<lambda>(ns, w). bind_io (wal_commit C ns w) (put_journal ns)) (journals s))"

definition storage_create_namespace :: "store_codec \<Rightarrow> string \<Rightarrow> vault \<Rightarrow> vault \<times> unit outcome" where
  "storage_create_namespace C ns = read_state (\<lambda>s.
     if Ns_Dir ns \<in> set (dirs s) then throw (OperationFailed (''Namespace already exists: '' @ ns))
     else
       bind_io (create_namespace_impl ns) (\<lambda>_.
       bind_io (wal_new C ns) (\<lambda>_. ret ())))"

definition storage_delete_namespace :: "string \<Rightarrow> vault \<Rightarrow> vault \<times> unit outcome" where
  "storage_delete_namespace ns = read_state (\<lambda>s.
     if Ns_Dir ns \<notin> set (dirs s) then throw (NamespaceNotFound ns)
     else
       bind_io (\<lambda>t. (t\<lparr>journals := AList.delete ns (journals t)\<rparr>, Done (Inr ()))) (\<lambda>_.
       delete_namespace_impl ns))"

definition storage_list_namespaces :: "vault \<Rightarrow> vault \<times> string list outcome" where
  "storage_list_namespaces = read_state (\<lambda>s.
     if Namespaces_Dir \<notin> set (dirs s) then ret []
     else bind_io (syscall id nothing) (\<lambda>_. ret (namespace_names s)))"
end
