(* ===== verification/Storage_Crashes.thy ===== *)
theory Storage_Crashes
  imports Encrypted_Storage
begin

text \<open>
  What the operations of the encrypted storage do to the disk when the machine may stop at any call: each
  changes only the files of its key and the journal of its namespace.
\<close>

section \<open>Frames\<close>

definition tidy :: "vault \<Rightarrow> bool" where
  "tidy s \<longleftrightarrow> (\<forall>p\<in>set (unsynced s). file_at s p \<noteq> None)"

text \<open>\<open>s\<close> agrees with \<open>s0\<close> but for the files \<open>ps\<close> and the script.\<close>

definition agree :: "path set \<Rightarrow> vault \<Rightarrow> vault \<Rightarrow> bool" where
  "agree ps s0 s \<longleftrightarrow> dirs s = dirs s0 \<and> journals s = journals s0 \<and> tidy s \<and>
     (\<forall>p. p \<notin> ps \<longrightarrow> file_at s p = file_at s0 p \<and> (p \<in> set (unsynced s) \<longleftrightarrow> p \<in> set (unsynced s0)))"

lemma agree_refl: "tidy s \<Longrightarrow> agree ps s s"
  by (simp add: agree_def)

lemma agree_trans: "agree ps s0 s1 \<Longrightarrow> agree qs s1 s2 \<Longrightarrow> agree (ps \<union> qs) s0 s2"
  by (auto simp: agree_def)

lemma agree_mono: "agree ps s0 s \<Longrightarrow> ps \<subseteq> qs \<Longrightarrow> agree qs s0 s"
  by (auto simp: agree_def)

lemma journals_simps [simp]:
  "journals (put_file p f d) = journals d" "journals (drop_file p d) = journals d"
  "journals (mark_synced p d) = journals d" "journals (extend_file p bs d) = journals d"
  "journals (make_dirs xs d) = journals d"
  by (auto simp: put_file_def drop_file_def mark_synced_def extend_file_def make_dirs_def split: option.split)

lemma tidy_script [simp]: "tidy (s\<lparr>script := es\<rparr>) = tidy s"
  by (simp add: tidy_def)

lemma agree_script [simp]: "agree ps s0 (s\<lparr>script := es\<rparr>) = agree ps s0 s"
  by (simp add: agree_def)

lemma tidy_calls:
  "tidy s \<Longrightarrow> tidy (put_file p f s)" "tidy s \<Longrightarrow> tidy (drop_file p s)" "tidy s \<Longrightarrow> tidy (mark_synced p s)"
  "tidy s \<Longrightarrow> tidy (extend_file p bs s)"
  by (auto simp: tidy_def split: if_splits)

lemma agree_calls:
  assumes "agree ps s0 s" and "p \<in> ps"
  shows "agree ps s0 (put_file p f s)" "agree ps s0 (drop_file p s)" "agree ps s0 (mark_synced p s)"
    "agree ps s0 (extend_file p bs s)"
  using assms by (auto simp: agree_def tidy_calls)

lemma safe_from: "(\<And>s1. I s1 \<Longrightarrow> safe (\<lambda>s. s = s1) m Q C) \<Longrightarrow> safe I m Q C"
  by (auto simp: safe_def)

lemma safe_at: "safe I m Q C \<Longrightarrow> I s \<Longrightarrow> safe (\<lambda>t. t = s) m Q C"
  by (simp add: safe_def)

text \<open>Assertions about one file over a frame.\<close>

lemma safe_create:
  assumes "any_script I" and "\<And>s. I s \<Longrightarrow> agree ps s0 s \<and> parent p \<in> set (dirs s)" and "p \<in> ps"
    and "\<And>s. I s \<Longrightarrow> Q () (put_file p \<lparr>file_content = [], stable = 0\<rparr> s)"
  shows "safe I (create_restricted_file p) Q (agree ps s0)"
  unfolding create_restricted_file_def
proof (rule safe_read_state)
  fix s assume s: "I s"
  have "safe I (syscall (put_file p \<lparr>file_content = [], stable = 0\<rparr>) nothing) Q (agree ps s0)"
    using assms by (intro safe_syscall) (auto simp: nothing_def)
  then have "safe (\<lambda>t. t = s) (syscall (put_file p \<lparr>file_content = [], stable = 0\<rparr>) nothing) Q (agree ps s0)"
    using s by (rule safe_at)
  then show "safe (\<lambda>t. t = s) (if parent p \<notin> set (dirs s) then no_parent
      else syscall (put_file p \<lparr>file_content = [], stable = 0\<rparr>) nothing) Q (agree ps s0)"
    using assms(2) [OF s] by simp
qed

definition file_is :: "vault \<Rightarrow> path \<Rightarrow> bytes \<Rightarrow> bool" where
  "file_is s p bs \<longleftrightarrow> (\<exists>f. file_at s p = Some f \<and> file_content f = bs)"

lemma file_is_script [simp]: "file_is (s\<lparr>script := es\<rparr>) p bs = file_is s p bs"
  by (simp add: file_is_def)

lemma any_script_conj [intro]: "any_script I \<Longrightarrow> any_script J \<Longrightarrow> any_script (\<lambda>s. I s \<and> J s)"
  by (simp add: any_script_def)

lemma any_script_basic [intro, simp]:
  "any_script (agree ps s0)" "any_script (\<lambda>s. file_is s p bs)" "any_script (\<lambda>s. P (dirs s))" "any_script (\<lambda>s. b)"
  "any_script (\<lambda>s. R (file_at s p))" "any_script (\<lambda>s. X (unsynced s))"
  by (simp_all add: any_script_def)

lemma safe_write:
  assumes "p \<in> ps"
  shows "safe (\<lambda>s. agree ps s0 s \<and> file_is s p bs) (write_all p cs)
    (\<lambda>_ s. agree ps s0 s \<and> file_is s p (bs @ cs)) (agree ps s0)"
  unfolding write_all_def using assms by (intro safe_syscall) (auto simp: agree_calls file_is_def)

lemma safe_sync:
  assumes "p \<in> ps"
  shows "safe (\<lambda>s. agree ps s0 s \<and> file_is s p bs) (sync_all p)
    (\<lambda>_ s. agree ps s0 s \<and> file_is s p bs \<and> p \<notin> set (unsynced s)) (agree ps s0)"
  unfolding sync_all_def using assms
  by (intro safe_syscall) (auto simp: agree_calls file_is_def nothing_def)

lemma bind_ret [simp]: "bind_io (ret x) f = f x"
  by (simp add: bind_io_def ret_def)

lemma lift_res_Inr [simp]: "lift_res (Inr x) = ret x"
  by (simp add: lift_res_def ret_def)

section \<open>The files of a key\<close>

definition key_files :: "string \<Rightarrow> string \<Rightarrow> path set" where
  "key_files ns k = {Key_File ns k, Meta_File ns k}"

definition meta_ok :: "store_codec \<Rightarrow> bytes \<Rightarrow> bytes \<Rightarrow> bool" where
  "meta_ok C mb enc \<longleftrightarrow> (\<exists>km. de_meta C mb = Inr km \<and> metadata_verify C km enc = Inr ())"

text \<open>The two files of a key hold an encrypted value, or there is none.\<close>

definition holds :: "store_codec \<Rightarrow> vault \<Rightarrow> string \<Rightarrow> string \<Rightarrow> bytes option \<Rightarrow> bool" where
  "holds C s ns k v \<longleftrightarrow> key_files ns k \<inter> set (unsynced s) = {} \<and>
     (case v of
        None \<Rightarrow> file_at s (Key_File ns k) = None \<and> file_at s (Meta_File ns k) = None
      | Some enc \<Rightarrow> file_is s (Key_File ns k) enc \<and> (\<exists>mb. file_is s (Meta_File ns k) mb \<and> meta_ok C mb enc))"

definition names_ok :: "string \<Rightarrow> string \<Rightarrow> bool" where
  "names_ok ns k \<longleftrightarrow> get_key_file_path ns k = Inr (Key_File ns k)"

lemma names_ok_meta: "names_ok ns k \<Longrightarrow> get_meta_file_path ns k = Inr (Meta_File ns k)"
  by (auto simp: names_ok_def get_key_file_path_def get_meta_file_path_def elim!: bind_res_InrE)

lemma meta_ok_new: "codec_reads_back C \<Longrightarrow> ser_meta C (metadata_new C now enc) = Inr mb \<Longrightarrow> meta_ok C mb enc"
  unfolding codec_reads_back_def meta_ok_def
  by (metis metadata_new_def metadata_verify_def checksum_verify_def key_metadata.select_convs(1,3) sum.inject(2))

lemma bind_assoc: "bind_io (bind_io m f) g = bind_io m (\<lambda>x. bind_io (f x) g)"
  by (rule ext) (simp add: bind_io_def split: prod.split outcome.split sum.split)

definition replace_file :: "path \<Rightarrow> bytes \<Rightarrow> vault \<Rightarrow> vault \<times> unit outcome" where
  "replace_file p bs = bind_io (create_restricted_file p) (\<lambda>_. bind_io (write_all p bs) (\<lambda>_. sync_all p))"

lemma replace_file_safe:
  assumes "parent p \<in> set (dirs s0)"
  shows "safe (agree {p} s0) (replace_file p bs)
    (\<lambda>_ s. agree {p} s0 s \<and> file_is s p bs \<and> p \<notin> set (unsynced s)) (agree {p} s0)"
  unfolding replace_file_def
proof (rule safe_bind)
  show "safe (agree {p} s0) (create_restricted_file p) (\<lambda>_ s. agree {p} s0 s \<and> file_is s p []) (agree {p} s0)"
    using assms by (intro safe_create) (auto simp: agree_calls file_is_def, simp add: agree_def)
  show "safe (\<lambda>s. agree {p} s0 s \<and> file_is s p []) (bind_io (write_all p bs) (\<lambda>_. sync_all p))
    (\<lambda>_ s. agree {p} s0 s \<and> file_is s p bs \<and> p \<notin> set (unsynced s)) (agree {p} s0)"
    using safe_write [of p "{p}" s0 "[]" bs] safe_sync [of p "{p}" s0 bs] by (auto intro: safe_bind)
qed

lemma agree_in: "agree ps s0 s1 \<Longrightarrow> agree {p} s1 s \<Longrightarrow> p \<in> ps \<Longrightarrow> agree ps s0 s"
  by (drule (1) agree_trans) (simp add: insert_absorb)

lemma write_encrypted_eq:
  assumes "names_ok ns k" and "ser_meta C (metadata_new C now enc) = Inr mb"
  shows "write_encrypted_to_disk C now k enc ns =
    bind_io (replace_file (Key_File ns k) enc) (\<lambda>_. replace_file (Meta_File ns k) mb)"
  using assms by (simp add: write_encrypted_to_disk_def replace_file_def bind_assoc names_ok_meta names_ok_def)

text \<open>A program over one file, run inside the frame of the two files of a key.\<close>

lemma safe_in_frame:
  assumes "\<And>s1. dirs s1 = dirs s0 \<Longrightarrow> safe (agree {p} s1) m (\<lambda>x s. agree {p} s1 s \<and> Q x s) (agree {p} s1)"
    and "p \<in> ps" and "\<And>s1 s x. R s1 \<Longrightarrow> agree {p} s1 s \<Longrightarrow> Q x s \<Longrightarrow> Q' x s"
  shows "safe (\<lambda>s. agree ps s0 s \<and> R s) m (\<lambda>x s. agree ps s0 s \<and> Q' x s) (agree ps s0)"
proof (rule safe_from)
  fix s1 assume s1: "agree ps s0 s1 \<and> R s1"
  then have "safe (\<lambda>s. s = s1) m (\<lambda>x s. agree {p} s1 s \<and> Q x s) (agree {p} s1)"
    by (intro safe_at [OF assms(1)] agree_refl) (simp_all add: agree_def)
  then show "safe (\<lambda>s. s = s1) m (\<lambda>x s. agree ps s0 s \<and> Q' x s) (agree ps s0)"
    by (rule safe_conseq) (use s1 assms(2,3) agree_in in auto)
qed

lemma write_encrypted_safe:
  assumes C: "codec_reads_back C" and names: "names_ok ns k" and keys: "Keys_Dir ns \<in> set (dirs s0)"
  shows "safe (agree (key_files ns k) s0) (write_encrypted_to_disk C now k enc ns)
    (\<lambda>_ s. agree (key_files ns k) s0 s \<and> holds C s ns k (Some enc)) (agree (key_files ns k) s0)"
proof -
  let ?ps = "key_files ns k" and ?kp = "Key_File ns k" and ?mp = "Meta_File ns k"
  let ?kept = "\<lambda>p bs s. file_is s p bs \<and> p \<notin> set (unsynced s)"
  obtain mb where mb: "ser_meta C (metadata_new C now enc) = Inr mb"
    using C unfolding codec_reads_back_def by blast
  have in_ps: "?kp \<in> ?ps" "?mp \<in> ?ps" by (simp_all add: key_files_def)
  have one: "safe (agree {p} s1) (replace_file p bs) (\<lambda>_ s. agree {p} s1 s \<and> ?kept p bs s) (agree {p} s1)"
    if "dirs s1 = dirs s0" "parent p = Keys_Dir ns" for p s1 bs
    using replace_file_safe [of p s1] that keys by simp
  have k: "safe (\<lambda>s. agree ?ps s0 s \<and> True) (replace_file ?kp enc) (\<lambda>_ s. agree ?ps s0 s \<and> ?kept ?kp enc s) (agree ?ps s0)"
    by (rule safe_in_frame [OF one in_ps(1)]) simp_all
  have m: "safe (\<lambda>s. agree ?ps s0 s \<and> ?kept ?kp enc s) (replace_file ?mp mb)
      (\<lambda>_ s. agree ?ps s0 s \<and> holds C s ns k (Some enc)) (agree ?ps s0)"
    using meta_ok_new [OF C mb]
    by (intro safe_in_frame [OF one in_ps(2)]) (auto simp: agree_def holds_def key_files_def file_is_def)
  from safe_bind [OF k m] show ?thesis by (simp add: write_encrypted_eq [OF names mb])
qed

lemma safe_ignore: "safe I m (\<lambda>_. R) C \<Longrightarrow> safe I (ignore m) (\<lambda>_. R) C"
  unfolding safe_def
proof (intro allI impI)
  fix s assume "\<forall>s. calm s \<longrightarrow> I s \<longrightarrow> ends (\<lambda>_. R) C (m s)" "calm s" "I s"
  then have e: "ends (\<lambda>_. R) C (m s)" by blast
  obtain s' r where "m s = (s', r)" by fastforce
  with e show "ends (\<lambda>_. R) C (ignore m s)"
    by (cases r; cases "case r of Done z \<Rightarrow> z | Stopped \<Rightarrow> undefined") (auto simp: ignore_def)
qed

lemma overwrite_safe:
  assumes "parent p \<in> set (dirs s0)"
  shows "safe (agree {p} s0) (overwrite rnd p sz) (\<lambda>_. agree {p} s0) (agree {p} s0)"
proof (cases "rnd sz")
  case None
  then show ?thesis by (simp add: overwrite_def safe_ret)
next
  case (Some bs)
  have c: "safe (agree {p} s0) (create_restricted_file p) (\<lambda>_. agree {p} s0) (agree {p} s0)"
    using assms by (intro safe_create) (auto simp: agree_calls, simp add: agree_def)
  have w: "safe (agree {p} s0) (write_all p bs) (\<lambda>_. agree {p} s0) (agree {p} s0)"
    unfolding write_all_def by (intro safe_syscall) (auto simp: agree_calls)
  have y: "safe (agree {p} s0) (sync_all p) (\<lambda>_. agree {p} s0) (agree {p} s0)"
    unfolding sync_all_def by (intro safe_syscall) (auto simp: agree_calls nothing_def)
  show ?thesis
    using Some by (simp add: overwrite_def) (intro safe_ignore safe_bind [OF c] safe_bind [OF safe_ignore [OF w]] y)
qed

lemma secure_remove_safe:
  assumes "parent p \<in> set (dirs s0)"
  shows "safe (agree {p} s0) (secure_remove rnd p)
    (\<lambda>_ s. agree {p} s0 s \<and> file_at s p = None \<and> p \<notin> set (unsynced s)) (agree {p} s0)"
  unfolding secure_remove_def
proof (rule safe_read_state)
  fix s assume s: "agree {p} s0 s"
  have look: "safe (agree {p} s0) (syscall id nothing) (\<lambda>_. agree {p} s0) (agree {p} s0)"
    by (intro safe_syscall) (simp_all add: nothing_def)
  have rm: "safe (agree {p} s0) (remove_file p)
      (\<lambda>_ s. agree {p} s0 s \<and> file_at s p = None \<and> p \<notin> set (unsynced s)) (agree {p} s0)"
    unfolding remove_file_def by (intro safe_syscall) (auto simp: agree_calls nothing_def)
  show "safe (\<lambda>t. t = s) (case file_at s p of None \<Rightarrow> ret ()
      | Some f \<Rightarrow> bind_io (ignore (bind_io (syscall id nothing) (\<lambda>_.
          if 0 < length (file_content f) then overwrite rnd p (length (file_content f)) else ret ())))
          (\<lambda>_. remove_file p))
      (\<lambda>_ s. agree {p} s0 s \<and> file_at s p = None \<and> p \<notin> set (unsynced s)) (agree {p} s0)"
  proof (cases "file_at s p")
    case None
    then have "p \<notin> set (unsynced s)" using s by (auto simp: agree_def tidy_def)
    with None s show ?thesis by (auto intro!: safe_ret)
  next
    case (Some f)
    have ow: "safe (agree {p} s0) (if 0 < length (file_content f) then overwrite rnd p (length (file_content f)) else ret ())
        (\<lambda>_. agree {p} s0) (agree {p} s0)"
      using overwrite_safe [OF assms] by (auto intro: safe_ret)
    have "safe (agree {p} s0) (bind_io (ignore (bind_io (syscall id nothing) (\<lambda>_.
          if 0 < length (file_content f) then overwrite rnd p (length (file_content f)) else ret ())))
          (\<lambda>_. remove_file p))
        (\<lambda>_ s. agree {p} s0 s \<and> file_at s p = None \<and> p \<notin> set (unsynced s)) (agree {p} s0)"
      by (rule safe_bind [OF safe_ignore [OF safe_bind [OF look ow]] rm])
    with Some s show ?thesis by (simp add: safe_at)
  qed
qed

lemma delete_key_impl_safe:
  assumes names: "names_ok ns k" and keys: "Keys_Dir ns \<in> set (dirs s0)"
  shows "safe (agree (key_files ns k) s0) (delete_key_impl rnd k ns)
    (\<lambda>_ s. agree (key_files ns k) s0 s \<and> holds C s ns k None) (agree (key_files ns k) s0)"
proof -
  let ?ps = "key_files ns k" and ?kp = "Key_File ns k" and ?mp = "Meta_File ns k"
  let ?gone = "\<lambda>p s. file_at s p = None \<and> p \<notin> set (unsynced s)"
  have eq: "delete_key_impl rnd k ns = bind_io (secure_remove rnd ?kp) (\<lambda>_. secure_remove rnd ?mp)"
    using names by (simp add: delete_key_impl_def names_ok_meta) (simp add: names_ok_def)
  have in_ps: "?kp \<in> ?ps" "?mp \<in> ?ps" by (simp_all add: key_files_def)
  have one: "safe (agree {p} s1) (secure_remove rnd p) (\<lambda>_ s. agree {p} s1 s \<and> ?gone p s) (agree {p} s1)"
    if "dirs s1 = dirs s0" "parent p = Keys_Dir ns" for p s1
    using secure_remove_safe [of p s1] that keys by simp
  have k: "safe (\<lambda>s. agree ?ps s0 s \<and> True) (secure_remove rnd ?kp) (\<lambda>_ s. agree ?ps s0 s \<and> ?gone ?kp s) (agree ?ps s0)"
    by (rule safe_in_frame [OF one in_ps(1)]) simp_all
  have m: "safe (\<lambda>s. agree ?ps s0 s \<and> ?gone ?kp s) (secure_remove rnd ?mp)
      (\<lambda>_ s. agree ?ps s0 s \<and> holds C s ns k None) (agree ?ps s0)"
    by (rule safe_in_frame [OF one in_ps(2)]) (auto simp: agree_def holds_def key_files_def)
  from safe_bind [OF k m] show ?thesis by (simp add: eq)
qed

section \<open>The journal\<close>

definition ready :: "vault \<Rightarrow> string \<Rightarrow> bool" where
  "ready s ns \<longleftrightarrow> {Base_Dir, Namespaces_Dir, Ns_Dir ns, Keys_Dir ns, Journal_Dir ns} \<subseteq> set (dirs s)"

definition journal_entries :: "store_codec \<Rightarrow> vault \<Rightarrow> string \<Rightarrow> journal_entry list" where
  "journal_entries C s ns = (case file_at s (Journal_File ns) of None \<Rightarrow> [] | Some f \<Rightarrow> replay_buffer C (file_content f))"

lemma make_dirs_same: "set xs \<subseteq> set (dirs d) \<Longrightarrow> make_dirs xs d = d"
proof -
  assume "set xs \<subseteq> set (dirs d)"
  then have "filter (\<lambda>x. x \<notin> set (dirs d)) (remdups xs) = []" by (auto simp: filter_empty_conv)
  then show ?thesis by (simp add: make_dirs_def)
qed

lemma create_dir_safe:
  assumes "set (dirs_above x) \<subseteq> set (dirs s0)"
  shows "safe (agree {} s0) (create_dir_all x) (\<lambda>_. agree {} s0) (agree {} s0)"
proof -
  have same: "make_dirs (take n (dirs_above x)) s = s" "make_dirs (dirs_above x) s = s" if "agree {} s0 s" for n s
    using assms that set_take_subset [of n "dirs_above x"] by (auto simp: agree_def intro!: make_dirs_same)
  show ?thesis
    unfolding create_dir_all_def by (intro safe_syscall) (simp_all add: same)
qed

lemma read_file_safe:
  assumes "file_at s0 p = Some f"
  shows "safe (agree {} s0) (read_file p) (\<lambda>bs s. agree {} s0 s \<and> bs = file_content f) (agree {} s0)"
  unfolding read_file_def
proof (rule safe_read_state)
  fix s assume s: "agree {} s0 s"
  have look: "safe (agree {} s0) (syscall id nothing) (\<lambda>_. agree {} s0) (agree {} s0)"
    by (intro safe_syscall) (simp_all add: nothing_def)
  have "safe (agree {} s0) (bind_io (syscall id nothing) (\<lambda>_. ret (file_content f)))
      (\<lambda>bs s. agree {} s0 s \<and> bs = file_content f) (agree {} s0)"
    by (intro safe_bind [OF look] safe_ret) simp
  with s assms show "safe (\<lambda>t. t = s) (case file_at s p of None \<Rightarrow> no_parent
      | Some f \<Rightarrow> bind_io (syscall id nothing) (\<lambda>_. ret (file_content f)))
      (\<lambda>bs s. agree {} s0 s \<and> bs = file_content f) (agree {} s0)"
    by (auto simp: agree_def intro: safe_at)
qed

lemma replay_safe:
  "safe (agree {} s0) (replay C ns) (\<lambda>es s. agree {} s0 s \<and> es = journal_entries C s0 ns) (agree {} s0)"
  unfolding replay_def
proof (rule safe_read_state)
  fix s assume s: "agree {} s0 s"
  then have same: "file_at s (Journal_File ns) = file_at s0 (Journal_File ns)" by (simp add: agree_def)
  show "safe (\<lambda>t. t = s) (if file_at s (Journal_File ns) = None then ret []
      else bind_io (read_file (Journal_File ns)) (\<lambda>buf. ret (replay_buffer C buf)))
      (\<lambda>es s. agree {} s0 s \<and> es = journal_entries C s0 ns) (agree {} s0)"
  proof (cases "file_at s0 (Journal_File ns)")
    case None
    then show ?thesis using s same by (auto simp: journal_entries_def intro!: safe_ret)
  next
    case (Some f)
    have "safe (agree {} s0) (bind_io (read_file (Journal_File ns)) (\<lambda>buf. ret (replay_buffer C buf)))
        (\<lambda>es s. agree {} s0 s \<and> es = journal_entries C s0 ns) (agree {} s0)"
      using Some by (intro safe_bind [OF read_file_safe [OF Some]] safe_ret) (simp add: journal_entries_def)
    with s same Some show ?thesis by (simp add: safe_at)
  qed
qed

lemma wal_new_safe:
  assumes "ready s0 ns"
  shows "safe (agree {} s0) (wal_new C ns) (\<lambda>w s. agree {} s0 s \<and> wal_pending w = []) (agree {} s0)"
proof -
  have d: "safe (agree {} s0) (create_dir_all (Journal_Dir ns)) (\<lambda>_. agree {} s0) (agree {} s0)"
    using assms by (intro create_dir_safe) (simp add: ready_def)
  have l: "safe (agree {} s0) (read_last_sequence C ns) (\<lambda>_. agree {} s0) (agree {} s0)"
    unfolding read_last_sequence_def by (intro safe_bind [OF replay_safe] safe_ret) simp
  have r: "safe (agree {} s0) (read_state (\<lambda>d. if file_at d (Journal_File ns) \<noteq> None then read_last_sequence C ns else ret 0))
      (\<lambda>_. agree {} s0) (agree {} s0)"
    by (intro safe_read_state safe_if safe_at [OF l] safe_ret) auto
  show ?thesis
    unfolding wal_new_def by (intro safe_bind [OF d] safe_bind [OF r] safe_ret) simp
qed

text \<open>The journal holds \<open>B\<close> durably; on top of it a part of the bytes \<open>fr\<close> may have been written.\<close>

definition journal_at :: "vault \<Rightarrow> string \<Rightarrow> bytes \<Rightarrow> bool" where
  "journal_at s ns B \<longleftrightarrow> (case file_at s (Journal_File ns) of None \<Rightarrow> B = []
     | Some f \<Rightarrow> file_content f = B \<and> stable f = length B)"

definition journal_torn :: "vault \<Rightarrow> string \<Rightarrow> bytes \<Rightarrow> bytes \<Rightarrow> bool" where
  "journal_torn s ns B fr \<longleftrightarrow> (case file_at s (Journal_File ns) of None \<Rightarrow> B = []
     | Some f \<Rightarrow> (\<exists>n. file_content f = B @ take n fr) \<and> length B \<le> stable f)"

definition journal_has :: "vault \<Rightarrow> string \<Rightarrow> nat \<Rightarrow> bytes \<Rightarrow> bool" where
  "journal_has s ns b bs \<longleftrightarrow> (\<exists>f. file_at s (Journal_File ns) = Some f \<and> file_content f = bs \<and> b \<le> stable f)"

lemma journal_script [simp]:
  "journal_at (s\<lparr>script := es\<rparr>) ns B = journal_at s ns B"
  "journal_torn (s\<lparr>script := es\<rparr>) ns B fr = journal_torn s ns B fr"
  "journal_has (s\<lparr>script := es\<rparr>) ns b bs = journal_has s ns b bs"
  by (simp_all add: journal_at_def journal_torn_def journal_has_def)

lemma any_script_journal [intro, simp]:
  "any_script (\<lambda>s. journal_at s ns B)" "any_script (\<lambda>s. journal_has s ns b bs)"
  by (simp_all add: any_script_def)

lemma open_append_safe:
  assumes "Journal_Dir ns \<in> set (dirs s0)"
  shows "safe (\<lambda>s. agree {} s0 s \<and> journal_at s ns B) (open_append (Journal_File ns))
    (\<lambda>_ s. agree {Journal_File ns} s0 s \<and> journal_has s ns (length B) B)
    (\<lambda>s. agree {Journal_File ns} s0 s \<and> journal_torn s ns B fr)"
proof -
  let ?open = "\<lambda>d. if file_at d (Journal_File ns) = None then put_file (Journal_File ns) \<lparr>file_content = [], stable = 0\<rparr> d else d"
  let ?Q = "\<lambda>_ s. agree {Journal_File ns} s0 s \<and> journal_has s ns (length B) B"
  let ?C = "\<lambda>s. agree {Journal_File ns} s0 s \<and> journal_torn s ns B fr"
  have *: "safe (\<lambda>s. agree {} s0 s \<and> journal_at s ns B) (syscall ?open nothing) ?Q ?C"
  proof (rule safe_syscall)
    fix s assume s: "agree {} s0 s \<and> journal_at s ns B"
    then have a: "agree {Journal_File ns} s0 s" by (auto intro: agree_mono)
    with s show "?Q () (?open s)"
      by (cases "file_at s (Journal_File ns)") (auto simp: agree_calls journal_at_def journal_has_def)
    fix n show "?C (nothing n s)"
      using a s by (cases "file_at s (Journal_File ns)")
        (auto simp: nothing_def journal_at_def journal_torn_def intro: exI [of _ 0])
  qed auto
  show ?thesis
    unfolding open_append_def
    by (intro safe_read_state) (use assms safe_at [OF *] in \<open>auto simp: agree_def\<close>)
qed

lemma journal_write_safe:
  assumes "fr = x @ bs @ y"
  shows "safe (\<lambda>s. agree {Journal_File ns} s0 s \<and> journal_has s ns (length B) (B @ x)) (write_all (Journal_File ns) bs)
    (\<lambda>_ s. agree {Journal_File ns} s0 s \<and> journal_has s ns (length B) (B @ x @ bs))
    (\<lambda>s. agree {Journal_File ns} s0 s \<and> journal_torn s ns B fr)"
  unfolding write_all_def
proof (rule safe_syscall)
  fix s assume s: "agree {Journal_File ns} s0 s \<and> journal_has s ns (length B) (B @ x)"
  then show "agree {Journal_File ns} s0 (extend_file (Journal_File ns) bs s) \<and>
      journal_has (extend_file (Journal_File ns) bs s) ns (length B) (B @ x @ bs)"
    by (auto simp: agree_calls journal_has_def)
  fix n
  have "\<exists>m. x @ take n bs = take m fr"
    by (rule exI [of _ "length x + min n (length bs)"]) (simp add: assms min_def)
  with s show "agree {Journal_File ns} s0 (extend_file (Journal_File ns) (take n bs) s) \<and>
      journal_torn (extend_file (Journal_File ns) (take n bs) s) ns B fr"
    by (auto simp: agree_calls journal_has_def journal_torn_def)
qed auto

lemma journal_complete_torn:
  assumes "journal_has s ns (length B) (B @ fr)"
  shows "journal_torn s ns B fr"
  using assms by (auto simp: journal_has_def journal_torn_def intro!: exI [of _ "length fr"])

lemma wal_commit_safe:
  assumes C: "codec_reads_back C" and w: "wal_pending w = [e]" and dir: "Journal_Dir ns \<in> set (dirs s0)"
  shows "safe (\<lambda>s. agree {} s0 s \<and> journal_at s ns B) (wal_commit C ns w)
    (\<lambda>w' s. agree {Journal_File ns} s0 s \<and> wal_pending w' = [] \<and> journal_at s ns (B @ frame C e))
    (\<lambda>s. agree {Journal_File ns} s0 s \<and> journal_torn s ns B (frame C e))"
proof -
  let ?jp = "Journal_File ns" and ?fr = "frame C e"
  let ?A = "agree {Journal_File ns} s0"
  let ?C = "\<lambda>s. ?A s \<and> journal_torn s ns B ?fr"
  have entry: "safe (\<lambda>s. ?A s \<and> journal_has s ns (length B) B) (write_entry C ns e)
      (\<lambda>_ s. ?A s \<and> journal_has s ns (length B) (B @ ?fr)) ?C"
    unfolding write_entry_def entry_record_total [OF C]
    using journal_write_safe [of ?fr "[]" "put_len (length (record_of C e))" "record_of C e" ns s0 B]
      journal_write_safe [of ?fr "put_len (length (record_of C e))" "record_of C e" "[]" ns s0 B]
    by (auto simp: frame_def intro: safe_bind)
  have sync: "safe (\<lambda>s. ?A s \<and> journal_has s ns (length B) (B @ ?fr)) (sync_all ?jp)
      (\<lambda>_ s. ?A s \<and> journal_has s ns (length B) (B @ ?fr) \<and> journal_at s ns (B @ ?fr)) ?C"
    unfolding sync_all_def
    by (intro safe_syscall)
      (auto simp: agree_calls nothing_def journal_complete_torn, auto simp: journal_has_def journal_at_def)
  have chmod: "safe (\<lambda>s. ?A s \<and> journal_has s ns (length B) (B @ ?fr) \<and> journal_at s ns (B @ ?fr)) (set_permissions ?jp)
      (\<lambda>_ s. ?A s \<and> journal_at s ns (B @ ?fr)) ?C"
    unfolding set_permissions_def
    by (intro safe_syscall) (auto simp: nothing_def journal_complete_torn any_script_def)
  have each: "safe (\<lambda>s. ?A s \<and> journal_has s ns (length B) B) (each (write_entry C ns) [e])
      (\<lambda>_ s. ?A s \<and> journal_has s ns (length B) (B @ ?fr)) ?C"
    by (simp, rule safe_bind [OF entry safe_ret]) simp
  have "safe (\<lambda>s. agree {} s0 s \<and> journal_at s ns B)
      (bind_io (open_append ?jp) (\<lambda>_. bind_io (each (write_entry C ns) [e]) (\<lambda>_.
       bind_io (sync_all ?jp) (\<lambda>_. bind_io (set_permissions ?jp) (\<lambda>_. ret (w\<lparr>wal_pending := []\<rparr>))))))
      (\<lambda>w' s. ?A s \<and> wal_pending w' = [] \<and> journal_at s ns (B @ ?fr)) ?C"
    by (intro safe_bind [OF open_append_safe [OF dir]] safe_bind [OF each] safe_bind [OF sync] safe_bind [OF chmod] safe_ret)
      simp
  then show ?thesis by (simp add: wal_commit_def w)
qed

text \<open>The same disk, whatever journals are open.\<close>

definition same_disk :: "path set \<Rightarrow> vault \<Rightarrow> vault \<Rightarrow> bool" where
  "same_disk ps s0 s \<longleftrightarrow> agree ps (s0\<lparr>journals := journals s\<rparr>) s"

definition idle :: "vault \<Rightarrow> bool" where
  "idle s \<longleftrightarrow> (\<forall>ns w. map_of (journals s) ns = Some w \<longrightarrow> wal_pending w = [])"

lemma file_at_journals [simp]: "file_at (s\<lparr>journals := js\<rparr>) p = file_at s p"
  by (simp add: file_at_def)

lemma same_disk_simps:
  "same_disk ps s0 s \<longleftrightarrow> dirs s = dirs s0 \<and> tidy s \<and>
     (\<forall>p. p \<notin> ps \<longrightarrow> file_at s p = file_at s0 p \<and> (p \<in> set (unsynced s) \<longleftrightarrow> p \<in> set (unsynced s0)))"
  by (simp add: same_disk_def agree_def)

lemma agree_same_disk: "agree ps s0 s \<Longrightarrow> same_disk ps s0 s"
  by (simp add: same_disk_simps agree_def)

lemma same_disk_agree: "same_disk ps s0 s1 \<Longrightarrow> agree qs s1 s \<Longrightarrow> same_disk (ps \<union> qs) s0 s"
  by (auto simp: same_disk_simps agree_def)

lemma same_disk_journals [simp]: "same_disk ps s0 (s\<lparr>journals := js\<rparr>) = same_disk ps s0 s"
  by (simp add: same_disk_simps tidy_def)

lemma same_disk_tidy: "same_disk ps s0 s \<Longrightarrow> tidy s"
  by (simp add: same_disk_simps)

lemma idle_agree: "agree ps s0 s \<Longrightarrow> idle s = idle s0"
  by (simp add: agree_def idle_def)

lemma safe_put_journal:
  assumes "\<And>s. I s \<Longrightarrow> Q () (s\<lparr>journals := AList.update ns w (journals s)\<rparr>)"
  shows "safe I (put_journal ns w) Q C"
  using assms by (simp add: safe_def put_journal_def calm_def)

lemma idle_put: "idle s \<Longrightarrow> wal_pending w = [] \<Longrightarrow> idle (s\<lparr>journals := AList.update ns w (journals s)\<rparr>)"
  by (auto simp: idle_def update_conv')

lemma get_or_create_journal_safe:
  assumes "ready s0 ns" and "idle s0" and "tidy s0"
  shows "safe (agree {} s0) (get_or_create_journal C ns)
    (\<lambda>w s. wal_pending w = [] \<and> same_disk {} s0 s \<and> idle s) (same_disk {} s0)"
  unfolding get_or_create_journal_def
proof (rule safe_read_state)
  fix s assume s: "agree {} s0 s"
  have new: "safe (agree {} s0) (bind_io (wal_new C ns) (\<lambda>w. bind_io (put_journal ns w) (\<lambda>_. ret w)))
      (\<lambda>w s. wal_pending w = [] \<and> same_disk {} s0 s \<and> idle s) (same_disk {} s0)"
  proof (rule safe_bind)
    show "safe (agree {} s0) (wal_new C ns) (\<lambda>w s. agree {} s0 s \<and> wal_pending w = []) (same_disk {} s0)"
      using wal_new_safe [OF assms(1)] by (rule safe_conseq) (auto intro: agree_same_disk)
    show "safe (\<lambda>s. agree {} s0 s \<and> wal_pending w = []) (bind_io (put_journal ns w) (\<lambda>_. ret w))
        (\<lambda>w s. wal_pending w = [] \<and> same_disk {} s0 s \<and> idle s) (same_disk {} s0)" for w
      using assms(2)
      by (intro safe_bind [where R = "\<lambda>_ s. wal_pending w = [] \<and> same_disk {} s0 s \<and> idle s"] safe_put_journal safe_ret)
        (auto simp: idle_put idle_agree agree_same_disk)
  qed
  show "safe (\<lambda>t. t = s) (case map_of (journals s) ns of
        None \<Rightarrow> bind_io (wal_new C ns) (\<lambda>w. bind_io (put_journal ns w) (\<lambda>_. ret w)) | Some w \<Rightarrow> ret w)
      (\<lambda>w s. wal_pending w = [] \<and> same_disk {} s0 s \<and> idle s) (same_disk {} s0)"
  proof (cases "map_of (journals s) ns")
    case None
    then show ?thesis using safe_at [OF new s] by simp
  next
    case (Some w)
    then show ?thesis
      using s assms(2) idle_agree [OF s] by (auto simp: idle_def agree_same_disk intro!: safe_ret)
  qed
qed

lemma journal_operation_safe:
  assumes C: "codec_reads_back C" and s0: "ready s0 ns" "idle s0" "tidy s0" "journal_at s0 ns B"
  shows "safe (agree {} s0) (journal_operation C now ns op)
    (\<lambda>_ s. \<exists>e. je_operation e = op \<and> same_disk {Journal_File ns} s0 s \<and> idle s \<and> journal_at s ns (B @ frame C e))
    (\<lambda>s. \<exists>e. je_operation e = op \<and> same_disk {Journal_File ns} s0 s \<and> journal_torn s ns B (frame C e))"
    (is "safe _ _ ?Q ?C")
proof -
  have torn0: "?C s" if "same_disk {} s0 s" for s
  proof -
    have "journal_torn s ns B fr" for fr
      using that s0(4) by (auto simp: same_disk_simps journal_at_def journal_torn_def intro: exI [of _ 0] split: option.splits)
    moreover have "same_disk {Journal_File ns} s0 s" using that by (simp add: same_disk_simps)
    ultimately show ?thesis by (metis journal_entry.select_convs(2))
  qed
  have step: "safe (\<lambda>s. wal_pending w = [] \<and> same_disk {} s0 s \<and> idle s)
      (bind_io (put_journal ns w1) (\<lambda>_. bind_io (wal_commit C ns w1) (put_journal ns))) ?Q ?C"
    if w1: "w1 = wal_append now w op" for w w1
  proof (rule safe_from)
    fix s1 assume s1: "wal_pending w = [] \<and> same_disk {} s0 s1 \<and> idle s1"
    obtain e where e: "wal_pending w1 = [e]" "je_operation e = op"
      using w1 s1 by (simp add: wal_append_def Let_def)
    let ?s2 = "s1\<lparr>journals := AList.update ns w1 (journals s1)\<rparr>"
    have s2: "same_disk {} s0 ?s2" "Journal_Dir ns \<in> set (dirs ?s2)" "journal_at ?s2 ns B" "tidy ?s2"
      using s1 s0 by (auto simp: same_disk_simps ready_def journal_at_def tidy_def split: option.splits)
    have commit: "safe (\<lambda>s. s = ?s2) (wal_commit C ns w1)
        (\<lambda>w' s. agree {Journal_File ns} ?s2 s \<and> wal_pending w' = [] \<and> journal_at s ns (B @ frame C e)) ?C"
    proof (rule safe_conseq [OF safe_at [OF wal_commit_safe [OF C e(1) s2(2)]]])
      fix s assume "agree {Journal_File ns} ?s2 s \<and> journal_torn s ns B (frame C e)"
      then show "?C s" using e(2) same_disk_agree [OF s2(1)] by auto
    qed (auto simp: agree_refl s2)
    have put: "safe (\<lambda>s. agree {Journal_File ns} ?s2 s \<and> wal_pending w' = [] \<and> journal_at s ns (B @ frame C e))
        (put_journal ns w') ?Q ?C" for w'
    proof (rule safe_put_journal)
      fix s assume s: "agree {Journal_File ns} ?s2 s \<and> wal_pending w' = [] \<and> journal_at s ns (B @ frame C e)"
      let ?s3 = "s\<lparr>journals := AList.update ns w' (journals s)\<rparr>"
      have "map_of (journals s) = (map_of (journals s1))(ns \<mapsto> w1)" using s by (simp add: agree_def update_conv')
      then have "idle ?s3" using s s1 by (auto simp: idle_def update_conv')
      moreover have "same_disk {Journal_File ns} s0 ?s3" using s same_disk_agree [OF s2(1)] by simp
      moreover have "journal_at ?s3 ns (B @ frame C e)" using s by (simp add: journal_at_def)
      ultimately show "?Q () ?s3" using e(2) by blast
    qed
    show "safe (\<lambda>s. s = s1) (bind_io (put_journal ns w1) (\<lambda>_. bind_io (wal_commit C ns w1) (put_journal ns))) ?Q ?C"
      by (intro safe_bind [where R = "\<lambda>_ s. s = ?s2"] safe_put_journal safe_bind [OF commit] put) simp
  qed
  show ?thesis
    unfolding journal_operation_def Let_def
    by (rule safe_bind [OF safe_conseq [OF get_or_create_journal_safe [OF s0(1-3)]] step]) (auto intro: torn0)
qed

end
