(* ===== verification/Storage_Recovery.thy ===== *)
theory Storage_Recovery
  imports Storage_Crashes
begin

text \<open>
  What a crash leaves of the encrypted storage, what recovery makes of it, and what each operation does when the machine
  stops at one of its calls: the state before or after the operation can be recovered.
\<close>

section \<open>Crashes\<close>

definition crash_file :: "vault \<Rightarrow> path \<Rightarrow> fnode option \<Rightarrow> bool" where
  "crash_file s p r \<longleftrightarrow> (case file_at s p of
      None \<Rightarrow> r = None
    | Some f \<Rightarrow> (case p of
        Journal_File ns \<Rightarrow> (\<exists>n \<ge> stable f. r = Some \<lparr>file_content = take n (file_content f),
           stable = length (take n (file_content f))\<rparr>)
      | _ \<Rightarrow> if p \<in> set (unsynced s) then r \<noteq> None else r = Some f))"

text \<open>A crash keeps the directories, a durable part of each journal and every synchronised file; another file
  may then have any contents.\<close>

definition crashed :: "vault \<Rightarrow> vault \<Rightarrow> bool" where
  "crashed s s' \<longleftrightarrow> dirs s' = dirs s \<and> unsynced s' = [] \<and> journals s' = [] \<and> (\<forall>p. crash_file s p (file_at s' p))"

section \<open>What recovery relies on\<close>

fun last_write :: "string \<Rightarrow> journal_entry list \<Rightarrow> bytes option option" where
  "last_write k [] = None"
| "last_write k (e # es) =
     (case last_write k es of
        Some v \<Rightarrow> Some v
      | None \<Rightarrow> (case je_operation e of
          StoreKey j _ enc \<Rightarrow> if j = k then Some (Some enc) else None
        | DeleteKey j _ \<Rightarrow> if j = k then Some None else None
        | _ \<Rightarrow> None))"

definition entry_ok :: "string \<Rightarrow> journal_entry \<Rightarrow> bool" where
  "entry_ok ns e \<longleftrightarrow> (case je_operation e of
      StoreKey k m _ \<Rightarrow> m = ns \<and> names_ok ns k
    | DeleteKey k m \<Rightarrow> m = ns \<and> names_ok ns k
    | _ \<Rightarrow> False)"

type_synonym key_values = "string \<Rightarrow> string \<Rightarrow> bytes option"

definition journal_ok :: "store_codec \<Rightarrow> vault \<Rightarrow> string \<Rightarrow> journal_entry list \<Rightarrow> bool" where
  "journal_ok C s ns es \<longleftrightarrow> (file_at s (Journal_File ns) \<noteq> None \<longrightarrow> ready s ns) \<and>
     (\<forall>f. file_at s (Journal_File ns) = Some f \<longrightarrow> stable f = length (file_content f)) \<and>
     journal_entries C s ns = es \<and> (\<forall>e\<in>set es. entry_ok ns e)"

definition value_ok :: "store_codec \<Rightarrow> vault \<Rightarrow> string \<Rightarrow> string \<Rightarrow> bytes option option \<Rightarrow> bytes option \<Rightarrow> bool" where
  "value_ok C s ns k lw v = (case lw of Some u \<Rightarrow> v = u | None \<Rightarrow> holds C s ns k v)"

text \<open>The journals can be replayed, and together with the files that they do not mention they determine the values \<open>A\<close>.\<close>

definition recoverable :: "store_codec \<Rightarrow> (string \<Rightarrow> journal_entry list) \<Rightarrow> key_values \<Rightarrow> vault \<Rightarrow> bool" where
  "recoverable C J A s \<longleftrightarrow> {Base_Dir, Namespaces_Dir} \<subseteq> set (dirs s) \<and> tidy s \<and>
     (\<forall>ns. journal_ok C s ns (J ns)) \<and> (\<forall>ns k. value_ok C s ns k (last_write k (J ns)) (A ns k))"

text \<open>A state between operations: nothing is pending and every key is in its files.\<close>

definition quiet :: "store_codec \<Rightarrow> (string \<Rightarrow> journal_entry list) \<Rightarrow> key_values \<Rightarrow> vault \<Rightarrow> bool" where
  "quiet C J A s \<longleftrightarrow> recoverable C J A s \<and> idle s \<and>
     (\<forall>ns k. holds C s ns k (A ns k)) \<and>
     (\<forall>ns. journal_at s ns (frames C (J ns)) \<and> (\<forall>e\<in>set (J ns). fits C e)) \<and>
     (\<forall>ns. Ns_Dir ns \<in> set (dirs s) \<longrightarrow> ready s ns)"

lemma holds_agree:
  assumes "agree ps s0 s" and "key_files ns k \<inter> ps = {}"
  shows "holds C s ns k v = holds C s0 ns k v"
proof -
  have "file_at s p = file_at s0 p \<and> (p \<in> set (unsynced s) \<longleftrightarrow> p \<in> set (unsynced s0))" if "p \<in> key_files ns k" for p
    using assms that by (auto simp: agree_def)
  then show ?thesis
    by (auto simp: holds_def file_is_def key_files_def split: option.split)
qed

lemma file_is_journals [simp]: "file_is (s\<lparr>journals := js\<rparr>) p bs = file_is s p bs"
  by (simp add: file_is_def)

lemma holds_same_disk:
  assumes "same_disk ps s0 s" and "key_files ns k \<inter> ps = {}"
  shows "holds C s ns k v = holds C s0 ns k v"
proof -
  have "holds C s ns k v = holds C (s0\<lparr>journals := journals s\<rparr>) ns k v"
    using assms unfolding same_disk_def by (rule holds_agree)
  also have "\<dots> = holds C s0 ns k v" by (simp add: holds_def split: option.split)
  finally show ?thesis .
qed

lemma key_files_disjoint: "(ns, k) \<noteq> (ns', k') \<Longrightarrow> key_files ns k \<inter> key_files ns' k' = {}"
  by (auto simp: key_files_def)

lemma value_ok_mono: "value_ok C s ns k lw v \<Longrightarrow> (holds C s ns k v \<Longrightarrow> lw = None \<Longrightarrow> holds C s' ns k v) \<Longrightarrow> value_ok C s' ns k lw v"
  by (cases lw) (simp_all add: value_ok_def)

lemma journal_ok_same:
  assumes "journal_ok C s0 ns es" and "file_at s (Journal_File ns) = file_at s0 (Journal_File ns)" and "dirs s = dirs s0"
  shows "journal_ok C s ns es"
  using assms by (simp add: journal_ok_def ready_def journal_entries_def)

lemma recoverable_agree:
  assumes rec: "recoverable C J A s0" and ag: "agree (key_files ns k) s0 s" and "last_write k (J ns) \<noteq> None"
  shows "recoverable C J A s"
  unfolding recoverable_def
proof (intro conjI allI)
  show "{Base_Dir, Namespaces_Dir} \<subseteq> set (dirs s)" "tidy s" using rec ag by (simp_all add: recoverable_def agree_def)
next
  fix m show "journal_ok C s m (J m)"
    by (rule journal_ok_same [of C s0]) (use rec ag in \<open>simp_all add: recoverable_def agree_def key_files_def\<close>)
next
  fix m k'
  have "value_ok C s0 m k' (last_write k' (J m)) (A m k')" using rec by (simp add: recoverable_def)
  then show "value_ok C s m k' (last_write k' (J m)) (A m k')"
  proof (rule value_ok_mono)
    assume h: "holds C s0 m k' (A m k')" and "last_write k' (J m) = None"
    then have "(m, k') \<noteq> (ns, k)" using assms(3) by auto
    then show "holds C s m k' (A m k')" using h holds_agree [OF ag key_files_disjoint] by simp
  qed
qed

lemma recoverable_crash:
  assumes rec: "recoverable C J A s" and cr: "crashed s s'"
  shows "recoverable C J A s'"
  unfolding recoverable_def
proof (intro conjI allI)
  have d: "dirs s' = dirs s" "unsynced s' = []" and cf: "\<And>p. crash_file s p (file_at s' p)"
    using cr by (auto simp: crashed_def)
  show "{Base_Dir, Namespaces_Dir} \<subseteq> set (dirs s')" "tidy s'" using rec d by (simp_all add: recoverable_def tidy_def)
  fix ns
  have j: "journal_ok C s ns (J ns)" using rec by (simp add: recoverable_def)
  then have "file_at s' (Journal_File ns) = file_at s (Journal_File ns)"
    using cf [of "Journal_File ns"]
    by (cases "file_at s (Journal_File ns)") (auto simp: crash_file_def journal_ok_def)
  with j d(1) show "journal_ok C s' ns (J ns)" by (metis journal_ok_same)
  fix k
  have "value_ok C s ns k (last_write k (J ns)) (A ns k)" using rec by (simp add: recoverable_def)
  then show "value_ok C s' ns k (last_write k (J ns)) (A ns k)"
  proof (rule value_ok_mono)
    assume h: "holds C s ns k (A ns k)"
    have "file_at s' p = file_at s p" if "p \<in> key_files ns k" for p
      using cf [of p] h that by (cases "file_at s p") (auto simp: crash_file_def holds_def key_files_def)
    then show "holds C s' ns k (A ns k)"
      using h d by (auto simp: holds_def file_is_def key_files_def split: option.splits)
  qed
qed

section \<open>Recovery\<close>

definition entry_write :: "string \<Rightarrow> journal_entry \<Rightarrow> bytes option option" where
  "entry_write k e = last_write k [e]"

lemma last_write_snoc:
  "last_write k (es @ [e]) = (case entry_write k e of Some v \<Rightarrow> Some v | None \<Rightarrow> last_write k es)"
  by (induction es) (auto simp: entry_write_def split: option.splits)

lemma last_write_mem: "e \<in> set es \<Longrightarrow> entry_write k e \<noteq> None \<Longrightarrow> last_write k es \<noteq> None"
  by (induction es) (auto simp: entry_write_def split: option.splits)

lemma entry_ok_write:
  assumes "entry_ok ns e"
  shows "\<exists>k v. names_ok ns k \<and> (\<forall>j. entry_write j e = (if j = k then Some v else None)) \<and>
    (\<forall>C now rnd s0. codec_reads_back C \<longrightarrow> Keys_Dir ns \<in> set (dirs s0) \<longrightarrow>
      safe (agree (key_files ns k) s0) (apply_entry C now rnd e)
        (\<lambda>_ s. agree (key_files ns k) s0 s \<and> holds C s ns k v) (agree (key_files ns k) s0))"
proof (cases "je_operation e")
  case (StoreKey k m enc)
  with assms show ?thesis
    by (intro exI [of _ k] exI [of _ "Some enc"])
      (auto simp: entry_ok_def entry_write_def apply_entry_def write_encrypted_safe)
next
  case (DeleteKey k m)
  with assms show ?thesis
    by (intro exI [of _ k] exI [of _ None])
      (auto simp: entry_ok_def entry_write_def apply_entry_def delete_key_impl_safe)
qed (use assms in \<open>auto simp: entry_ok_def\<close>)

text \<open>During the recovery of a namespace: everything can still be recovered, and the keys of the entries applied so far
  hold what those entries wrote. \<open>N\<close> are namespaces that are done.\<close>

definition recovering :: "store_codec \<Rightarrow> (string \<Rightarrow> journal_entry list) \<Rightarrow> key_values \<Rightarrow> dir list \<Rightarrow> string set \<Rightarrow> vault \<Rightarrow> bool" where
  "recovering C J A D N s \<longleftrightarrow> recoverable C J A s \<and> idle s \<and> dirs s = D \<and> (\<forall>m\<in>N. file_at s (Journal_File m) = None)"

lemma recoveringD:
  assumes "recovering C J A D N s"
  shows "tidy s" "idle s" "dirs s = D" "journal_ok C s ns (J ns)" "journal_entries C s ns = J ns"
    "value_ok C s ns k (last_write k (J ns)) (A ns k)"
  using assms by (auto simp: recovering_def recoverable_def journal_ok_def)

lemma recovering_agree:
  assumes "recovering C J A D N s0" and "agree (key_files ns k) s0 s" and "last_write k (J ns) \<noteq> None"
  shows "recovering C J A D N s"
  using assms(1) recoverable_agree [of C J A s0 ns k s] idle_agree [OF assms(2)] assms(2,3)
  by (auto simp: recovering_def agree_def key_files_def)

lemma recovering_same:
  assumes "recovering C J A D N s0" and "agree {} s0 s"
  shows "recovering C J A D N s"
proof -
  have "agree (key_files ns k) s0 s" for ns k using assms(2) by (rule agree_mono) simp
  note ag = this
  have "recoverable C J A s"
    unfolding recoverable_def
  proof (intro conjI allI)
    show "{Base_Dir, Namespaces_Dir} \<subseteq> set (dirs s)" "tidy s"
      using assms by (auto simp: recovering_def recoverable_def agree_def)
    fix m show "journal_ok C s m (J m)"
      by (rule journal_ok_same [of C s0]) (use assms in \<open>simp_all add: recovering_def recoverable_def agree_def\<close>)
    fix k show "value_ok C s m k (last_write k (J m)) (A m k)"
      by (rule value_ok_mono [of C s0])
        (use assms holds_agree [OF assms(2)] in \<open>simp_all add: recovering_def recoverable_def\<close>)
  qed
  then show ?thesis using assms idle_agree [OF assms(2)] by (simp add: recovering_def agree_def)
qed

lemma apply_entries_safe:
  assumes C: "codec_reads_back C" and r: "Keys_Dir ns \<in> set D"
  shows "safe (recovering C J A D N) (each (apply_entry C now rnd) (J ns))
    (\<lambda>_ s. recovering C J A D N s \<and> (\<forall>k. holds C s ns k (A ns k))) (recovering C J A D N)"
proof -
  let ?L = "\<lambda>ys s. recovering C J A D N s \<and> (\<forall>k v. last_write k ys = Some v \<longrightarrow> holds C s ns k v)"
  have "safe (?L []) (each (apply_entry C now rnd) (J ns)) (\<lambda>_. ?L (J ns)) (recovering C J A D N)"
  proof (rule safe_each)
    fix ys e zs assume split: "J ns = ys @ e # zs"
    show "safe (?L ys) (apply_entry C now rnd e) (\<lambda>_. ?L (ys @ [e])) (recovering C J A D N)"
    proof (rule safe_from)
      fix s1 assume s1: "?L ys s1"
      then have "entry_ok ns e" using split by (auto simp: recovering_def recoverable_def journal_ok_def)
      from entry_ok_write [OF this]
      obtain k v where kv: "names_ok ns k" "\<And>j. entry_write j e = (if j = k then Some v else None)"
        and app: "\<And>C now rnd s0. codec_reads_back C \<Longrightarrow> Keys_Dir ns \<in> set (dirs s0) \<Longrightarrow>
          safe (agree (key_files ns k) s0) (apply_entry C now rnd e)
            (\<lambda>_ s. agree (key_files ns k) s0 s \<and> holds C s ns k v) (agree (key_files ns k) s0)"
        by blast
      have lw: "last_write k (J ns) \<noteq> None" by (rule last_write_mem [of e]) (simp_all add: split kv)
      have t1: "tidy s1" "Keys_Dir ns \<in> set (dirs s1)" using s1 r by (simp_all add: recovering_def recoverable_def)
      have ag: "recovering C J A D N s" if "agree (key_files ns k) s1 s" for s
        using s1 that lw by (metis recovering_agree)
      show "safe (\<lambda>s. s = s1) (apply_entry C now rnd e) (\<lambda>_. ?L (ys @ [e])) (recovering C J A D N)"
      proof (rule safe_conseq [OF safe_at [OF app [OF C t1(2)] agree_refl [OF t1(1)]]])
        fix s assume s: "agree (key_files ns k) s1 s \<and> holds C s ns k v"
        have "holds C s ns j u" if "last_write j (ys @ [e]) = Some u" for j u
          using that s s1 holds_agree [of "key_files ns k" s1 s ns j] key_files_disjoint [of ns j ns k]
          by (cases "j = k") (auto simp: last_write_snoc kv)
        with s ag show "?L (ys @ [e]) s" by auto
      qed (use ag in auto)
    qed
  qed
  then show ?thesis
  proof (rule safe_conseq)
    fix s assume s: "?L (J ns) s"
    have "holds C s ns k (A ns k)" for k
    proof (cases "last_write k (J ns)")
      case None
      then show ?thesis using s recoveringD(6) [of C J A D N s ns k] by (simp add: value_ok_def)
    next
      case (Some v)
      then have "A ns k = v" using s recoveringD(6) [of C J A D N s ns k] by (simp add: value_ok_def)
      with Some s show ?thesis by simp
    qed
    with s show "recovering C J A D N s \<and> (\<forall>k. holds C s ns k (A ns k))" by simp
  qed auto
qed

definition recoverable_to :: "store_codec \<Rightarrow> key_values \<Rightarrow> dir list \<Rightarrow> vault \<Rightarrow> bool" where
  "recoverable_to C A D s \<longleftrightarrow> (\<exists>J. recoverable C J A s) \<and> dirs s = D"

lemma recovering_to: "recovering C J A D N s \<Longrightarrow> recoverable_to C A D s"
  by (auto simp: recovering_def recoverable_to_def)

lemma recovering_script [simp]: "recovering C J A D N (s\<lparr>script := es\<rparr>) = recovering C J A D N s"
proof -
  have "holds C (s\<lparr>script := es\<rparr>) ns k v = holds C s ns k v" for ns k v
    by (cases v) (simp_all add: holds_def)
  then have "value_ok C (s\<lparr>script := es\<rparr>) = value_ok C s" by (intro ext) (simp add: value_ok_def split: option.split)
  then show ?thesis
    by (simp add: recovering_def recoverable_def journal_ok_def journal_entries_def ready_def idle_def)
qed

text \<open>Dropping the journal of a namespace whose files are up to date.\<close>

lemma drop_journal_recovering:
  assumes rec: "recovering C J A D N s" and up: "\<forall>k. holds C s ns k (A ns k)"
  shows "recovering C (J(ns := [])) A D (insert ns N) (drop_file (Journal_File ns) s)"
proof -
  let ?s = "drop_file (Journal_File ns) s"
  have kept: "holds C ?s m k v = holds C s m k v" for m k v
    by (auto simp: holds_def file_is_def key_files_def split: option.split)
  have "journal_ok C ?s m ((J(ns := [])) m)" for m
    using rec by (auto simp: recovering_def recoverable_def journal_ok_def journal_entries_def ready_def)
  moreover have "value_ok C ?s m k (last_write k ((J(ns := [])) m)) (A m k)" for m k
    using recoveringD(6) [OF rec, of m k] up by (cases "last_write k (J m)") (simp_all add: value_ok_def kept)
  ultimately show ?thesis
    using rec by (auto simp: recovering_def recoverable_def idle_def tidy_calls)
qed

lemma wal_truncate_safe:
  assumes "recovering C J A D N s1" and "\<forall>k. holds C s1 ns k (A ns k)" and "tidy s1"
  shows "safe (agree {} s1) (bind_io (wal_truncate ns w) (\<lambda>_. ret ()))
    (\<lambda>_. recovering C (J(ns := [])) A D (insert ns N)) (recoverable_to C A D)"
proof -
  let ?R = "recovering C (J(ns := [])) A D (insert ns N)"
  have drop: "?R (drop_file (Journal_File ns) s)" "recoverable_to C A D s" if "agree {} s1 s" for s
    using drop_journal_recovering [OF recovering_same [OF assms(1) that], of ns] assms(2) holds_agree [OF that]
      recovering_to [OF recovering_same [OF assms(1) that]] by auto
  have rm: "safe (agree {} s1) (remove_file (Journal_File ns)) (\<lambda>_. ?R) (recoverable_to C A D)"
    unfolding remove_file_def by (intro safe_syscall) (auto simp: nothing_def intro: drop)
  have gone: "?R s" if "agree {} s1 s" "file_at s (Journal_File ns) = None" for s
  proof -
    have "J ns = []" using recoveringD(5) [OF recovering_same [OF assms(1) that(1)], of ns] that(2)
      by (simp add: journal_entries_def)
    then have "J(ns := []) = J" by auto
    then show ?thesis using recovering_same [OF assms(1) that(1)] that(2) by (simp add: recovering_def)
  qed
  show ?thesis
    unfolding wal_truncate_def
  proof (intro safe_bind [where R = "\<lambda>_. ?R"] safe_read_state safe_ret)
    fix s assume s: "agree {} s1 s"
    show "safe (\<lambda>t. t = s) (if file_at s (Journal_File ns) \<noteq> None then remove_file (Journal_File ns) else ret ())
        (\<lambda>_. ?R) (recoverable_to C A D)"
      using safe_at [OF rm s] gone [OF s] by (auto intro: safe_ret)
  qed simp_all
qed

lemma recover_namespace_safe:
  assumes C: "codec_reads_back C"
  shows "safe (recovering C J A D N) (recover_namespace C now rnd ns)
    (\<lambda>_. recovering C (J(ns := [])) A D (insert ns N)) (recoverable_to C A D)"
  unfolding recover_namespace_def
proof (rule safe_read_state)
  fix s0 assume s0: "recovering C J A D N s0"
  let ?R = "recovering C (J(ns := [])) A D (insert ns N)"
  have es: "journal_entries C s0 ns = J ns" and t0: "tidy s0" "agree {} s0 s0"
    using s0 by (auto simp: recovering_def recoverable_def journal_ok_def agree_refl)
  have same: "recovering C J A D N s" "recoverable_to C A D s" if "agree {} s0 s" for s
    using recovering_same [OF s0 that] recovering_to by auto
  show "safe (\<lambda>t. t = s0) (if file_at s0 (Journal_File ns) = None then ret ()
      else bind_io (wal_new C ns) (\<lambda>_. bind_io (replay C ns) (\<lambda>es. bind_io (each (apply_entry C now rnd) es) (\<lambda>_.
        bind_io (wal_new C ns) (\<lambda>w. bind_io (wal_truncate ns w) (\<lambda>_. ret ())))))) (\<lambda>_. ?R) (recoverable_to C A D)"
  proof (cases "file_at s0 (Journal_File ns) = None")
    case True
    then have "J(ns := []) = J" using es by (auto simp: journal_entries_def)
    then show ?thesis using True s0 by (auto simp: recovering_def intro!: safe_ret)
  next
    case False
    then have r: "ready s0 ns" using s0 by (auto simp: recovering_def recoverable_def journal_ok_def)
    have new: "safe (agree {} s0) (wal_new C ns) (\<lambda>_. agree {} s0) (recoverable_to C A D)"
      by (rule safe_conseq [OF wal_new_safe [OF r]]) (auto intro: same)
    have rep: "safe (agree {} s0) (replay C ns) (\<lambda>es s. agree {} s0 s \<and> es = J ns) (recoverable_to C A D)"
      by (rule safe_conseq [OF replay_safe]) (auto intro: same simp: es)
    have app: "safe (\<lambda>s. agree {} s0 s \<and> es = J ns) (each (apply_entry C now rnd) es)
        (\<lambda>_ s. recovering C J A D N s \<and> (\<forall>k. holds C s ns k (A ns k))) (recoverable_to C A D)" for es
    proof (cases "es = J ns")
      case True
      have "Keys_Dir ns \<in> set D" using r s0 by (auto simp: ready_def recovering_def)
      from apply_entries_safe [OF C this] show ?thesis
        unfolding True by (rule safe_conseq) (auto intro: same recovering_to)
    qed (simp add: safe_def)
    have last: "safe (\<lambda>s. recovering C J A D N s \<and> (\<forall>k. holds C s ns k (A ns k)))
        (bind_io (wal_new C ns) (\<lambda>w. bind_io (wal_truncate ns w) (\<lambda>_. ret ()))) (\<lambda>_. ?R) (recoverable_to C A D)"
    proof (rule safe_from)
      fix s1 assume s1: "recovering C J A D N s1 \<and> (\<forall>k. holds C s1 ns k (A ns k))"
      then have r1: "ready s1 ns" "tidy s1" using r s0 by (auto simp: ready_def recovering_def recoverable_def)
      have new: "safe (agree {} s1) (wal_new C ns) (\<lambda>_. agree {} s1) (recoverable_to C A D)"
        by (rule safe_conseq [OF wal_new_safe [OF r1(1)]]) (use s1 recovering_same recovering_to in blast)+
      show "safe (\<lambda>s. s = s1) (bind_io (wal_new C ns) (\<lambda>w. bind_io (wal_truncate ns w) (\<lambda>_. ret ())))
          (\<lambda>_. ?R) (recoverable_to C A D)"
        using s1 r1 by (intro safe_at [OF safe_bind [OF new wal_truncate_safe]] agree_refl) auto
    qed
    show ?thesis
      unfolding if_not_P [OF False] by (rule safe_at [OF safe_bind [OF new safe_bind [OF rep safe_bind [OF app last]]] t0(2)])
  qed
qed

lemma set_namespace_names: "ns \<in> set (namespace_names s) \<longleftrightarrow> Ns_Dir ns \<in> set (dirs s)"
  by (force simp: namespace_names_def split: dir.splits)

definition all_ready :: "dir list \<Rightarrow> bool" where
  "all_ready D \<longleftrightarrow> (\<forall>ns. Ns_Dir ns \<in> set D \<longrightarrow> {Base_Dir, Namespaces_Dir, Ns_Dir ns, Keys_Dir ns, Journal_Dir ns} \<subseteq> set D)"

lemma recovered_quiet:
  assumes rec: "recovering C J A D N s" and "all_ready D" and N: "\<And>ns. Ns_Dir ns \<in> set D \<Longrightarrow> ns \<in> N"
  shows "quiet C (\<lambda>_. []) A s"
proof -
  have none: "file_at s (Journal_File ns) = None" for ns
  proof (rule ccontr)
    assume "file_at s (Journal_File ns) \<noteq> None"
    moreover from this have "Ns_Dir ns \<in> set D"
      using recoveringD(3,4) [OF rec] by (auto simp: journal_ok_def ready_def)
    ultimately show False using N rec by (auto simp: recovering_def)
  qed
  then have J: "J = (\<lambda>_. [])" using recoveringD(5) [OF rec] by (auto simp: journal_entries_def)
  have "holds C s ns k (A ns k)" for ns k
    using recoveringD(6) [OF rec, of ns k] by (simp add: J value_ok_def)
  then show ?thesis
    using rec none \<open>all_ready D\<close>
    by (auto simp: quiet_def recovering_def J journal_at_def frames_def all_ready_def ready_def)
qed

lemma recover_safe:
  assumes C: "codec_reads_back C" and D: "all_ready D"
  shows "safe (recovering C J A D {}) (recover C now rnd) (\<lambda>_ s. quiet C (\<lambda>_. []) A s \<and> dirs s = D) (recoverable_to C A D)"
  unfolding recover_def
proof (rule safe_read_state)
  fix s0 assume s0: "recovering C J A D {} s0"
  then have d: "Namespaces_Dir \<in> set (dirs s0)" "dirs s0 = D" by (auto simp: recovering_def recoverable_def)
  let ?J = "\<lambda>ys n. if n \<in> set ys then [] else J n"
  let ?I = "\<lambda>ys. recovering C (?J ys) A D (set ys)"
  have "safe (?I []) (each (recover_namespace C now rnd) (namespace_names s0)) (\<lambda>_. ?I (namespace_names s0)) (recoverable_to C A D)"
  proof (rule safe_each)
    fix ys ns zs
    have "(?J ys)(ns := []) = ?J (ys @ [ns])" by auto
    then show "safe (?I ys) (recover_namespace C now rnd ns) (\<lambda>_. ?I (ys @ [ns])) (recoverable_to C A D)"
      using recover_namespace_safe [OF C, of "?J ys" A D "set ys" now rnd ns] by simp
  qed
  moreover have "safe (?I []) (syscall id nothing) (\<lambda>_. ?I []) (recoverable_to C A D)"
    by (intro safe_syscall) (auto simp: any_script_def nothing_def intro: recovering_to)
  ultimately have "safe (?I []) (bind_io (syscall id nothing) (\<lambda>_. each (recover_namespace C now rnd) (namespace_names s0)))
      (\<lambda>_. ?I (namespace_names s0)) (recoverable_to C A D)"
    by (intro safe_bind)
  then have "safe (\<lambda>t. t = s0) (bind_io (syscall id nothing) (\<lambda>_. each (recover_namespace C now rnd) (namespace_names s0)))
      (\<lambda>_ s. quiet C (\<lambda>_. []) A s \<and> dirs s = D) (recoverable_to C A D)"
  proof (rule safe_conseq)
    fix s assume "?I (namespace_names s0) s"
    then show "quiet C (\<lambda>_. []) A s \<and> dirs s = D"
      using recovered_quiet [OF _ D] recoveringD(3) set_namespace_names [of _ s0] d(2) by blast
  qed (use s0 in auto)
  with d(1) show "safe (\<lambda>t. t = s0) (if Namespaces_Dir \<notin> set (dirs s0) then ret ()
      else bind_io (syscall id nothing) (\<lambda>_. each (recover_namespace C now rnd) (namespace_names s0)))
      (\<lambda>_ s. quiet C (\<lambda>_. []) A s \<and> dirs s = D) (recoverable_to C A D)"
    by simp
qed

text \<open>Opening the storage after a crash: recovery ends in a quiet state with the values \<open>A\<close>, or is itself
  interrupted in a state from which it can start again.\<close>

lemma storage_new_safe:
  assumes C: "codec_reads_back C" and D: "all_ready D"
  shows "safe (\<lambda>s. recoverable_to C A D s \<and> journals s = []) (storage_new C now rnd)
    (\<lambda>_ s. quiet C (\<lambda>_. []) A s \<and> dirs s = D) (recoverable_to C A D)"
proof (rule safe_from)
  fix s0 assume s0: "recoverable_to C A D s0 \<and> journals s0 = []"
  then obtain J where J: "recovering C J A D {} s0" by (auto simp: recoverable_to_def recovering_def idle_def)
  then have d: "{Base_Dir, Namespaces_Dir} \<subseteq> set (dirs s0)" "tidy s0" by (auto simp: recovering_def recoverable_def)
  have same: "recovering C J A D {} s" "recoverable_to C A D s" if "agree {} s0 s" for s
    using recovering_same [OF J that] recovering_to by auto
  have mk: "safe (agree {} s0) (create_dir_all x) (\<lambda>_. agree {} s0) (recoverable_to C A D)"
    if "x \<in> {Base_Dir, Namespaces_Dir}" for x
    by (rule safe_conseq [OF create_dir_safe]) (use d that same in auto)
  have reset: "safe (agree {} s0) (read_state (\<lambda>s t. (t\<lparr>journals := []\<rparr>, Done (Inr ()))))
      (\<lambda>_. recovering C J A D {}) (recoverable_to C A D)"
    unfolding safe_def read_state_def
  proof (intro allI impI)
    fix s assume "calm s" "agree {} s0 s"
    moreover from this have "s\<lparr>journals := []\<rparr> = s" using s0 by (simp add: agree_def)
    ultimately show "ends (\<lambda>_. recovering C J A D {}) (recoverable_to C A D) (s\<lparr>journals := []\<rparr>, Done (Inr ()))"
      using same(1) by simp
  qed
  show "safe (\<lambda>s. s = s0) (storage_new C now rnd) (\<lambda>_ s. quiet C (\<lambda>_. []) A s \<and> dirs s = D) (recoverable_to C A D)"
    unfolding storage_new_def using d(2)
    by (intro safe_at [OF safe_bind [OF mk safe_bind [OF mk safe_bind [OF reset recover_safe [OF C D]]]]] agree_refl) simp_all
qed

section \<open>One operation\<close>

definition apply_writes :: "key_values \<Rightarrow> string \<Rightarrow> journal_entry list \<Rightarrow> key_values" where
  "apply_writes A ns es = A(ns := (\<lambda>k. case last_write k es of Some v \<Rightarrow> v | None \<Rightarrow> A ns k))"

lemma last_write_append:
  "last_write k (es @ es') = (case last_write k es' of Some v \<Rightarrow> Some v | None \<Rightarrow> last_write k es)"
  by (induction es) (auto split: option.splits)

lemma quietD:
  assumes "quiet C J A s"
  shows "recoverable C J A s" "idle s" "tidy s" "holds C s ns k (A ns k)" "journal_at s ns (frames C (J ns))"
    "\<forall>e\<in>set (J ns). fits C e" "journal_ok C s ns (J ns)" "\<forall>e\<in>set (J ns). entry_ok ns e"
  using assms by (auto simp: quiet_def recoverable_def journal_ok_def)

lemma key_path_not_journal [simp]: "p \<in> key_files ns k \<Longrightarrow> p \<noteq> Journal_File m"
  by (auto simp: key_files_def)

text \<open>What the entries \<open>xs\<close> mean once they are in the journal of a quiet state.\<close>

lemma recoverable_journaled:
  assumes q: "quiet C J A s0" and d: "dirs t = dirs s0" "tidy t"
    and kf: "\<And>m k p. p \<in> key_files m k \<Longrightarrow> file_at t p = file_at s0 p \<and> p \<notin> set (unsynced t)"
    and jf: "\<And>m. m \<noteq> ns \<Longrightarrow> file_at t (Journal_File m) = file_at s0 (Journal_File m)"
    and j: "journal_ok C t ns (J ns @ xs)"
  shows "recoverable C (J(ns := J ns @ xs)) (apply_writes A ns xs) t"
  unfolding recoverable_def
proof (intro conjI allI)
  show "{Base_Dir, Namespaces_Dir} \<subseteq> set (dirs t)" "tidy t" using quietD(1) [OF q] d by (auto simp: recoverable_def)
  fix m
  show "journal_ok C t m ((J(ns := J ns @ xs)) m)"
    using j journal_ok_same [OF quietD(7) [OF q, of m] jf d(1)] by simp
  fix k
  have "holds C t m k (A m k)"
    using quietD(4) [OF q, of m k] kf [of _ m k] by (auto simp: holds_def file_is_def key_files_def split: option.splits)
  moreover have "value_ok C s0 m k (last_write k (J m)) (A m k)" using quietD(1) [OF q] by (simp add: recoverable_def)
  ultimately show "value_ok C t m k (last_write k ((J(ns := J ns @ xs)) m)) (apply_writes A ns xs m k)"
    by (cases "last_write k (J m)"; cases "last_write k xs") (auto simp: value_ok_def apply_writes_def last_write_append)
qed

lemma crashed_files:
  assumes "quiet C J A s0" and "same_disk {Journal_File ns} s0 s" and "crashed s t"
  shows "p \<in> key_files m k \<Longrightarrow> file_at t p = file_at s0 p \<and> p \<notin> set (unsynced t)"
    and "m \<noteq> ns \<Longrightarrow> file_at t (Journal_File m) = file_at s0 (Journal_File m)"
proof -
  have cf: "crash_file s p (file_at t p)" "unsynced t = []" for p using assms(3) by (simp_all add: crashed_def)
  {
    assume p: "p \<in> key_files m k"
    have "p \<notin> set (unsynced s0)" using quietD(4) [OF assms(1), of m k] p by (auto simp: holds_def)
    then have "file_at s p = file_at s0 p" "p \<notin> set (unsynced s)"
      using assms(2) p by (auto simp: same_disk_simps)
    then show "file_at t p = file_at s0 p \<and> p \<notin> set (unsynced t)"
      using cf(1) [of p] cf(2) p by (cases "file_at s0 p") (auto simp: crash_file_def key_files_def)
  }
  assume "m \<noteq> ns"
  then have "file_at s (Journal_File m) = file_at s0 (Journal_File m)" using assms(2) by (simp add: same_disk_simps)
  then show "file_at t (Journal_File m) = file_at s0 (Journal_File m)"
    using cf(1) [of "Journal_File m"] quietD(5) [OF assms(1), of m]
    by (cases "file_at s0 (Journal_File m)") (auto simp: crash_file_def journal_at_def)
qed

lemma frames_snoc: "frames C (es @ [e]) = frames C es @ frame C e"
  by (simp add: frames_def)

lemma frames_Nil: "frames C es = [] \<longleftrightarrow> es = []"
  by (cases es) (simp_all add: frames_def frame_def)

lemma replay_prefix:
  assumes C: "codec_reads_back C" and "\<forall>x\<in>set es. fits C x" and e: "fits C e"
  shows "replay_buffer C (frames C es @ take n (frame C e)) = (if n < length (frame C e) then es else es @ [e])"
proof -
  have nil: "replay_buffer C [] = []" by (subst replay_buffer.simps) simp
  show ?thesis
    using replay_frames [OF C assms(2)] replay_torn [OF e, of n] replay_frame [OF C e, of "[]"] nil by auto
qed

lemma crash_torn:
  assumes C: "codec_reads_back C" and q: "quiet C J A s0" and r: "ready s0 ns" and e: "fits C e" "entry_ok ns e"
    and sd: "same_disk {Journal_File ns} s0 s" and torn: "journal_torn s ns (frames C (J ns)) (frame C e)" and cr: "crashed s t"
  shows "recoverable C J A t \<or> recoverable C (J(ns := J ns @ [e])) (apply_writes A ns [e]) t"
proof -
  have t: "dirs t = dirs s0" "tidy t" and cf: "crash_file s (Journal_File ns) (file_at t (Journal_File ns))"
    using cr sd by (auto simp: crashed_def same_disk_simps tidy_def)
  have rt: "ready t ns" using r t by (simp add: ready_def)
  note rec = recoverable_journaled [OF q t crashed_files [OF q sd cr]]
  have "journal_ok C t ns (J ns @ []) \<or> journal_ok C t ns (J ns @ [e])"
  proof (cases "file_at s (Journal_File ns)")
    case None
    then have "J ns = []" using torn by (simp add: journal_torn_def frames_Nil)
    then show ?thesis using None cf rt by (simp add: crash_file_def journal_ok_def journal_entries_def)
  next
    case (Some f)
    then obtain n m where f: "file_content f = frames C (J ns) @ take n (frame C e)" "length (frames C (J ns)) \<le> stable f"
      and m: "stable f \<le> m" "file_at t (Journal_File ns) = Some \<lparr>file_content = take m (file_content f), stable = length (take m (file_content f))\<rparr>"
      using torn cf by (auto simp: journal_torn_def crash_file_def)
    have "take m (file_content f) = frames C (J ns) @ take (min (m - length (frames C (J ns))) n) (frame C e)"
      using f m(1) by simp
    then obtain i where "journal_entries C t ns = replay_buffer C (frames C (J ns) @ take i (frame C e))"
      using m(2) by (auto simp: journal_entries_def)
    then show ?thesis
      using m(2) rt quietD(8) [OF q] e(2) replay_prefix [OF C quietD(6) [OF q] e(1)] by (auto simp: journal_ok_def)
  qed
  then show ?thesis
    using rec [where xs = "[]"] rec [where xs = "[e]"] by (auto simp: apply_writes_def)
qed

lemma journaled_recoverable:
  assumes C: "codec_reads_back C" and q: "quiet C J A s0" and r: "ready s0 ns" and e: "fits C e" "entry_ok ns e"
    and sd: "same_disk {Journal_File ns} s0 s" and ja: "journal_at s ns (frames C (J ns) @ frame C e)"
  shows "recoverable C (J(ns := J ns @ [e])) (apply_writes A ns [e]) s"
proof (rule recoverable_journaled [OF q])
  show "dirs s = dirs s0" "tidy s" using sd by (simp_all add: same_disk_simps)
  show "file_at s p = file_at s0 p \<and> p \<notin> set (unsynced s)" if "p \<in> key_files m k" for m k p
    using that sd quietD(4) [OF q, of m k] by (auto simp: same_disk_simps holds_def)
  show "file_at s (Journal_File m) = file_at s0 (Journal_File m)" if "m \<noteq> ns" for m
    using that sd by (simp add: same_disk_simps)
  have "replay_buffer C (frames C (J ns) @ frame C e) = J ns @ [e]"
    using replay_prefix [OF C quietD(6) [OF q] e(1), where n = "length (frame C e)"] by simp
  then show "journal_ok C s ns (J ns @ [e])"
    using ja r sd e(2) quietD(8) [OF q, of ns]
    by (auto simp: journal_ok_def journal_at_def journal_entries_def ready_def same_disk_simps frame_def split: option.splits)
qed

text \<open>After a crash in \<open>s\<close> the storage recovers to \<open>A\<close> or to \<open>A'\<close>.\<close>

definition crash_either :: "store_codec \<Rightarrow> key_values \<Rightarrow> key_values \<Rightarrow> dir list \<Rightarrow> vault \<Rightarrow> bool" where
  "crash_either C A A' D s \<longleftrightarrow> (\<forall>t. crashed s t \<longrightarrow> recoverable_to C A D t \<or> recoverable_to C A' D t)"

lemma written_quiet:
  assumes q: "quiet C J A s0" and sd: "same_disk {Journal_File ns} s0 s1" and "idle s1"
    and ja: "journal_at s1 ns (frames C (J ns) @ frame C e)" and e: "fits C e"
    and lw: "\<And>j. entry_write j e = (if j = k then Some v else None)"
    and rec: "recoverable C (J(ns := J ns @ [e])) (apply_writes A ns [e]) s1"
    and ag: "agree (key_files ns k) s1 s" and h: "holds C s ns k v"
  shows "quiet C (J(ns := J ns @ [e])) (apply_writes A ns [e]) s"
proof -
  have jp: "file_at s (Journal_File m) = file_at s1 (Journal_File m)" for m using ag by (simp add: agree_def key_files_def)
  have d: "dirs s = dirs s0" using ag sd by (simp add: agree_def same_disk_simps)
  have "last_write k ((J(ns := J ns @ [e])) ns) \<noteq> None" by (simp add: last_write_snoc lw)
  then have "recoverable C (J(ns := J ns @ [e])) (apply_writes A ns [e]) s" by (rule recoverable_agree [OF rec ag])
  moreover have "holds C s m j (apply_writes A ns [e] m j)" for m j
  proof (cases "(m, j) = (ns, k)")
    case True
    then show ?thesis using h lw [of k] by (simp add: apply_writes_def entry_write_def)
  next
    case False
    then have "holds C s m j (A m j)"
      using quietD(4) [OF q, of m j] holds_agree [OF ag key_files_disjoint] holds_same_disk [OF sd, of m j]
      by (auto simp: key_files_def)
    then show ?thesis using False lw [of j] by (auto simp: apply_writes_def entry_write_def)
  qed
  moreover have "journal_at s m (frames C ((J(ns := J ns @ [e])) m))" for m
    using ja quietD(5) [OF q, of m] sd by (auto simp: journal_at_def jp frames_snoc same_disk_simps split: option.splits)
  ultimately show ?thesis
    using q \<open>idle s1\<close> idle_agree [OF ag] d e by (auto simp: quiet_def ready_def)
qed

text \<open>An operation on one key: journal it, then change the files.\<close>

definition put_value :: "('n \<Rightarrow> 'k \<Rightarrow> 'v option) \<Rightarrow> 'n \<Rightarrow> 'k \<Rightarrow> 'v option \<Rightarrow> 'n \<Rightarrow> 'k \<Rightarrow> 'v option" where
  "put_value A ns k v = A(ns := (A ns)(k := v))"

definition op_fits :: "store_codec \<Rightarrow> journal_op \<Rightarrow> bool" where
  "op_fits C op \<longleftrightarrow> (\<forall>sq now. fits C \<lparr>je_sequence = sq, je_operation = op, je_timestamp = now\<rparr>)"

definition op_writes :: "string \<Rightarrow> journal_op \<Rightarrow> string \<Rightarrow> bytes option \<Rightarrow> bool" where
  "op_writes ns op k v \<longleftrightarrow> names_ok ns k \<and> (case v of Some enc \<Rightarrow> op = StoreKey k ns enc | None \<Rightarrow> op = DeleteKey k ns)"

lemma op_fitsD: "op_fits C op \<Longrightarrow> je_operation e = op \<Longrightarrow> fits C e"
  unfolding op_fits_def by (cases e) auto

lemma op_writesD:
  assumes "op_writes ns op k v" and "je_operation e = op"
  shows "entry_ok ns e" "entry_write j e = (if j = k then Some v else None)" "apply_writes A ns [e] = put_value A ns k v"
  using assms by (auto simp: op_writes_def entry_ok_def entry_write_def apply_writes_def put_value_def fun_eq_iff split: option.splits)

lemma crash_either_recoverable:
  assumes "recoverable C J A s" and "dirs s = D" and "A = A1 \<or> A = A2"
  shows "crash_either C A1 A2 D s"
  using assms recoverable_crash [OF assms(1)] by (auto simp: crash_either_def recoverable_to_def crashed_def)

lemma key_operation_safe:
  assumes C: "codec_reads_back C" and q: "quiet C J A s0" and r: "ready s0 ns" and op: "op_fits C op" "op_writes ns op k v"
    and body: "\<And>s1. Keys_Dir ns \<in> set (dirs s1) \<Longrightarrow> safe (agree (key_files ns k) s1) m
      (\<lambda>_ s. agree (key_files ns k) s1 s \<and> holds C s ns k v) (agree (key_files ns k) s1)"
  shows "safe (\<lambda>s. s = s0) (bind_io (journal_operation C now ns op) (\<lambda>_. m))
    (\<lambda>_ s. (\<exists>J. quiet C J (put_value A ns k v) s) \<and> dirs s = dirs s0) (crash_either C A (put_value A ns k v) (dirs s0))"
    (is "safe _ _ ?Q ?C")
proof -
  let ?mid = "\<lambda>_ s. \<exists>e. je_operation e = op \<and> same_disk {Journal_File ns} s0 s \<and> idle s \<and> journal_at s ns (frames C (J ns) @ frame C e)"
  have "safe (\<lambda>s. s = s0) (journal_operation C now ns op) ?mid ?C"
  proof (rule safe_conseq [OF safe_at [OF journal_operation_safe [OF C r quietD(2,3,5) [OF q]] agree_refl [OF quietD(3) [OF q]]]])
    fix s assume "\<exists>e. je_operation e = op \<and> same_disk {Journal_File ns} s0 s \<and> journal_torn s ns (frames C (J ns)) (frame C e)"
    then obtain e where e: "je_operation e = op" "same_disk {Journal_File ns} s0 s" "journal_torn s ns (frames C (J ns)) (frame C e)"
      by blast
    have "dirs t = dirs s0" if "crashed s t" for t using that e(2) by (simp add: crashed_def same_disk_simps)
    then show "?C s"
      using crash_torn [OF C q r op_fitsD [OF op(1) e(1)] op_writesD(1) [OF op(2) e(1)] e(2,3)]
      unfolding crash_either_def recoverable_to_def op_writesD(3) [OF op(2) e(1)] by blast
  qed auto
  moreover have "safe (?mid x) m ?Q ?C" for x
  proof (rule safe_from)
    fix s1 assume "?mid x s1"
    then obtain e where e: "je_operation e = op" and sd: "same_disk {Journal_File ns} s0 s1" and "idle s1"
      and ja: "journal_at s1 ns (frames C (J ns) @ frame C e)" by blast
    note e' = op_fitsD [OF op(1) e] op_writesD [OF op(2) e]
    have rec: "recoverable C (J(ns := J ns @ [e])) (apply_writes A ns [e]) s1"
      by (rule journaled_recoverable [OF C q r e'(1,2) sd ja])
    have d: "dirs s1 = dirs s0" "tidy s1" using sd by (simp_all add: same_disk_simps)
    then have "Keys_Dir ns \<in> set (dirs s1)" using r by (simp add: ready_def)
    from safe_at [OF body [OF this] agree_refl [OF d(2)]] show "safe (\<lambda>s. s = s1) m ?Q ?C"
    proof (rule safe_conseq)
      fix y s assume "agree (key_files ns k) s1 s \<and> holds C s ns k v"
      then show "?Q y s"
        using written_quiet [OF q sd \<open>idle s1\<close> ja e'(1,3) rec] d e'(4) by (auto simp: agree_def)
    next
      fix s assume ag: "agree (key_files ns k) s1 s"
      have "last_write k ((J(ns := J ns @ [e])) ns) \<noteq> None" by (simp add: last_write_snoc e')
      from recoverable_agree [OF rec ag this] show "?C s"
        using ag d e'(4) by (intro crash_either_recoverable) (auto simp: agree_def)
    qed simp_all
  qed
  ultimately show ?thesis by (rule safe_bind)
qed

lemma store_key_safe:
  assumes C: "codec_reads_back C" and q: "quiet C J A s0" and ns: "Ns_Dir ns \<in> set (dirs s0)" "names_ok ns k"
    and enc: "encrypt_key_data C G key nonce data = Inr enc" and "op_fits C (StoreKey k ns enc)"
  shows "safe (\<lambda>s. s = s0) (store_key C G key now nonce k data ns)
    (\<lambda>_ s. (\<exists>J. quiet C J (put_value A ns k (Some enc)) s) \<and> dirs s = dirs s0)
    (crash_either C A (put_value A ns k (Some enc)) (dirs s0))"
proof -
  have r: "ready s0 ns" using q ns(1) by (simp add: quiet_def)
  have "op_writes ns (StoreKey k ns enc) k (Some enc)" using ns by (simp add: op_writes_def)
  from key_operation_safe [OF C q r assms(6) this write_encrypted_safe [OF C ns(2)]]
  show ?thesis unfolding store_key_def using ns(1) enc by (intro safe_read_state) simp
qed

lemma delete_key_safe:
  assumes C: "codec_reads_back C" and q: "quiet C J A s0" and ns: "Ns_Dir ns \<in> set (dirs s0)" "names_ok ns k"
    and v: "A ns k \<noteq> None" and "op_fits C (DeleteKey k ns)"
  shows "safe (\<lambda>s. s = s0) (delete_key C now rnd k ns)
    (\<lambda>_ s. (\<exists>J. quiet C J (put_value A ns k None) s) \<and> dirs s = dirs s0)
    (crash_either C A (put_value A ns k None) (dirs s0))"
proof -
  have r: "ready s0 ns" using q ns(1) by (simp add: quiet_def)
  have "op_writes ns (DeleteKey k ns) k None" using ns by (simp add: op_writes_def)
  from key_operation_safe [OF C q r assms(6) this delete_key_impl_safe [OF ns(2)]]
  have "safe (\<lambda>s. s = s0) (bind_io (journal_operation C now ns (DeleteKey k ns)) (\<lambda>_. delete_key_impl rnd k ns))
    (\<lambda>_ s. (\<exists>J. quiet C J (put_value A ns k None) s) \<and> dirs s = dirs s0) (crash_either C A (put_value A ns k None) (dirs s0))" .
  moreover have "file_at s0 (Key_File ns k) \<noteq> None"
    using quietD(4) [OF q, of ns k] v by (auto simp: holds_def file_is_def)
  ultimately show ?thesis unfolding delete_key_def using ns by (intro safe_read_state) (auto simp: names_ok_def)
qed

section \<open>Namespaces\<close>

definition grown :: "dir set \<Rightarrow> vault \<Rightarrow> vault \<Rightarrow> bool" where
  "grown ds s0 s \<longleftrightarrow> files s = files s0 \<and> unsynced s = unsynced s0 \<and> journals s = journals s0 \<and> set (dirs s) = set (dirs s0) \<union> ds"

lemma make_dirs_grown: "grown ds s0 s \<Longrightarrow> grown (ds \<union> set xs) s0 (make_dirs xs s)"
  by (auto simp: grown_def make_dirs_def)

lemma create_dir_grown:
  "safe (grown ds s0) (create_dir_all x) (\<lambda>_. grown (ds \<union> set (dirs_above x)) s0) (\<lambda>_. True)"
  unfolding create_dir_all_def by (rule safe_syscall) (auto simp: any_script_def grown_def make_dirs_def)

lemma quiet_grown:
  assumes q: "quiet C J A s0" and g: "grown ds s0 s" and all: "all_ready (dirs s)"
  shows "quiet C J A s"
proof -
  have f: "file_at s = file_at s0" "tidy s = tidy s0" "idle s = idle s0"
    using g by (auto simp: grown_def file_at_def tidy_def idle_def fun_eq_iff)
  have h: "holds C s = holds C s0"
    using g f by (intro ext) (simp add: holds_def file_is_def grown_def split: option.split)
  have j: "journal_at s = journal_at s0" "journal_entries C s = journal_entries C s0"
    by (simp_all add: journal_at_def journal_entries_def f fun_eq_iff)
  have r: "ready s0 ns \<Longrightarrow> ready s ns" for ns using g by (auto simp: ready_def grown_def)
  have v: "value_ok C s = value_ok C s0" by (intro ext) (simp add: value_ok_def h split: option.split)
  have "recoverable C J A s"
    using quietD(1) [OF q] g r by (auto simp: recoverable_def journal_ok_def f v j grown_def)
  then show ?thesis
    using q all by (auto simp: quiet_def f h j all_ready_def ready_def)
qed

lemma quiet_same:
  assumes q: "quiet C J A s0" and ag: "agree {} s0 s"
  shows "quiet C J A s"
proof -
  have "recovering C J A (dirs s0) {} s0" using q by (simp add: quiet_def recovering_def)
  from recovering_same [OF this ag] have rec: "recoverable C J A s" "idle s" by (simp_all add: recovering_def)
  have f: "file_at s p = file_at s0 p" "dirs s = dirs s0" for p using ag by (simp_all add: agree_def)
  have h: "holds C s ns k v = holds C s0 ns k v" for ns k v using holds_agree [OF ag] by simp
  show ?thesis
    using q rec by (auto simp: quiet_def h f journal_at_def ready_def)
qed

lemma quiet_all_ready: "quiet C J A s \<Longrightarrow> all_ready (dirs s)"
  by (simp add: quiet_def all_ready_def ready_def)

lemma create_namespace_safe:
  assumes q: "quiet C J A s0" and new: "Ns_Dir ns \<notin> set (dirs s0)"
  shows "safe (\<lambda>s. s = s0) (storage_create_namespace C ns) (\<lambda>_ s. quiet C J A s \<and> Ns_Dir ns \<in> set (dirs s)) (\<lambda>_. True)"
proof -
  let ?g = "\<lambda>ds. grown ds s0"
  let ?all = "{} \<union> set (dirs_above (Ns_Dir ns)) \<union> set (dirs_above (Keys_Dir ns)) \<union> set (dirs_above (Journal_Dir ns))"
  have impl: "safe (?g {}) (bind_io (create_dir_all (Ns_Dir ns)) (\<lambda>_. bind_io (create_dir_all (Keys_Dir ns)) (\<lambda>_.
      create_dir_all (Journal_Dir ns)))) (\<lambda>_. ?g ?all) (\<lambda>_. True)"
    by (rule safe_bind [OF create_dir_grown safe_bind [OF create_dir_grown create_dir_grown]])
  have wal: "safe (?g ?all) (bind_io (wal_new C ns) (\<lambda>_. ret ())) (\<lambda>_ s. quiet C J A s \<and> Ns_Dir ns \<in> set (dirs s)) (\<lambda>_. True)"
  proof (rule safe_from)
    fix s1 assume g: "?g ?all s1"
    have d: "set (dirs s1) = set (dirs s0) \<union> ?all" using g by (simp add: grown_def)
    then have "all_ready (dirs s1)" using quiet_all_ready [OF q] by (auto simp: all_ready_def)
    then have q1: "quiet C J A s1" by (rule quiet_grown [OF q g])
    have r: "ready s1 ns" "Ns_Dir ns \<in> set (dirs s1)" using d by (auto simp: ready_def)
    have "safe (agree {} s1) (wal_new C ns) (\<lambda>_ s. quiet C J A s \<and> Ns_Dir ns \<in> set (dirs s)) (\<lambda>_. True)"
      by (rule safe_conseq [OF wal_new_safe [OF r(1)]]) (use r quiet_same [OF q1] in \<open>auto simp: agree_def\<close>)
    then have "safe (agree {} s1) (bind_io (wal_new C ns) (\<lambda>_. ret ()))
        (\<lambda>_ s. quiet C J A s \<and> Ns_Dir ns \<in> set (dirs s)) (\<lambda>_. True)"
      by (rule safe_bind) (auto intro: safe_ret)
    then show "safe (\<lambda>s. s = s1) (bind_io (wal_new C ns) (\<lambda>_. ret ())) (\<lambda>_ s. quiet C J A s \<and> Ns_Dir ns \<in> set (dirs s)) (\<lambda>_. True)"
      using agree_refl [OF quietD(3) [OF q1]] by (rule safe_at)
  qed
  have g0: "?g {} s0" by (simp add: grown_def)
  have "create_namespace_impl ns s0 = bind_io (create_dir_all (Ns_Dir ns)) (\<lambda>_. bind_io (create_dir_all (Keys_Dir ns)) (\<lambda>_.
      create_dir_all (Journal_Dir ns))) s0"
    using new by (simp add: create_namespace_impl_def read_state_def)
  then have "storage_create_namespace C ns s0 = bind_io (bind_io (create_dir_all (Ns_Dir ns)) (\<lambda>_. bind_io (create_dir_all (Keys_Dir ns)) (\<lambda>_.
      create_dir_all (Journal_Dir ns)))) (\<lambda>_. bind_io (wal_new C ns) (\<lambda>_. ret ())) s0"
    using new by (simp add: storage_create_namespace_def read_state_def bind_io_def)
  then show ?thesis using safe_at [OF safe_bind [OF impl wal] g0] by (simp add: safe_def)
qed

end
