(* ===== verification/Plain_Codec.thy ===== *)
theory Plain_Codec
  imports Storage_Recovery
begin

text \<open>
  A serialization that satisfies what the storage relies on, for the examples: a value is a sequence of
  fields that escape their bytes, the last of them raw. It stands in for the formats of the postcard crate, which are a parameter of
  the model.
\<close>

definition put_field :: "bytes \<Rightarrow> bytes" where
  "put_field xs = concat (map (\<lambda>b. [1, b]) xs) @ [0]"

fun get_field :: "bytes \<Rightarrow> (bytes \<times> bytes) option" where
  "get_field [] = None"
| "get_field [b] = (if b = 0 then Some ([], []) else None)"
| "get_field (b # c # bs) =
     (if b = 0 then Some ([], c # bs) else map_option (\<lambda>(xs, rest). (c # xs, rest)) (get_field bs))"

lemma get_put_field [simp]: "get_field (put_field xs @ rest) = Some (xs, rest)"
proof (induction xs)
  case Nil
  then show ?case by (cases rest) (simp_all add: put_field_def)
qed (simp add: put_field_def)

lemma length_put_field [simp]: "length (put_field xs) = 2 * length xs + 1"
  by (induction xs) (simp_all add: put_field_def)

definition put_u64 :: "u64 \<Rightarrow> bytes" where
  "put_u64 w = dropWhile (\<lambda>b. b = 0) (be_digits 8 (unat w))"

definition get_u64 :: "bytes \<Rightarrow> u64" where
  "get_u64 bs = word_of_nat (be_value bs)"

lemma be_value_strip: "be_value (dropWhile (\<lambda>b. b = 0) bs) = be_value bs"
  by (induction bs) (simp_all add: be_value_def)

lemma u64_reads_back [simp]: "get_u64 (put_u64 w) = w"
proof -
  have "unat w < 256 ^ 8" using unsigned_less [of w, where ?'a = nat] by simp
  then show ?thesis by (simp add: get_u64_def put_u64_def be_value_strip be_value_digits)
qed

lemma length_put_u64: "length (put_u64 w) \<le> 8"
  using length_dropWhile_le [of "\<lambda>b. b = 0" "be_digits 8 (unat w)"] by (simp add: put_u64_def)

definition put_string :: "string \<Rightarrow> bytes" where
  "put_string s = map (\<lambda>c. word_of_nat (of_char c)) s"

definition get_string :: "bytes \<Rightarrow> string" where
  "get_string bs = map (\<lambda>b. char_of (unat b)) bs"

lemma get_put_string [simp]: "get_string (put_string s) = s"
proof -
  have "char_of (unat (word_of_nat (of_char c) :: byte)) = c" for c
    by (simp add: unsigned_of_nat take_bit_eq_mod)
  then show ?thesis by (simp add: get_string_def put_string_def comp_def map_idI)
qed

lemma length_put_string [simp]: "length (put_string s) = length s"
  by (simp add: put_string_def)

definition plain_ser_op :: "journal_op \<Rightarrow> bytes" where
  "plain_ser_op op =
     (case op of
        StoreKey k ns data \<Rightarrow> 0 # put_field (put_string k) @ put_field (put_string ns) @ data
      | DeleteKey k ns \<Rightarrow> 1 # put_field (put_string k) @ put_string ns
      | CreateNamespace ns \<Rightarrow> 2 # put_string ns
      | DeleteNamespace ns \<Rightarrow> 3 # put_string ns)"

definition plain_de_op :: "bytes \<Rightarrow> journal_op option" where
  "plain_de_op bs =
     (case bs of
        [] \<Rightarrow> None
      | t # r \<Rightarrow>
          if t = 0 then Option.bind (get_field r) (\<lambda>(k, r). map_option (\<lambda>(ns, data). StoreKey (get_string k) (get_string ns) data) (get_field r))
          else if t = 1 then map_option (\<lambda>(k, ns). DeleteKey (get_string k) (get_string ns)) (get_field r)
          else if t = 2 then Some (CreateNamespace (get_string r))
          else if t = 3 then Some (DeleteNamespace (get_string r))
          else None)"

definition plain_ser_entry :: "journal_entry \<Rightarrow> bytes" where
  "plain_ser_entry e = put_field (put_u64 (je_sequence e)) @ put_field (put_u64 (je_timestamp e)) @ plain_ser_op (je_operation e)"

definition plain_de_entry :: "bytes \<Rightarrow> journal_entry option" where
  "plain_de_entry bs =
     Option.bind (get_field bs) (\<lambda>(sq, r). Option.bind (get_field r) (\<lambda>(ts, r).
     map_option (\<lambda>op. \<lparr>je_sequence = get_u64 sq, je_operation = op, je_timestamp = get_u64 ts\<rparr>) (plain_de_op r)))"

definition plain_ser_meta :: "key_metadata \<Rightarrow> bytes" where
  "plain_ser_meta m = put_field (km_checksum m) @ put_field (put_u64 (km_timestamp m)) @ put_field (put_u64 (km_size m)) @
     put_u64 (ucast (km_version m))"

definition plain_de_meta :: "bytes \<Rightarrow> key_metadata option" where
  "plain_de_meta bs =
     Option.bind (get_field bs) (\<lambda>(c, r). Option.bind (get_field r) (\<lambda>(t, r). map_option (\<lambda>(z, v).
       \<lparr>km_checksum = c, km_timestamp = get_u64 t, km_size = get_u64 z, km_version = ucast (get_u64 v)\<rparr>) (get_field r)))"

definition parsed :: "'a option \<Rightarrow> (string, 'a) res" where
  "parsed r = ok_or ''Deserialize'' r"

definition plain_codec :: store_codec where
  "plain_codec = \<lparr>sc_sha256 = (\<lambda>bs. [fold (+) bs 0]),
     ser_entry = (\<lambda>e. Inr (plain_ser_entry e)), de_entry = (\<lambda>bs. parsed (plain_de_entry bs)),
     ser_checked = (\<lambda>c. Inr (put_field (cd_checksum c) @ cd_data c)),
     de_checked = (\<lambda>bs. parsed (map_option (\<lambda>(c, d). \<lparr>cd_data = d, cd_checksum = c\<rparr>) (get_field bs))),
     ser_meta = (\<lambda>m. Inr (plain_ser_meta m)),
     de_meta = (\<lambda>bs. parsed (plain_de_meta bs)),
     ser_encrypted = (\<lambda>e. Inr (put_field (ed_nonce e) @ ed_ciphertext e)),
     de_encrypted = (\<lambda>bs. parsed (map_option (\<lambda>(n, c). \<lparr>ed_nonce = n, ed_ciphertext = c\<rparr>) (get_field bs)))\<rparr>"

lemma plain_meta_reads_back: "plain_de_meta (plain_ser_meta m) = Some m"
proof -
  have "ucast (ucast x :: u64) = (x :: u32)" for x by (rule bit_word_eqI) (simp add: bit_simps)
  then show ?thesis by (simp add: plain_ser_meta_def plain_de_meta_def)
qed

lemma plain_codec_reads_back: "codec_reads_back plain_codec"
proof -
  have op: "plain_de_op (plain_ser_op op) = Some op" for op
    by (cases op) (simp_all add: plain_ser_op_def plain_de_op_def)
  have "plain_de_entry (plain_ser_entry e) = Some e" for e
    by (simp add: plain_ser_entry_def plain_de_entry_def op)
  then show ?thesis by (simp add: codec_reads_back_def plain_codec_def parsed_def plain_meta_reads_back)
qed

lemma plain_op_fits:
  "length k + length ns + length enc < 2 ^ 20 \<Longrightarrow> op_fits plain_codec (StoreKey k ns enc)"
  "length k + length ns < 2 ^ 20 \<Longrightarrow> op_fits plain_codec (DeleteKey k ns)"
proof -
  have short: "length (record_of plain_codec e) \<le> 40 + length (plain_ser_op (je_operation e))" for e
    using length_put_u64 [of "je_sequence e"] length_put_u64 [of "je_timestamp e"]
    by (simp add: record_of_def entry_record_def plain_codec_def plain_ser_entry_def checksummed_new_def checksum_compute_def)
  have "fits plain_codec e" if "length (plain_ser_op (je_operation e)) < 2 ^ 22" for e
    using short [of e] that by (simp add: fits_def)
  then show "length k + length ns + length enc < 2 ^ 20 \<Longrightarrow> op_fits plain_codec (StoreKey k ns enc)"
    "length k + length ns < 2 ^ 20 \<Longrightarrow> op_fits plain_codec (DeleteKey k ns)"
    by (simp_all add: op_fits_def plain_ser_op_def)
qed
end
