(* ===== verification/Storage_Runs.thy ===== *)
theory Storage_Runs
  imports Plain_Codec
begin

text \<open>
  Crash safety of the encrypted storage: after any number of crashes, at any calls and also during recovery, the
  storage holds every value whose store was acknowledged, and for an operation that was cut off either the
  value before or the value after it.
\<close>

section \<open>Runs with crashes\<close>

text \<open>After a crash the storage is opened again, which may crash as well.\<close>

inductive restarts :: "store_codec \<Rightarrow> vault \<Rightarrow> vault \<Rightarrow> bool" for C where
  opened: "crashed s t \<Longrightarrow> calm t \<Longrightarrow> storage_new C now rnd t = (s', Done (Inr ())) \<Longrightarrow> restarts C s s'"
| again: "crashed s t \<Longrightarrow> calm t \<Longrightarrow> storage_new C now rnd t = (s1, Stopped) \<Longrightarrow> restarts C s1 s' \<Longrightarrow> restarts C s s'"

lemma recoverable_to_crash: "recoverable_to C A D s \<Longrightarrow> crashed s t \<Longrightarrow> recoverable_to C A D t"
  unfolding recoverable_to_def by (metis recoverable_crash crashed_def)

lemma crash_either_same: "recoverable_to C A D s \<Longrightarrow> crash_either C A A D s"
  using recoverable_to_crash by (auto simp: crash_either_def)

lemma storage_new_result:
  assumes "codec_reads_back C" and "all_ready D" and "recoverable_to C A D t" "crashed s t" "calm t"
  shows "ends (\<lambda>_ s. quiet C (\<lambda>_. []) A s \<and> dirs s = D) (recoverable_to C A D) (storage_new C now rnd t)"
  using assms by (intro safeD [OF storage_new_safe]) (simp_all add: crashed_def)

lemma restarts_quiet:
  assumes C: "codec_reads_back C" and D: "all_ready D" and "restarts C s s'" and "crash_either C A A' D s"
  shows "\<exists>B. (B = A \<or> B = A') \<and> quiet C (\<lambda>_. []) B s' \<and> dirs s' = D"
  using assms(3,4)
proof (induction arbitrary: A A')
  case (opened s t now rnd s')
  then obtain B where B: "B = A \<or> B = A'" "recoverable_to C B D t" unfolding crash_either_def by blast
  with storage_new_result [OF C D B(2) opened(1,2), of now rnd] opened(3) show ?case by auto
next
  case (again s t now rnd s1 s')
  then obtain B where B: "B = A \<or> B = A'" "recoverable_to C B D t" unfolding crash_either_def by blast
  with storage_new_result [OF C D B(2) again(1,2), of now rnd] again(3) have "recoverable_to C B D s1" by simp
  from again.IH [OF crash_either_same [OF this]] B(1) show ?case by blast
qed

datatype vault_op = Put string string bytes | Del string string

primrec run_op :: "store_codec \<Rightarrow> gcm \<Rightarrow> bytes \<Rightarrow> u64 \<Rightarrow> bytes \<Rightarrow> (nat \<Rightarrow> bytes option) \<Rightarrow> vault_op \<Rightarrow> vault \<Rightarrow> vault \<times> unit outcome" where
  "run_op C G key now nonce rnd (Put ns k data) = store_key C G key now nonce k data ns"
| "run_op C G key now nonce rnd (Del ns k) = delete_key C now rnd k ns"

text \<open>What an operation promises, over the values that clients see.\<close>

type_synonym contents = "string \<Rightarrow> string \<Rightarrow> bytes option"

primrec effect :: "vault_op \<Rightarrow> contents \<Rightarrow> contents" where
  "effect (Put ns k data) P = put_value P ns k (Some data)"
| "effect (Del ns k) P = put_value P ns k None"

text \<open>The contents a history of operations allows; the flag tells whether the operation was acknowledged.\<close>

definition outcomes :: "(vault_op \<times> bool) list \<Rightarrow> contents set" where
  "outcomes h = foldl (\<lambda>S (op, acknowledged). effect op ` S \<union> (if acknowledged then {} else S)) {\<lambda>_ _. None} h"

text \<open>The names are valid, and the record of the operation is shorter than its 32-bit length field allows.\<close>

primrec op_allowed :: "store_codec \<Rightarrow> gcm \<Rightarrow> bytes \<Rightarrow> bytes \<Rightarrow> vault_op \<Rightarrow> bool" where
  "op_allowed C G key nonce (Put ns k data) \<longleftrightarrow> names_ok ns k \<and>
     (\<forall>enc. encrypt_key_data C G key nonce data = Inr enc \<longrightarrow> op_fits C (StoreKey k ns enc))"
| "op_allowed C G key nonce (Del ns k) \<longleftrightarrow> names_ok ns k \<and> op_fits C (DeleteKey k ns)"

definition no_failure :: "event list \<Rightarrow> bool" where
  "no_failure es \<longleftrightarrow> (\<forall>n. Fail n \<notin> set es)"

definition empty_vault :: "event list \<Rightarrow> vault" where
  "empty_vault es = \<lparr>dirs = [], files = [], unsynced = [], script = es, journals = []\<rparr>"

inductive vault_run :: "store_codec \<Rightarrow> gcm \<Rightarrow> bytes \<Rightarrow> vault \<Rightarrow> (vault_op \<times> bool) list \<Rightarrow> bool" for C G key where
  start: "no_failure es \<Longrightarrow> storage_new C now rnd (empty_vault es) = (s, Done (Inr ())) \<Longrightarrow> vault_run C G key s []"
| namespace: "vault_run C G key s h \<Longrightarrow> no_failure es \<Longrightarrow> storage_create_namespace C ns (s\<lparr>script := es\<rparr>) = (s', Done r) \<Longrightarrow> vault_run C G key s' h"
| acknowledged: "vault_run C G key s h \<Longrightarrow> no_failure es \<Longrightarrow> op_allowed C G key nonce op \<Longrightarrow>
    run_op C G key now nonce rnd op (s\<lparr>script := es\<rparr>) = (s', Done (Inr ())) \<Longrightarrow> vault_run C G key s' (h @ [(op, True)])"
| refused: "vault_run C G key s h \<Longrightarrow> no_failure es \<Longrightarrow> op_allowed C G key nonce op \<Longrightarrow>
    run_op C G key now nonce rnd op (s\<lparr>script := es\<rparr>) = (s', Done (Inl err)) \<Longrightarrow> vault_run C G key s' h"
| interrupted: "vault_run C G key s h \<Longrightarrow> no_failure es \<Longrightarrow> op_allowed C G key nonce op \<Longrightarrow>
    run_op C G key now nonce rnd op (s\<lparr>script := es\<rparr>) = (s1, Stopped) \<Longrightarrow> restarts C s1 s' \<Longrightarrow> vault_run C G key s' (h @ [(op, False)])"
| crash: "vault_run C G key s h \<Longrightarrow> restarts C s s' \<Longrightarrow> vault_run C G key s' h"

section \<open>The storage implements its specification\<close>

text \<open>What the code relies on of AES-256-GCM: encryption succeeds, and decryption with the same key and nonce undoes it.\<close>

definition gcm_decrypts :: "gcm \<Rightarrow> bytes \<Rightarrow> bool" where
  "gcm_decrypts G key \<longleftrightarrow> gcm_new G key = Inr () \<and>
     (\<forall>nonce plain. \<exists>c. gcm_encrypt G key nonce plain = Inr c \<and> gcm_decrypt G key nonce c = Inr plain)"

definition decode_value :: "store_codec \<Rightarrow> gcm \<Rightarrow> bytes \<Rightarrow> bytes \<Rightarrow> (storage_error, bytes) res" where
  "decode_value C G key enc =
     bind_res (map_err (\<lambda>m. SerializationError (''Failed to deserialize encrypted data: '' @ m)) (de_encrypted C enc))
       (master_decrypt G key)"

definition stands_for :: "store_codec \<Rightarrow> gcm \<Rightarrow> bytes \<Rightarrow> vault \<Rightarrow> contents \<Rightarrow> bool" where
  "stands_for C G key s P \<longleftrightarrow> (\<exists>J A. quiet C J A s \<and>
     (\<forall>ns k. rel_option (\<lambda>enc data. decode_value C G key enc = Inr data) (A ns k) (P ns k)))"

lemma encrypt_decode:
  assumes "codec_reads_back C" and "gcm_decrypts G key"
  shows "\<exists>enc. encrypt_key_data C G key nonce data = Inr enc \<and> decode_value C G key enc = Inr data"
proof -
  obtain c where c: "gcm_encrypt G key nonce data = Inr c" "gcm_decrypt G key nonce c = Inr data" "gcm_new G key = Inr ()"
    using assms(2) unfolding gcm_decrypts_def by blast
  obtain b where "ser_encrypted C \<lparr>ed_nonce = nonce, ed_ciphertext = c\<rparr> = Inr b"
      "de_encrypted C b = Inr \<lparr>ed_nonce = nonce, ed_ciphertext = c\<rparr>"
    using assms(1) unfolding codec_reads_back_def by blast
  with c show ?thesis
    by (simp add: encrypt_key_data_def decode_value_def master_encrypt_def master_decrypt_def)
qed

lemma rel_put_value:
  assumes "\<forall>ns k. rel_option R (A ns k) (P ns k)" and "rel_option R v w"
  shows "\<forall>m j. rel_option R (put_value A ns k v m j) (put_value P ns k w m j)"
  using assms by (simp add: put_value_def)

lemma quiet_script: "quiet C J A s \<Longrightarrow> quiet C J A (s\<lparr>script := es\<rparr>)"
  by (rule quiet_same [of C J A s]) (simp_all add: agree_refl quiet_def recoverable_def)

lemma quiet_crash_either: "quiet C J A s \<Longrightarrow> crash_either C A A (dirs s) s"
  by (rule crash_either_recoverable) (auto simp: quiet_def)

text \<open>The machine is down; opening the storage will give the contents \<open>P\<close> or \<open>P'\<close>.\<close>

definition down_with :: "store_codec \<Rightarrow> gcm \<Rightarrow> bytes \<Rightarrow> vault \<Rightarrow> contents \<Rightarrow> contents \<Rightarrow> bool" where
  "down_with C G key s P P' \<longleftrightarrow> (\<exists>A A' D. all_ready D \<and> crash_either C A A' D s \<and>
     (\<forall>ns k. rel_option (\<lambda>enc data. decode_value C G key enc = Inr data) (A ns k) (P ns k)) \<and>
     (\<forall>ns k. rel_option (\<lambda>enc data. decode_value C G key enc = Inr data) (A' ns k) (P' ns k)))"

lemma down_restarts:
  assumes "codec_reads_back C" and "down_with C G key s P P'" and "restarts C s s'"
  shows "stands_for C G key s' P \<or> stands_for C G key s' P'"
  using assms(2) restarts_quiet [OF assms(1) _ assms(3)] unfolding down_with_def stands_for_def by blast

lemma stands_for_down: "stands_for C G key s P \<Longrightarrow> down_with C G key s P P"
  unfolding stands_for_def down_with_def using quiet_crash_either quiet_all_ready by blast

definition op_result :: "store_codec \<Rightarrow> gcm \<Rightarrow> bytes \<Rightarrow> contents \<Rightarrow> vault_op \<Rightarrow> vault \<times> unit outcome \<Rightarrow> bool" where
  "op_result C G key P op r = (case r of
      (s', Done (Inr _)) \<Rightarrow> stands_for C G key s' (effect op P)
    | (s', Done (Inl _)) \<Rightarrow> stands_for C G key s' P
    | (s', Stopped) \<Rightarrow> down_with C G key s' P (effect op P))"

lemma op_result_safe:
  assumes q: "quiet C J A s" and "calm s"
    and rel: "\<forall>ns k. rel_option (\<lambda>enc data. decode_value C G key enc = Inr data) (A ns k) (P ns k)"
    and vw: "rel_option (\<lambda>enc data. decode_value C G key enc = Inr data) v w" and eff: "effect op P = put_value P ns k w"
    and safe: "safe (\<lambda>t. t = s) m (\<lambda>_ t. (\<exists>J. quiet C J (put_value A ns k v) t) \<and> dirs t = dirs s)
      (crash_either C A (put_value A ns k v) (dirs s))"
  shows "op_result C G key P op (m s)"
proof -
  have rel': "\<forall>m j. rel_option (\<lambda>enc data. decode_value C G key enc = Inr data) (put_value A ns k v m j) (effect op P m j)"
    unfolding eff by (rule rel_put_value [OF rel vw])
  have sf: "stands_for C G key t (effect op P)" if "quiet C J' (put_value A ns k v) t" for t J'
    using that rel' unfolding stands_for_def by blast
  have dw: "down_with C G key t P (effect op P)" if "crash_either C A (put_value A ns k v) (dirs s) t" for t
    using that rel rel' quiet_all_ready [OF q] unfolding down_with_def by blast
  have e: "ends (\<lambda>_ t. (\<exists>J. quiet C J (put_value A ns k v) t) \<and> dirs t = dirs s) (crash_either C A (put_value A ns k v) (dirs s)) (m s)"
    using \<open>calm s\<close> by (intro safeD [OF safe]) simp_all
  then show ?thesis
    using sf dw by (cases "(\<lambda>(_ :: unit) (_ :: vault). True, \<lambda>_ :: vault. True, m s)" rule: ends.cases) (auto simp: op_result_def)
qed

lemma run_op_result:
  assumes C: "codec_reads_back C" and G: "gcm_decrypts G key" and s: "stands_for C G key s P" "calm s"
    and op: "op_allowed C G key nonce op"
  shows "op_result C G key P op (run_op C G key now nonce rnd op s)"
proof -
  obtain J A where q: "quiet C J A s"
    and rel: "\<forall>ns k. rel_option (\<lambda>enc data. decode_value C G key enc = Inr data) (A ns k) (P ns k)"
    using s(1) unfolding stands_for_def by blast
  show ?thesis
  proof (cases op)
    case (Put ns k data)
    obtain enc where enc: "encrypt_key_data C G key nonce data = Inr enc" "decode_value C G key enc = Inr data"
      using encrypt_decode [OF C G] by blast
    have "op_result C G key P (Put ns k data) (store_key C G key now nonce k data ns s)"
    proof (cases "Ns_Dir ns \<in> set (dirs s)")
      case True
      then show ?thesis
        by (intro op_result_safe [OF q s(2) rel _ _ store_key_safe [OF C q]])
          (use op Put enc in \<open>auto\<close>)
    next
      case False
      then show ?thesis using s(1) by (simp add: store_key_def read_state_def throw_def op_result_def)
    qed
    then show ?thesis by (simp add: Put)
  next
    case (Del ns k)
    have "op_result C G key P (Del ns k) (delete_key C now rnd k ns s)"
    proof (cases "Ns_Dir ns \<in> set (dirs s) \<and> A ns k \<noteq> None")
      case True
      then show ?thesis
        by (intro op_result_safe [OF q s(2) rel _ _ delete_key_safe [OF C q]]) (use op Del in \<open>auto\<close>)
    next
      case False
      then have "Ns_Dir ns \<notin> set (dirs s) \<or> file_at s (Key_File ns k) = None"
        using quietD(4) [OF q, of ns k] by (auto simp: holds_def)
      moreover have "get_key_file_path ns k = Inr (Key_File ns k)" using op Del by (simp add: names_ok_def)
      ultimately show ?thesis
        using s(1) by (auto simp: delete_key_def read_state_def throw_def op_result_def)
    qed
    then show ?thesis by (simp add: Del)
  qed
qed

lemma empty_storage:
  "safe (\<lambda>s. s = empty_vault es) (storage_new C now rnd) (\<lambda>_. quiet C (\<lambda>_. []) (\<lambda>_ _. None)) (\<lambda>_. True)"
proof -
  let ?e = "empty_vault es"
  let ?D = "{} \<union> set (dirs_above Base_Dir) \<union> set (dirs_above Namespaces_Dir)"
  have reset: "safe (grown ?D ?e) (read_state (\<lambda>s t. (t\<lparr>journals := []\<rparr>, Done (Inr ())))) (\<lambda>_. grown ?D ?e) (\<lambda>_. True)"
    by (simp add: safe_def read_state_def grown_def calm_def empty_vault_def)
  have names: "namespace_names s = []" if "grown ?D ?e s" for s
    using that by (simp add: namespace_names_def grown_def empty_vault_def)
  have q: "quiet C (\<lambda>_. []) (\<lambda>_ _. None) s" if "grown ?D ?e s" for s
    using that by (auto simp: quiet_def recoverable_def grown_def empty_vault_def tidy_def idle_def journal_ok_def journal_at_def
        journal_entries_def value_ok_def holds_def file_at_def frames_def)
  have rec: "safe (grown ?D ?e) (recover C now rnd) (\<lambda>_. quiet C (\<lambda>_. []) (\<lambda>_ _. None)) (\<lambda>_. True)"
    unfolding recover_def
  proof (rule safe_read_state)
    fix s assume s: "grown ?D ?e s"
    have look: "safe (grown ?D ?e) (syscall id nothing) (\<lambda>_. grown ?D ?e) (\<lambda>_. True)"
      by (intro safe_syscall) (auto simp: any_script_def grown_def)
    have "safe (grown ?D ?e) (bind_io (syscall id nothing) (\<lambda>_. ret ())) (\<lambda>_. quiet C (\<lambda>_. []) (\<lambda>_ _. None)) (\<lambda>_. True)"
      by (intro safe_bind [OF look] safe_ret q)
    from safe_at [OF this s] show "safe (\<lambda>t. t = s) (if Namespaces_Dir \<notin> set (dirs s) then ret ()
        else bind_io (syscall id nothing) (\<lambda>_. each (recover_namespace C now rnd) (namespace_names s)))
        (\<lambda>_. quiet C (\<lambda>_. []) (\<lambda>_ _. None)) (\<lambda>_. True)"
      using s by (simp add: names grown_def)
  qed
  have "grown {} ?e ?e" by (simp add: grown_def)
  then show ?thesis
    unfolding storage_new_def
    by (rule safe_at [rotated]) (rule safe_bind [OF create_dir_grown safe_bind [OF create_dir_grown safe_bind [OF reset rec]]])
qed

lemma outcomes_simps:
  "outcomes [] = {\<lambda>_ _. None}"
  "outcomes (h @ [(op, True)]) = effect op ` outcomes h"
  "outcomes (h @ [(op, False)]) = effect op ` outcomes h \<union> outcomes h"
  by (simp_all add: outcomes_def)

lemma stands_for_script: "stands_for C G key s P \<Longrightarrow> stands_for C G key (s\<lparr>script := es\<rparr>) P"
  unfolding stands_for_def using quiet_script by blast

lemma calm_script: "no_failure es \<Longrightarrow> calm (s\<lparr>script := es\<rparr>)"
  by (simp add: no_failure_def calm_def)

lemma restarts_stands_for:
  "codec_reads_back C \<Longrightarrow> stands_for C G key s P \<Longrightarrow> restarts C s s' \<Longrightarrow> stands_for C G key s' P"
  using down_restarts [OF _ stands_for_down] by blast

lemma create_namespace_stands_for:
  assumes "stands_for C G key s P" and "calm s" and "storage_create_namespace C ns s = (s', Done r)"
  shows "stands_for C G key s' P"
proof -
  obtain J A where q: "quiet C J A s"
    and rel: "\<forall>ns k. rel_option (\<lambda>enc data. decode_value C G key enc = Inr data) (A ns k) (P ns k)"
    using assms(1) unfolding stands_for_def by blast
  have "quiet C J A s'"
  proof (cases "Ns_Dir ns \<in> set (dirs s)")
    case True
    then show ?thesis using assms(3) q by (simp add: storage_create_namespace_def read_state_def throw_def)
  next
    case False
    from safeD [OF create_namespace_safe [OF q this] assms(2)] show ?thesis using assms(3) by (cases r) auto
  qed
  with rel show ?thesis unfolding stands_for_def by blast
qed

lemma vault_run_stands_for:
  assumes C: "codec_reads_back C" and G: "gcm_decrypts G key" and "vault_run C G key s h"
  shows "\<exists>P\<in>outcomes h. stands_for C G key s P"
  using assms(3)
proof induction
  case (start es now rnd s)
  have "calm (empty_vault es)" using start(1) by (simp add: no_failure_def calm_def empty_vault_def)
  from safeD [OF empty_storage this refl, of C now rnd] start(2) have "quiet C (\<lambda>_. []) (\<lambda>_ _. None) s" by auto
  then have "stands_for C G key s (\<lambda>_ _. None)" unfolding stands_for_def by fastforce
  then show ?case by (simp add: outcomes_simps)
next
  case (namespace s h es ns s' r)
  then show ?case using create_namespace_stands_for [OF stands_for_script calm_script] by blast
next
  case (acknowledged s h es nonce op now rnd s')
  then obtain P where P: "P \<in> outcomes h" "stands_for C G key s P" by blast
  from run_op_result [OF C G stands_for_script [OF P(2)] calm_script [OF acknowledged(2)] acknowledged(3), of now rnd] acknowledged(4)
  have "stands_for C G key s' (effect op P)" by (simp add: op_result_def)
  with P(1) show ?case by (auto simp: outcomes_simps)
next
  case (refused s h es nonce op now rnd s' err)
  then obtain P where P: "P \<in> outcomes h" "stands_for C G key s P" by blast
  from run_op_result [OF C G stands_for_script [OF P(2)] calm_script [OF refused(2)] refused(3), of now rnd] refused(4) P(1)
  show ?case by (auto simp: op_result_def)
next
  case (interrupted s h es nonce op now rnd s1 s')
  then obtain P where P: "P \<in> outcomes h" "stands_for C G key s P" by blast
  from run_op_result [OF C G stands_for_script [OF P(2)] calm_script [OF interrupted(2)] interrupted(3), of now rnd]
  have "down_with C G key s1 P (effect op P)" using interrupted(4) by (simp add: op_result_def)
  from down_restarts [OF C this interrupted(5)] have "stands_for C G key s' P \<or> stands_for C G key s' (effect op P)" .
  with P(1) show ?case by (auto simp: outcomes_simps)
next
  case (crash s h s')
  then show ?case using restarts_stands_for [OF C] by blast
qed

section \<open>Reading\<close>

lemma syscall_undisturbed: "script s = [] \<Longrightarrow> syscall full partial s = (full s, Done (Inr ()))"
  by (simp add: syscall_def)

lemma read_file_undisturbed: "script s = [] \<Longrightarrow> file_at s p = Some f \<Longrightarrow> read_file p s = (s, Done (Inr (file_content f)))"
  by (simp add: read_file_def read_state_def syscall_undisturbed bind_io_def ret_def)

lemma load_key_quiet:
  assumes q: "quiet C J A s" and "script s = []" and ns: "Ns_Dir ns \<in> set (dirs s)" "names_ok ns k"
  shows "load_key C G key k ns s =
    (s, Done (case A ns k of None \<Rightarrow> Inl (KeyNotFound k) | Some enc \<Rightarrow> decode_value C G key enc))"
proof (cases "A ns k")
  case None
  then have "file_at s (Key_File ns k) = None" using quietD(4) [OF q, of ns k] by (simp add: holds_def)
  then show ?thesis
    using ns None names_ok_meta [OF ns(2)] by (simp add: load_key_def read_state_def names_ok_def throw_def)
next
  case (Some enc)
  then obtain f g where f: "file_at s (Key_File ns k) = Some f" "file_content f = enc"
    and g: "file_at s (Meta_File ns k) = Some g" "meta_ok C (file_content g) enc"
    using quietD(4) [OF q, of ns k] by (auto simp: holds_def file_is_def)
  obtain km where "de_meta C (file_content g) = Inr km" "metadata_verify C km enc = Inr ()" using g(2) by (auto simp: meta_ok_def)
  then show ?thesis
    using ns Some f g names_ok_meta [OF ns(2)] \<open>script s = []\<close>
    by (simp add: load_key_def read_state_def names_ok_def bind_io_def read_file_undisturbed decode_value_def lift_res_def ret_def
        split: sum.split)
qed

section \<open>Opening always completes\<close>

text \<open>When the environment does not intervene, a program ends.\<close>

definition undisturbed :: "('x disk_scheme \<Rightarrow> 'x disk_scheme \<times> 'a outcome) \<Rightarrow> bool" where
  "undisturbed m \<longleftrightarrow> (\<forall>s. script s = [] \<longrightarrow> script (fst (m s)) = [] \<and> snd (m s) \<noteq> Stopped)"

named_theorems undisturbed_rules

lemma undisturbed_basic [undisturbed_rules]:
  "undisturbed (ret x)" "undisturbed (throw e)" "undisturbed (lift_res r)" "undisturbed no_parent"
  by (simp_all add: undisturbed_def ret_def throw_def lift_res_def no_parent_def)

lemma undisturbed_bind [undisturbed_rules]: "undisturbed m \<Longrightarrow> (\<And>x. undisturbed (f x)) \<Longrightarrow> undisturbed (bind_io m f)"
  unfolding undisturbed_def bind_io_def
  by (auto split: prod.split outcome.split sum.split)

lemma undisturbed_read_state [undisturbed_rules]: "(\<And>s. undisturbed (f s)) \<Longrightarrow> undisturbed (read_state f)"
  by (simp add: undisturbed_def read_state_def)

lemma undisturbed_if [undisturbed_rules]: "undisturbed m \<Longrightarrow> undisturbed m' \<Longrightarrow> undisturbed (if b then m else m')"
  by simp

lemma undisturbed_option [undisturbed_rules]:
  "undisturbed m \<Longrightarrow> (\<And>x. undisturbed (f x)) \<Longrightarrow> undisturbed (case z of None \<Rightarrow> m | Some x \<Rightarrow> f x)"
  by (simp split: option.split)

lemma undisturbed_ignore [undisturbed_rules]: "undisturbed m \<Longrightarrow> undisturbed (ignore m)"
  unfolding undisturbed_def ignore_def by (auto split: prod.split outcome.split)

lemma undisturbed_each [undisturbed_rules]: "(\<And>x. undisturbed (f x)) \<Longrightarrow> undisturbed (each f xs)"
  by (induction xs) (auto intro: undisturbed_rules)

lemma undisturbed_syscall: "(\<And>s. script (full s) = script s) \<Longrightarrow> undisturbed (syscall full partial)"
  by (simp add: undisturbed_def syscall_def)

lemma script_drop_files [simp]: "script (drop_files ps d) = script d"
  by (induction ps arbitrary: d) (simp_all add: drop_files_def)

lemma undisturbed_calls [undisturbed_rules]:
  "undisturbed (create_dir_all x)" "undisturbed (write_all p bs)" "undisturbed (sync_all p)" "undisturbed (remove_file p)"
  "undisturbed (create_restricted_file p)" "undisturbed (read_file p)" "undisturbed (remove_namespace_dir ns)"
  unfolding create_dir_all_def write_all_def sync_all_def remove_file_def create_restricted_file_def read_file_def
    remove_namespace_dir_def
  by (intro undisturbed_rules undisturbed_syscall; simp)+

lemma undisturbed_journal [undisturbed_rules]:
  "undisturbed (replay C ns)" "undisturbed (wal_new C ns)" "undisturbed (wal_truncate ns w)"
  unfolding wal_new_def wal_truncate_def read_last_sequence_def replay_def by (intro undisturbed_rules)+

lemma undisturbed_apply_entry [undisturbed_rules]: "undisturbed (apply_entry C now rnd e)"
proof -
  have rm: "undisturbed (secure_remove rnd p)" for p
    unfolding secure_remove_def overwrite_def by (intro undisturbed_rules undisturbed_syscall) simp_all
  show ?thesis
    unfolding apply_entry_def write_encrypted_to_disk_def delete_key_impl_def create_namespace_impl_def delete_namespace_impl_def
    by (cases "je_operation e"; simp only: journal_op.case; intro undisturbed_rules rm)
qed

lemma undisturbed_storage_new: "undisturbed (storage_new C now rnd)"
proof -
  have "undisturbed (\<lambda>t. (t\<lparr>journals := []\<rparr>, Done (Inr ())))" by (simp add: undisturbed_def)
  then show ?thesis
    unfolding storage_new_def recover_def recover_namespace_def by (intro undisturbed_rules undisturbed_syscall) simp_all
qed

text \<open>The states in which the machine may be down, during an operation or while it is recovering.\<close>

inductive machine_down :: "store_codec \<Rightarrow> gcm \<Rightarrow> bytes \<Rightarrow> vault \<Rightarrow> bool" for C G key where
  between: "vault_run C G key s h \<Longrightarrow> machine_down C G key s"
| operating: "vault_run C G key s h \<Longrightarrow> no_failure es \<Longrightarrow> op_allowed C G key nonce op \<Longrightarrow>
    run_op C G key now nonce rnd op (s\<lparr>script := es\<rparr>) = (s1, Stopped) \<Longrightarrow> machine_down C G key s1"
| restarting: "machine_down C G key s \<Longrightarrow> crashed s t \<Longrightarrow> calm t \<Longrightarrow> storage_new C now rnd t = (s1, Stopped) \<Longrightarrow>
    machine_down C G key s1"

lemma down_opens:
  assumes "codec_reads_back C" and "down_with C G key s P P'" and "crashed s t" and "calm t"
  shows "ends (\<lambda>_ s'. stands_for C G key s' P \<or> stands_for C G key s' P') (\<lambda>s'. down_with C G key s' P P \<or> down_with C G key s' P' P')
    (storage_new C now rnd t)"
proof -
  obtain A A' D where D: "all_ready D" and c: "crash_either C A A' D s"
    and rel: "\<forall>ns k. rel_option (\<lambda>enc data. decode_value C G key enc = Inr data) (A ns k) (P ns k)"
      "\<forall>ns k. rel_option (\<lambda>enc data. decode_value C G key enc = Inr data) (A' ns k) (P' ns k)"
    using assms(2) unfolding down_with_def by blast
  obtain B where B: "B = A \<or> B = A'" "recoverable_to C B D t" using c assms(3) unfolding crash_either_def by blast
  show ?thesis
    by (rule ends_mono [OF storage_new_result [OF assms(1) D B(2) assms(3,4)]])
      (use B(1) rel D crash_either_same in \<open>unfold stands_for_def down_with_def, blast+\<close>)
qed

lemma machine_down_with:
  assumes "codec_reads_back C" and "gcm_decrypts G key" and "machine_down C G key s"
  shows "\<exists>P P'. down_with C G key s P P'"
  using assms(3)
proof induction
  case (between s h)
  then show ?case using vault_run_stands_for [OF assms(1,2)] stands_for_down by blast
next
  case (operating s h es nonce op now rnd s1)
  then obtain P where "stands_for C G key s P" using vault_run_stands_for [OF assms(1,2)] by blast
  from run_op_result [OF assms(1,2) stands_for_script [OF this] calm_script [OF operating(2)] operating(3), of now rnd] operating(4)
  show ?case by (auto simp: op_result_def)
next
  case (restarting s t now rnd s1)
  then obtain P P' where "down_with C G key s P P'" by blast
  from down_opens [OF assms(1) this restarting(2,3), of now rnd] restarting(4) show ?case by auto
qed

section \<open>Journals that are cut short\<close>

lemma replay_take:
  assumes C: "codec_reads_back C" and "\<forall>e\<in>set es. fits C e"
  shows "\<exists>j. replay_buffer C (take n (frames C es)) = take j es \<and> length (frames C (take j es)) \<le> n \<and>
    (j < length es \<longrightarrow> n < length (frames C (take (Suc j) es)))"
  using assms(2)
proof (induction es arbitrary: n)
  case Nil
  then show ?case by (subst replay_buffer.simps) (simp add: frames_def)
next
  case (Cons e es)
  have split: "frames C (e # xs) = frame C e @ frames C xs" for xs by (simp add: frames_def)
  show ?case
  proof (cases "n < length (frame C e)")
    case True
    then have "replay_buffer C (take n (frames C (e # es))) = []"
      using replay_torn [of C e n] Cons.prems by (simp add: split)
    with True show ?thesis by (intro exI [of _ 0]) (simp add: split, simp add: frames_def)
  next
    case False
    obtain j where j: "replay_buffer C (take (n - length (frame C e)) (frames C es)) = take j es"
        "length (frames C (take j es)) \<le> n - length (frame C e)"
        "j < length es \<longrightarrow> n - length (frame C e) < length (frames C (take (Suc j) es))"
      using Cons.IH [of "n - length (frame C e)"] Cons.prems by auto
    have "replay_buffer C (take n (frames C (e # es))) = e # take j es"
      using replay_frame [OF C, of e] j(1) Cons.prems False by (simp add: split)
    with j(2,3) False show ?thesis by (intro exI [of _ "Suc j"]) (auto simp: split)
  qed
qed

end
