(* ===== verification/Storage_Examples.thy ===== *)
theory Storage_Examples
  imports Storage_Runs
begin

text \<open>
  The storage on concrete inputs, with the plain serialization: a run with a crash, and two ways in which a failed
  operation damages the journal.
\<close>

section \<open>Execution by rewriting\<close>

text \<open>Programs are only unfolded where they are applied to a state.\<close>

lemma exec_cong:
  "s = s' \<Longrightarrow> bind_io m f s = bind_io m f s'"
  "s = s' \<Longrightarrow> read_state g s = read_state g s'"
  "s = s' \<Longrightarrow> ignore m s = ignore m s'"
  by simp_all

lemma exec_eqs:
  "bind_io m f s = (case m s of (s', Stopped) \<Rightarrow> (s', Stopped) | (s', Done (Inl e)) \<Rightarrow> (s', Done (Inl e)) | (s', Done (Inr x)) \<Rightarrow> f x s')"
  "read_state g s = g s s"
  "ret y s = (s, Done (Inr y))" "throw er s = (s, Done (Inl er))" "lift_res r s = (s, Done r)"
  by (simp_all add: bind_io_def read_state_def ret_def throw_def lift_res_def)

lemmas exec_ops = store_key_def journal_operation_def get_or_create_journal_def wal_new_def create_dir_all_def wal_commit_def
  write_entry_def write_all_def open_append_def sync_all_def set_permissions_def write_encrypted_to_disk_def
  create_restricted_file_def put_journal_def storage_create_namespace_def create_namespace_impl_def storage_new_def recover_def
  recover_namespace_def namespace_names_def put_file_def file_at_def make_dirs_def extend_file_def mark_synced_def nothing_def
  wal_append_def syscall_def read_file_def load_key_def apply_entry_def replay_def read_last_sequence_def wal_truncate_def
  remove_file_def drop_file_def Let_def

lemmas exec = exec_ops exec_eqs entry_record_total [OF plain_codec_reads_back]

section \<open>The example\<close>

definition plain_gcm :: gcm where
  "plain_gcm = \<lparr>gcm_new = (\<lambda>_. Inr ()),
     gcm_encrypt = (\<lambda>key nonce plain. Inr (map (\<lambda>b. b + sum_list key) plain)),
     gcm_decrypt = (\<lambda>key nonce cipher. Inr (map (\<lambda>b. b - sum_list key) cipher))\<rparr>"

lemma plain_gcm_decrypts: "gcm_decrypts plain_gcm key"
  by (simp add: gcm_decrypts_def plain_gcm_def comp_def)

definition example_put :: "string \<Rightarrow> bytes \<Rightarrow> event list \<Rightarrow> vault \<Rightarrow> vault \<times> unit outcome" where
  "example_put k data es s = store_key plain_codec plain_gcm [1] 7 [2] k data ''n'' (s\<lparr>script := es\<rparr>)"

definition example_open :: "vault \<Rightarrow> vault \<times> unit outcome" where
  "example_open s = storage_new plain_codec 9 (\<lambda>_. None) s"

definition example_get :: "string \<Rightarrow> vault \<Rightarrow> bytes outcome" where
  "example_get k s = snd (load_key plain_codec plain_gcm [1] k ''n'' (s\<lparr>script := []\<rparr>))"

definition example_vault :: vault where
  "example_vault = fst (storage_create_namespace plain_codec ''n'' (fst (example_open (empty_vault []))))"

text \<open>A crash that keeps everything that was written.\<close>

definition restart_of :: "vault \<Rightarrow> vault" where
  "restart_of s = \<lparr>dirs = dirs s, files = map (\<lambda>(p, f). (p, f\<lparr>stable := length (file_content f)\<rparr>)) (files s), unsynced = [],
     script = [], journals = []\<rparr>"

lemma restart_crashed:
  assumes "\<And>p f. (p, f) \<in> set (files s) \<Longrightarrow> stable f \<le> length (file_content f) \<and> (p \<in> set (unsynced s) \<or> stable f = length (file_content f))"
  shows "crashed s (restart_of s)"
proof -
  have at: "file_at (restart_of s) p = map_option (\<lambda>f. f\<lparr>stable := length (file_content f)\<rparr>) (file_at s p)" for p
    by (simp add: file_at_def restart_of_def map_of_map)
  have "crash_file s p (file_at (restart_of s) p)" for p
  proof (cases "file_at s p")
    case (Some f)
    then have f: "stable f \<le> length (file_content f)" "p \<in> set (unsynced s) \<or> stable f = length (file_content f)"
      using assms [of p f] map_of_SomeD [of "files s" p f] by (simp_all add: file_at_def)
    then show ?thesis
      using Some by (cases p) (auto simp: crash_file_def at intro!: exI [of _ "length (file_content f)"])
  qed (simp add: crash_file_def at)
  then show ?thesis by (simp add: crashed_def restart_of_def)
qed

lemma example_enc: "encrypt_key_data plain_codec plain_gcm [1] [2] data = Inr (1 # 2 # 0 # map (\<lambda>b. b + 1) data)"
  by (simp add: encrypt_key_data_def master_encrypt_def plain_gcm_def plain_codec_def put_field_def)

lemma example_vault_eq:
  "example_vault = \<lparr>dirs = [Base_Dir, Namespaces_Dir, Ns_Dir ''n'', Keys_Dir ''n'', Journal_Dir ''n''],
    files = [], unsynced = [], script = [], journals = []\<rparr>"
  by (simp add: example_vault_def example_open_def empty_vault_def exec cong: exec_cong)

lemma example_paths [simp]:
  "get_key_file_path ''n'' ''k'' = Inr (Key_File ''n'' ''k'')" "get_meta_file_path ''n'' ''k'' = Inr (Meta_File ''n'' ''k'')"
  "get_key_file_path ''n'' ''j'' = Inr (Key_File ''n'' ''j'')" "get_meta_file_path ''n'' ''j'' = Inr (Meta_File ''n'' ''j'')"
  "get_key_file_path ''n'' ''..'' = Inl (OperationFailed ''Invalid key ID: contains path traversal characters'')"
  by code_simp+

lemma example_codec [simp]:
  "ser_meta plain_codec m = Inr (plain_ser_meta m)" "de_meta plain_codec (plain_ser_meta m) = Inr m"
  "de_encrypted plain_codec (1 # 2 # 0 # xs) = Inr \<lparr>ed_nonce = [2], ed_ciphertext = xs\<rparr>"
  by (simp_all add: plain_codec_def parsed_def plain_meta_reads_back) (cases xs; simp)

abbreviation example_entry :: "u64 \<Rightarrow> string \<Rightarrow> bytes \<Rightarrow> journal_entry" where
  "example_entry sq k enc \<equiv> \<lparr>je_sequence = sq, je_operation = StoreKey k ''n'' enc, je_timestamp = 7\<rparr>"

lemma example_replay [simp]:
  assumes "length k + length enc < 1000"
  shows "replay_buffer plain_codec (put_len (length (record_of plain_codec (example_entry sq k enc))) @
    record_of plain_codec (example_entry sq k enc)) = [example_entry sq k enc]"
proof -
  have "op_fits plain_codec (StoreKey k ''n'' enc)" by (rule plain_op_fits) (use assms in simp)
  then have "fits plain_codec (example_entry sq k enc)" by (simp add: op_fits_def)
  from replay_frame [OF plain_codec_reads_back this, of "[]"] show ?thesis
    by (simp add: frame_def replay_buffer_code)
qed

definition synced :: "bytes \<Rightarrow> fnode" where
  "synced bs = \<lparr>file_content = bs, stable = length bs\<rparr>"

definition vault_with :: "(path \<times> fnode) list \<Rightarrow> path list \<Rightarrow> (string \<times> wal) list \<Rightarrow> vault" where
  "vault_with fs us js = \<lparr>dirs = [Base_Dir, Namespaces_Dir, Ns_Dir ''n'', Keys_Dir ''n'', Journal_Dir ''n''],
    files = fs, unsynced = us, script = [], journals = js\<rparr>"

definition meta_of :: "u64 \<Rightarrow> bytes \<Rightarrow> bytes" where
  "meta_of now enc = plain_ser_meta (metadata_new plain_codec now enc)"

lemmas example_defs = example_put_def example_open_def restart_of_def synced_def vault_with_def meta_of_def frame_def example_vault_eq
  example_enc

lemma example_stored:
  "example_put ''k'' [5] [] example_vault =
    (vault_with [(Journal_File ''n'', synced (frame plain_codec (example_entry 1 ''k'' [1, 2, 0, 6]))),
       (Key_File ''n'' ''k'', synced [1, 2, 0, 6]), (Meta_File ''n'' ''k'', synced (meta_of 7 [1, 2, 0, 6]))] []
       [(''n'', \<lparr>wal_sequence = 1, wal_pending = []\<rparr>)], Done (Inr ()))"
  by (simp add: example_defs exec cong: exec_cong)

lemma example_reopened:
  "example_open (restart_of (fst (example_put ''k'' [5] [] example_vault))) =
    (vault_with [(Key_File ''n'' ''k'', synced [1, 2, 0, 6]), (Meta_File ''n'' ''k'', synced (meta_of 9 [1, 2, 0, 6]))] [] [], Done (Inr ()))"
  unfolding example_stored by (simp add: example_defs exec cong: exec_cong)

abbreviation torn_journal :: bytes where
  "torn_journal \<equiv> put_len (length (record_of plain_codec (example_entry 1 ''j'' [1, 2, 0, 8]))) @
     take 1 (record_of plain_codec (example_entry 1 ''j'' [1, 2, 0, 8]))"

lemma example_failed:
  "example_put ''j'' [7] [Proceed, Proceed, Proceed, Fail 1]
     (vault_with [(Key_File ''n'' ''k'', synced [1, 2, 0, 6]), (Meta_File ''n'' ''k'', synced (meta_of 9 [1, 2, 0, 6]))] [] []) =
   (vault_with [(Key_File ''n'' ''k'', synced [1, 2, 0, 6]), (Meta_File ''n'' ''k'', synced (meta_of 9 [1, 2, 0, 6])),
      (Journal_File ''n'', \<lparr>file_content = torn_journal, stable = 0\<rparr>)] [Journal_File ''n'']
      [(''n'', \<lparr>wal_sequence = 1, wal_pending = [example_entry 1 ''j'' [1, 2, 0, 8]]\<rparr>)], Done (Inl (Io ''I/O error'')))"
  by (simp add: example_defs exec cong: exec_cong)

lemma example_interrupted:
  "example_put ''k'' [8] (replicate 8 Proceed @ [Crash 0])
     (vault_with [(Key_File ''n'' ''k'', synced [1, 2, 0, 6]), (Meta_File ''n'' ''k'', synced (meta_of 9 [1, 2, 0, 6])),
      (Journal_File ''n'', \<lparr>file_content = torn_journal, stable = 0\<rparr>)] [Journal_File ''n'']
      [(''n'', \<lparr>wal_sequence = 1, wal_pending = [example_entry 1 ''j'' [1, 2, 0, 8]]\<rparr>)]) =
   (vault_with [(Key_File ''n'' ''k'', \<lparr>file_content = [], stable = 0\<rparr>), (Meta_File ''n'' ''k'', synced (meta_of 9 [1, 2, 0, 6])),
      (Journal_File ''n'', synced (torn_journal @ frames plain_codec [example_entry 1 ''j'' [1, 2, 0, 8], example_entry 2 ''k'' [1, 2, 0, 9]]))]
      [Key_File ''n'' ''k''] [(''n'', \<lparr>wal_sequence = 2, wal_pending = []\<rparr>)], Stopped)"
  by (simp add: example_defs exec frames_def eval_nat_numeral cong: exec_cong)

lemma example_bytes:
  "put_u64 1 = [1]" "put_u64 2 = [2]" "put_u64 7 = [7]" "put_string ''j'' = [106]" "put_string ''k'' = [107]"
  "put_string ''n'' = [110]" "put_len 20 = [20, 0, 0, 0]" "digit_char 4 = CHR ''4''" "digit_char 0 = CHR ''0''"
  by code_simp+

lemma example_lengths: "get_len [20, 0, 0, 0] = 20" "get_len [0, 1, 2, 0] = 131328" "show_nat 4 = ''4''" "show_nat 0 = ''0''"
  by (simp_all add: get_len_def be_value_def show_nat.simps example_bytes)

lemma example_records:
  "record_of plain_codec (example_entry 1 ''j'' [1, 2, 0, 8]) = [1, 239, 0, 1, 1, 0, 1, 7, 0, 0, 1, 106, 0, 1, 110, 0, 1, 2, 0, 8]"
  "record_of plain_codec (example_entry 2 ''k'' [1, 2, 0, 9]) = [1, 242, 0, 1, 2, 0, 1, 7, 0, 0, 1, 107, 0, 1, 110, 0, 1, 2, 0, 9]"
  by (simp_all add: record_of_def entry_record_def plain_codec_def plain_ser_entry_def plain_ser_op_def checksummed_new_def
      checksum_compute_def put_field_def example_bytes)

lemma example_frames:
  "put_len (length (record_of plain_codec (example_entry 1 ''j'' [1, 2, 0, 8]))) = [20, 0, 0, 0]"
  "put_len (length (record_of plain_codec (example_entry 2 ''k'' [1, 2, 0, 9]))) = [20, 0, 0, 0]"
proof -
  have "length (record_of plain_codec (example_entry 1 ''j'' [1, 2, 0, 8])) = 20"
      "length (record_of plain_codec (example_entry 2 ''k'' [1, 2, 0, 9])) = 20"
    by (simp_all add: example_records)
  then show "put_len (length (record_of plain_codec (example_entry 1 ''j'' [1, 2, 0, 8]))) = [20, 0, 0, 0]"
      "put_len (length (record_of plain_codec (example_entry 2 ''k'' [1, 2, 0, 9]))) = [20, 0, 0, 0]"
    by (simp_all only: example_bytes)
qed

lemma example_torn:
  "replay_buffer plain_codec (torn_journal @ frames plain_codec [example_entry 1 ''j'' [1, 2, 0, 8], example_entry 2 ''k'' [1, 2, 0, 9]]) = []"
proof -
  let ?bad = "[1, 20, 0, 0, 0, 1, 239, 0, 1, 1, 0, 1, 7, 0, 0, 1, 106, 0, 1, 110] :: bytes"
  let ?rest = "[0, 1, 2, 0, 8, 20, 0, 0, 0, 1, 242, 0, 1, 2, 0, 1, 7, 0, 0, 1, 107, 0, 1, 110, 0, 1, 2, 0, 9] :: bytes"
  have bytes: "torn_journal @ frames plain_codec [example_entry 1 ''j'' [1, 2, 0, 8], example_entry 2 ''k'' [1, 2, 0, 9]] =
      [20, 0, 0, 0] @ ?bad @ ?rest"
    unfolding frames_def frame_def list.map example_frames unfolding example_records by simp
  have "read_record plain_codec ?bad = []"
    by (simp add: read_record_def plain_codec_def parsed_def into_verified_data_def checksum_verify_def checksum_compute_def)
  moreover have "replay_buffer plain_codec ?rest = []" by (subst replay_buffer.simps) (simp add: example_lengths)
  ultimately show ?thesis
    unfolding bytes by (subst replay_buffer.simps) (simp add: example_lengths)
qed

lemma example_lost:
  "example_open (restart_of (vault_with [(Key_File ''n'' ''k'', \<lparr>file_content = [], stable = 0\<rparr>), (Meta_File ''n'' ''k'', synced (meta_of 9 [1, 2, 0, 6])),
      (Journal_File ''n'', synced (torn_journal @ frames plain_codec [example_entry 1 ''j'' [1, 2, 0, 8], example_entry 2 ''k'' [1, 2, 0, 9]]))]
      [Key_File ''n'' ''k''] [(''n'', \<lparr>wal_sequence = 2, wal_pending = []\<rparr>)])) =
   (vault_with [(Key_File ''n'' ''k'', synced []), (Meta_File ''n'' ''k'', synced (meta_of 9 [1, 2, 0, 6]))] [] [], Done (Inr ()))"
  using example_torn by (simp add: example_defs exec cong: exec_cong)

lemma example_unreadable:
  "example_get ''k'' (vault_with [(Key_File ''n'' ''k'', synced []), (Meta_File ''n'' ''k'', synced (meta_of 9 [1, 2, 0, 6]))] [] []) =
    Done (Inl (CorruptionDetected ''Size mismatch: expected 4, got 0''))"
  by (simp add: example_get_def example_defs exec metadata_verify_def metadata_new_def example_lengths cong: exec_cong)

lemma example_poisoned:
  "example_put ''..'' [5] [] example_vault =
    (vault_with [(Journal_File ''n'', synced (frame plain_codec (example_entry 1 ''..'' [1, 2, 0, 6])))] []
       [(''n'', \<lparr>wal_sequence = 1, wal_pending = []\<rparr>)],
     Done (Inl (OperationFailed ''Invalid key ID: contains path traversal characters'')))"
  by (simp add: example_defs exec cong: exec_cong)

text \<open>A crash while a namespace is created leaves a namespace that refuses stores, and the first store blocks the storage.\<close>

lemma half_created_namespace:
  "let stopped = storage_create_namespace plain_codec ''n'' ((fst (example_open (empty_vault [])))\<lparr>script := [Proceed, Crash 0]\<rparr>);
       opened = example_open (restart_of (fst stopped));
       refused = example_put ''k'' [5] [] (fst opened)
   in snd stopped = Stopped \<and> snd opened = Done (Inr ()) \<and>
     snd (storage_create_namespace plain_codec ''n'' (fst opened)) = Done (Inl (OperationFailed ''Namespace already exists: n'')) \<and>
     snd refused = Done (Inl (Io ''No such file or directory'')) \<and>
     snd (example_open (restart_of (fst refused))) = Done (Inl (Io ''No such file or directory''))"
  by (simp add: example_defs empty_vault_def no_parent_def exec cong: exec_cong)

text \<open>The master key is written and not synchronised.\<close>

lemma master_key_unsynced:
  "create_with_new_key C G now rnd kek nonce key (empty_vault []) = (s, Done (Inr key)) \<Longrightarrow> Master_File \<in> set (unsynced s)"
  by (auto simp: create_with_new_key_def master_save_def empty_vault_def exec cong: exec_cong split: sum.splits)

end
