(* ===== verification/Storage_Properties.thy ===== *)
theory Storage_Properties
  imports Storage_Examples
begin

text \<open>The properties of the encrypted storage.\<close>

section \<open>A run with a crash\<close>

definition example_history :: "(vault_op \<times> bool) list" where
  "example_history = [(Put ''n'' ''k'' [5], True), (Put ''n'' ''k'' [8], False)]"

definition example_final :: vault where
  "example_final = vault_with [(Key_File ''n'' ''k'', synced [1, 2, 0, 6]), (Meta_File ''n'' ''k'', synced (meta_of 9 [1, 2, 0, 6]))] [] []"

lemma example_started: "vault_run plain_codec plain_gcm [1] example_vault []"
proof -
  let ?s = "fst (example_open (empty_vault []))"
  have e: "example_open (empty_vault []) = (?s, Done (Inr ()))" "?s\<lparr>script := []\<rparr> = ?s"
    by (simp_all add: example_open_def empty_vault_def exec cong: exec_cong)
  have run: "vault_run plain_codec plain_gcm [1] ?s []"
    by (rule vault_run.start [of "[]" plain_codec 9 "\<lambda>_. None"]) (use e in \<open>simp_all add: example_open_def no_failure_def\<close>)
  have "storage_create_namespace plain_codec ''n'' (?s\<lparr>script := []\<rparr>) = (example_vault, Done (Inr ()))"
    unfolding e(2) example_vault_def by (simp add: example_open_def empty_vault_def exec cong: exec_cong)
  from vault_run.namespace [OF run _ this] show ?thesis by (simp add: no_failure_def)
qed

lemma example_allowed: "length data < 100 \<Longrightarrow> op_allowed plain_codec plain_gcm [1] [2] (Put ''n'' ''k'' data)"
  using plain_op_fits(1) [of "''k''" "''n''" "1 # 2 # 0 # map (\<lambda>b. b + 1) data"] by (simp add: example_enc names_ok_def)

lemma example_acknowledged:
  "vault_run plain_codec plain_gcm [1] (fst (example_put ''k'' [5] [] example_vault)) [(Put ''n'' ''k'' [5], True)]"
proof -
  have "run_op plain_codec plain_gcm [1] 7 [2] (\<lambda>_. None) (Put ''n'' ''k'' [5]) (example_vault\<lparr>script := []\<rparr>) =
      (fst (example_put ''k'' [5] [] example_vault), Done (Inr ()))"
    using example_stored by (simp add: example_put_def prod_eq_iff)
  from vault_run.acknowledged [OF example_started _ example_allowed this] show ?thesis by (simp add: no_failure_def)
qed

definition example_stopped :: vault where
  "example_stopped = fst (example_put ''k'' [8] [Crash 0] (fst (example_put ''k'' [5] [] example_vault)))"

lemma example_stopped_eq:
  "example_put ''k'' [8] [Crash 0] (fst (example_put ''k'' [5] [] example_vault)) = (example_stopped, Stopped)"
  "restart_of example_stopped = restart_of (fst (example_put ''k'' [5] [] example_vault))"
  unfolding example_stopped_def example_stored by (simp_all add: example_defs exec cong: exec_cong)

lemma example_stopped_crashed: "crashed example_stopped (restart_of example_stopped)"
  by (rule restart_crashed, unfold example_stopped_def example_stored) (auto simp: example_defs exec cong: exec_cong)

lemma example_run: "vault_run plain_codec plain_gcm [1] example_final example_history"
proof -
  have "storage_new plain_codec 9 (\<lambda>_. None) (restart_of example_stopped) = (example_final, Done (Inr ()))"
    unfolding example_stopped_eq(2) using example_reopened by (simp add: example_open_def example_final_def)
  from restarts.opened [OF example_stopped_crashed _ this] have r: "restarts plain_codec example_stopped example_final"
    by (simp add: calm_def restart_of_def)
  have "run_op plain_codec plain_gcm [1] 7 [2] (\<lambda>_. None) (Put ''n'' ''k'' [8])
      ((fst (example_put ''k'' [5] [] example_vault))\<lparr>script := [Crash 0]\<rparr>) = (example_stopped, Stopped)"
    using example_stopped_eq(1) by (simp add: example_put_def)
  from vault_run.interrupted [OF example_acknowledged _ example_allowed this r]
  show ?thesis by (simp add: no_failure_def example_history_def)
qed

section \<open>Properties\<close>





text \<open>C26: A journal that a crash cut off at any byte replays to a prefix of its entries, which has every entry whose record is complete, and
  no other; a partial record at the end is dropped. Each record is shorter than its 32-bit length field can express.\<close>

theorem cut_journal_replays_complete_entries:
  assumes "codec_reads_back C" and "\<forall>e\<in>set es. fits C e"
  shows "\<exists>j. replay_buffer C (take n (frames C es)) = take j es \<and> length (frames C (take j es)) \<le> n \<and>
    (j < length es \<longrightarrow> n < length (frames C (take (Suc j) es)))"
  by (rule replay_take [OF assms])

theorem cut_journal_replays_complete_entries_witness:
  "replay_buffer plain_codec (take 30 (frames plain_codec [example_entry 1 ''j'' [1, 2, 0, 8], example_entry 2 ''k'' [1, 2, 0, 9]])) =
    [example_entry 1 ''j'' [1, 2, 0, 8]]"
proof -
  let ?es = "[example_entry 1 ''j'' [1, 2, 0, 8], example_entry 2 ''k'' [1, 2, 0, 9]]"
  have len: "length (frame plain_codec (example_entry 1 ''j'' [1, 2, 0, 8])) = 24"
      "length (frame plain_codec (example_entry 2 ''k'' [1, 2, 0, 9])) = 24"
    by (simp_all add: frame_def example_records)
  then have fits: "\<forall>e\<in>set ?es. fits plain_codec e" by (simp add: fits_def example_records)
  obtain j where j: "replay_buffer plain_codec (take 30 (frames plain_codec ?es)) = take j ?es"
      "length (frames plain_codec (take j ?es)) \<le> 30" "j < length ?es \<longrightarrow> 30 < length (frames plain_codec (take (Suc j) ?es))"
    using cut_journal_replays_complete_entries [OF plain_codec_reads_back fits, of 30] by blast
  consider "j = 0" | "j = 1" | "2 \<le> j" by linarith
  then have "j = 1"
  proof cases
    case 3
    then have "take j ?es = ?es" by simp
    then show ?thesis using j(2) len by (simp add: frames_def)
  qed (use j(3) len in \<open>auto simp: frames_def\<close>)
  with j(1) show ?thesis by simp
qed


text \<open>An operation that is rejected can make the storage unusable. A store with the key identifier \<^verbatim>\<open>..\<close> returns an error, but it was
  journaled before the identifier was checked, so that opening the storage later fails with the same error.\<close>

theorem rejected_store_blocks_opening:
  "snd (example_put ''..'' [5] [] example_vault) = Done (Inl (OperationFailed ''Invalid key ID: contains path traversal characters'')) \<and>
   snd (example_open (restart_of (fst (example_put ''..'' [5] [] example_vault)))) =
     Done (Inl (OperationFailed ''Invalid key ID: contains path traversal characters''))"
  unfolding example_poisoned by (simp add: example_defs exec cong: exec_cong)
end
