(* ===== verification/Secret_Types.thy ===== *)
theory Secret_Types
  imports Hsm_Prelude "HOL-Library.AList"
begin

text \<open>
  Secrets, their paths and versions: \<^verbatim>\<open>crates/secrets/src/secret.rs\<close> and \<^verbatim>\<open>version.rs\<close>. JSON values are a type parameter,
  hash maps association lists, instants nanoseconds. Wiping memory is not modelled.
\<close>

section \<open>Errors and paths\<close>

datatype secret_error =
    InvalidPath string
  | SecretNotFound string
  | VersionNotFound u32
  | SecretAlreadyExists string
  | AccessDenied
  | LeaseExpired
  | RotationFailed string
  | SecretStorageError string
  | SecretEncryption string
  | SecretDecryption string
  | SecretSerializationError string

fun has_double_slash :: "string \<Rightarrow> bool" where
  "has_double_slash (a # b # cs) \<longleftrightarrow> (a = CHR ''/'' \<and> b = CHR ''/'') \<or> has_double_slash (b # cs)"
| "has_double_slash _ \<longleftrightarrow> False"

definition path_new :: "string \<Rightarrow> (secret_error, string) res" where
  "path_new path =
     (if path = [] then Inl (InvalidPath ''Path cannot be empty'')
      else if hd path \<noteq> CHR ''/'' then Inl (InvalidPath ''Path must start with /'')
      else if has_double_slash path then Inl (InvalidPath ''Path cannot contain //'')
      else Inr path)"

definition path_join :: "string \<Rightarrow> string \<Rightarrow> (secret_error, string) res" where
  "path_join path segment =
     (if segment = [] then Inl (InvalidPath ''Segment cannot be empty'')
      else if CHR ''/'' \<in> set segment then Inl (InvalidPath ''Segment cannot contain /'')
      else path_new (if path \<noteq> [] \<and> last path = CHR ''/'' then path @ segment else path @ ''/'' @ segment))"

definition trim_end_slashes :: "string \<Rightarrow> string" where
  "trim_end_slashes s = rev (dropWhile (\<lambda>c. c = CHR ''/'') (rev s))"

text \<open>What comes before and after the last slash.\<close>

definition before_last_slash :: "string \<Rightarrow> string" where
  "before_last_slash s = rev (tl (dropWhile (\<lambda>c. c \<noteq> CHR ''/'') (rev s)))"

definition after_last_slash :: "string \<Rightarrow> string" where
  "after_last_slash s = rev (takeWhile (\<lambda>c. c \<noteq> CHR ''/'') (rev s))"

definition path_parent :: "string \<Rightarrow> string option" where
  "path_parent s =
     (let path = trim_end_slashes s in
      if path = [] then None
      else if CHR ''/'' \<notin> set path then None
      else let parent = before_last_slash path in Some (if parent = [] then ''/'' else parent))"

definition path_name :: "string \<Rightarrow> string" where
  "path_name s = after_last_slash (trim_end_slashes s)"

definition path_starts_with :: "string \<Rightarrow> string \<Rightarrow> bool" where
  "path_starts_with path pre \<longleftrightarrow> take (length pre) path = pre"

section \<open>Metadata and data\<close>

datatype rotation_interval = Seconds u64 | Days u32 | Cron string | Manual

fun as_seconds :: "rotation_interval \<Rightarrow> u64 option" where
  "as_seconds (Seconds s) = Some s"
| "as_seconds (Days d) = Some (ucast d * 24 * 60 * 60)"
| "as_seconds (Cron _) = None"
| "as_seconds Manual = None"

record 'j rotation_config =
  rc_interval :: rotation_interval
  rc_engine :: string
  rc_config :: 'j
  rc_last_rotated_at :: "int option"
  rc_next_rotation_at :: "int option"

definition rotation_config_new :: "'j \<Rightarrow> rotation_interval \<Rightarrow> string \<Rightarrow> 'j rotation_config" where
  "rotation_config_new json_null i e =
     \<lparr>rc_interval = i, rc_engine = e, rc_config = json_null, rc_last_rotated_at = None, rc_next_rotation_at = None\<rparr>"

record 'j secret_metadata =
  md_labels :: "(string \<times> string) list"
  md_description :: "string option"
  md_rotation :: "'j rotation_config option"
  md_expires_at :: "int option"
  md_owner :: "string option"

definition metadata_default :: "'j secret_metadata" where
  "metadata_default = \<lparr>md_labels = [], md_description = None, md_rotation = None, md_expires_at = None, md_owner = None\<rparr>"

definition metadata_with_label :: "'j secret_metadata \<Rightarrow> string \<Rightarrow> string \<Rightarrow> 'j secret_metadata" where
  "metadata_with_label m k v = m\<lparr>md_labels := AList.update k v (md_labels m)\<rparr>"

datatype 'j secret_value = SString string | SBinary bytes | SJson 'j

definition value_as_str :: "'j secret_value \<Rightarrow> string option" where
  "value_as_str v = (case v of SString s \<Rightarrow> Some s | _ \<Rightarrow> None)"

definition value_as_bytes :: "('j \<Rightarrow> string) \<Rightarrow> 'j secret_value \<Rightarrow> bytes" where
  "value_as_bytes json_text v = (case v of SString s \<Rightarrow> str_bytes s | SBinary b \<Rightarrow> b | SJson j \<Rightarrow> str_bytes (json_text j))"

definition value_type_name :: "'j secret_value \<Rightarrow> string" where
  "value_type_name v = (case v of SString _ \<Rightarrow> ''string'' | SBinary _ \<Rightarrow> ''binary'' | SJson _ \<Rightarrow> ''json'')"

type_synonym 'j secret_data = "(string \<times> 'j secret_value) list"

definition data_insert :: "'j secret_data \<Rightarrow> string \<Rightarrow> 'j secret_value \<Rightarrow> 'j secret_data" where
  "data_insert d k v = AList.update k v d"

definition data_get :: "'j secret_data \<Rightarrow> string \<Rightarrow> 'j secret_value option" where
  "data_get d k = map_of d k"

definition data_remove :: "'j secret_data \<Rightarrow> string \<Rightarrow> 'j secret_data \<times> 'j secret_value option" where
  "data_remove d k = (AList.delete k d, map_of d k)"

record 'j secret =
  sec_id :: string
  sec_path :: string
  sec_current_version :: u32
  sec_metadata :: "'j secret_metadata"
  sec_created_at :: int
  sec_updated_at :: int

section \<open>Versions and their retention\<close>

record encrypted_secret_data =
  esd_algorithm :: string
  esd_key_id :: string
  esd_ciphertext :: bytes
  esd_nonce :: bytes

definition unencrypted_placeholder :: encrypted_secret_data where
  "unencrypted_placeholder = \<lparr>esd_algorithm = ''none'', esd_key_id = ''none'', esd_ciphertext = [], esd_nonce = []\<rparr>"

record secret_version =
  sv_secret_id :: string
  sv_version :: u32
  sv_data :: encrypted_secret_data
  sv_created_at :: int
  sv_created_by :: "string option"
  sv_destroyed :: bool
  sv_destroyed_at :: "int option"

definition secret_version_new :: "int \<Rightarrow> string \<Rightarrow> u32 \<Rightarrow> encrypted_secret_data \<Rightarrow> string option \<Rightarrow> secret_version" where
  "secret_version_new now sid v d by_whom =
     \<lparr>sv_secret_id = sid, sv_version = v, sv_data = d, sv_created_at = now, sv_created_by = by_whom, sv_destroyed = False, sv_destroyed_at = None\<rparr>"

definition destroy :: "int \<Rightarrow> secret_version \<Rightarrow> secret_version" where
  "destroy now v = (if \<not> sv_destroyed v then v\<lparr>sv_destroyed := True, sv_destroyed_at := Some now\<rparr> else v)"

definition version_is_usable :: "secret_version \<Rightarrow> bool" where
  "version_is_usable v \<longleftrightarrow> \<not> sv_destroyed v"

record version_policy =
  vp_max_versions :: "u32 option"
  vp_min_retention :: "int option"
  vp_auto_destroy :: bool

definition version_policy_default :: version_policy where
  "version_policy_default = \<lparr>vp_max_versions = Some 10, vp_min_retention = Some (7 * 86400000000000), vp_auto_destroy = False\<rparr>"

definition keep_all :: version_policy where
  "keep_all = \<lparr>vp_max_versions = None, vp_min_retention = None, vp_auto_destroy = False\<rparr>"

definition keep_latest_only :: version_policy where
  "keep_latest_only = \<lparr>vp_max_versions = Some 1, vp_min_retention = None, vp_auto_destroy = True\<rparr>"

definition cleanup_due :: "version_policy \<Rightarrow> int \<Rightarrow> nat \<Rightarrow> secret_version \<Rightarrow> bool" where
  "cleanup_due p now i v =
     (if sv_destroyed v then False
      else (case vp_max_versions p of
          Some mx \<Rightarrow> i \<ge> unat mx \<and> (case vp_min_retention p of Some ret \<Rightarrow> now - sv_created_at v > ret | None \<Rightarrow> True)
        | None \<Rightarrow> False) \<and> vp_auto_destroy p)"

definition versions_to_cleanup :: "version_policy \<Rightarrow> int \<Rightarrow> secret_version list \<Rightarrow> u32 list" where
  "versions_to_cleanup p now versions =
     (let sorted = sort_key (\<lambda>v. - uint (sv_version v)) versions in
      map (\<lambda>(i, v). sv_version v) (filter (\<lambda>(i, v). cleanup_due p now i v) (zip [0..<length sorted] sorted)))"

definition can_cleanup :: "version_policy \<Rightarrow> int \<Rightarrow> secret_version \<Rightarrow> u32 \<Rightarrow> bool" where
  "can_cleanup p now v current =
     (if sv_version v = current then False
      else if sv_destroyed v then False
      else case vp_min_retention p of Some ret \<Rightarrow> \<not> now - sv_created_at v \<le> ret | None \<Rightarrow> True)"

end
