(* ===== verification/Secret_Leases.thy ===== *)
theory Secret_Leases
  imports Secret_Types
begin

text \<open>
  Leases on secrets: \<^verbatim>\<open>crates/secrets/src/lease.rs\<close>. Each operation runs under the lock of the table and is one step. The task that an
  operation spawns to look at a lease later is a step of its own, \<open>expire_task\<close>, that may run at any time: it looks at the clock itself. Events
  go into a channel of 1000 places and are dropped when it is full.
\<close>

record lease =
  ls_id :: string
  ls_secret_id :: string
  ls_version :: u32
  ls_client_id :: string
  ls_created_at :: int
  ls_expires_at :: int
  ls_revoked :: bool
  ls_renewable :: bool
  ls_max_ttl :: "int option"

definition lease_is_valid :: "int \<Rightarrow> lease \<Rightarrow> bool" where
  "lease_is_valid now l \<longleftrightarrow> \<not> ls_revoked l \<and> now < ls_expires_at l"

definition remaining_time :: "int \<Rightarrow> lease \<Rightarrow> int" where
  "remaining_time now l =
     (if ls_revoked l then 0 else let remaining = ls_expires_at l - now in if remaining < 0 then 0 else remaining)"

definition remaining_seconds :: "int \<Rightarrow> lease \<Rightarrow> int" where
  "remaining_seconds now l = remaining_time now l div 1000000000"

record lease_config =
  lc_default_ttl :: int
  lc_max_ttl :: int
  lc_renewable :: bool

definition lease_config_default :: lease_config where
  "lease_config_default = \<lparr>lc_default_ttl = 3600000000000, lc_max_ttl = 24 * 3600000000000, lc_renewable = True\<rparr>"

datatype lease_event = LeaseExpiredEvent string | LeaseRevokedEvent string | LeaseRenewedEvent string int

datatype lease_error = LeaseNotFound | LeaseRevoked | LeaseErrorExpired | LeaseNotRenewable

record lease_manager =
  lm_leases :: "(string \<times> lease) list"
  lm_config :: lease_config
  lm_events :: "lease_event list"

definition lease_manager_new :: "lease_config \<Rightarrow> lease_manager" where
  "lease_manager_new c = \<lparr>lm_leases = [], lm_config = c, lm_events = []\<rparr>"

definition try_send :: "lease_event list \<Rightarrow> lease_event \<Rightarrow> lease_event list" where
  "try_send es e = (if length es < 1000 then es @ [e] else es)"

definition put_lease :: "lease_manager \<Rightarrow> string \<Rightarrow> lease \<Rightarrow> lease_manager" where
  "put_lease m lid l = m\<lparr>lm_leases := AList.update lid l (lm_leases m)\<rparr>"

definition send_event :: "lease_manager \<Rightarrow> lease_event \<Rightarrow> lease_manager" where
  "send_event m e = m\<lparr>lm_events := try_send (lm_events m) e\<rparr>"

definition create_lease :: "string \<Rightarrow> int \<Rightarrow> lease_manager \<Rightarrow> string \<Rightarrow> u32 \<Rightarrow> string \<Rightarrow> int option \<Rightarrow> lease_manager \<times> lease" where
  "create_lease uuid now m sid v client ttl =
     (let ttl1 = (case ttl of Some t \<Rightarrow> t | None \<Rightarrow> lc_default_ttl (lm_config m));
          ttl2 = min ttl1 (lc_max_ttl (lm_config m));
          l = \<lparr>ls_id = uuid, ls_secret_id = sid, ls_version = v, ls_client_id = client, ls_created_at = now, ls_expires_at = now + ttl2,
            ls_revoked = False, ls_renewable = lc_renewable (lm_config m), ls_max_ttl = Some (lc_max_ttl (lm_config m))\<rparr>
      in (put_lease m uuid l, l))"

definition expire_task :: "int \<Rightarrow> lease_manager \<Rightarrow> string \<Rightarrow> lease_manager" where
  "expire_task now m lid =
     (case map_of (lm_leases m) lid of
        Some l \<Rightarrow>
          if \<not> ls_revoked l \<and> now \<ge> ls_expires_at l
          then send_event (put_lease m lid (l\<lparr>ls_revoked := True\<rparr>)) (LeaseExpiredEvent lid)
          else m
      | None \<Rightarrow> m)"

definition renew_lease :: "int \<Rightarrow> lease_manager \<Rightarrow> string \<Rightarrow> int option \<Rightarrow> lease_manager \<times> (lease_error, lease) res" where
  "renew_lease now m lid increment =
     (case map_of (lm_leases m) lid of
        None \<Rightarrow> (m, Inl LeaseNotFound)
      | Some l \<Rightarrow>
          if ls_revoked l then (m, Inl LeaseRevoked)
          else if \<not> ls_renewable l then (m, Inl LeaseNotRenewable)
          else if now \<ge> ls_expires_at l then (put_lease m lid (l\<lparr>ls_revoked := True\<rparr>), Inl LeaseErrorExpired)
          else
            let inc = (case increment of Some t \<Rightarrow> t | None \<Rightarrow> lc_default_ttl (lm_config m));
                new_expires = now + inc;
                max_expires = ls_created_at l + (case ls_max_ttl l of Some t \<Rightarrow> t | None \<Rightarrow> lc_max_ttl (lm_config m));
                l' = l\<lparr>ls_expires_at := min new_expires max_expires\<rparr>
            in (send_event (put_lease m lid l') (LeaseRenewedEvent lid (ls_expires_at l')), Inr l'))"

definition revoke_lease :: "lease_manager \<Rightarrow> string \<Rightarrow> lease_manager \<times> (lease_error, unit) res" where
  "revoke_lease m lid =
     (case map_of (lm_leases m) lid of
        None \<Rightarrow> (m, Inl LeaseNotFound)
      | Some l \<Rightarrow>
          (if \<not> ls_revoked l then send_event (put_lease m lid (l\<lparr>ls_revoked := True\<rparr>)) (LeaseRevokedEvent lid) else m, Inr ()))"

definition revoke_all :: "lease_manager \<Rightarrow> string \<Rightarrow> lease_manager \<times> nat" where
  "revoke_all m sid =
     (let hit = (\<lambda>l. ls_secret_id l = sid \<and> \<not> ls_revoked l) in
      (m\<lparr>lm_leases := map (\<lambda>(lid, l). (lid, if hit l then l\<lparr>ls_revoked := True\<rparr> else l)) (lm_leases m),
         lm_events := fold (\<lambda>(lid, l) es. if hit l then try_send es (LeaseRevokedEvent (ls_id l)) else es) (lm_leases m) (lm_events m)\<rparr>,
       length (filter (\<lambda>(lid, l). hit l) (lm_leases m))))"

definition validate_lease :: "int \<Rightarrow> lease_manager \<Rightarrow> string \<Rightarrow> (lease_error, lease) res" where
  "validate_lease now m lid =
     (case map_of (lm_leases m) lid of
        None \<Rightarrow> Inl LeaseNotFound
      | Some l \<Rightarrow> if ls_revoked l then Inl LeaseRevoked else if now \<ge> ls_expires_at l then Inl LeaseErrorExpired else Inr l)"

definition get_lease :: "lease_manager \<Rightarrow> string \<Rightarrow> lease option" where
  "get_lease m lid = map_of (lm_leases m) lid"

definition list_client_leases :: "int \<Rightarrow> lease_manager \<Rightarrow> string \<Rightarrow> lease list" where
  "list_client_leases now m client = filter (\<lambda>l. ls_client_id l = client \<and> lease_is_valid now l) (map snd (lm_leases m))"

definition list_secret_leases :: "int \<Rightarrow> lease_manager \<Rightarrow> string \<Rightarrow> lease list" where
  "list_secret_leases now m sid = filter (\<lambda>l. ls_secret_id l = sid \<and> lease_is_valid now l) (map snd (lm_leases m))"

definition active_lease_count :: "int \<Rightarrow> lease_manager \<Rightarrow> nat" where
  "active_lease_count now m = length (filter (lease_is_valid now) (map snd (lm_leases m)))"

definition cleanup_leases :: "int \<Rightarrow> lease_manager \<Rightarrow> lease_manager \<times> nat" where
  "cleanup_leases now m =
     (let to_remove = map fst (filter (\<lambda>(lid, l). ls_revoked l \<or> now \<ge> ls_expires_at l) (lm_leases m)) in
      (m\<lparr>lm_leases := fold AList.delete to_remove (lm_leases m)\<rparr>, length to_remove))"

end
