(* ===== verification/Aes_Engine.thy ===== *)
theory Aes_Engine
  imports Hsm_Prelude
begin

text \<open>
  Authenticated encryption of the crypto engine: \<^verbatim>\<open>crates/crypto-engine/src/symmetric/aes_gcm.rs\<close> and \<^verbatim>\<open>error.rs\<close>. The ciphers
  AES-256-GCM and AES-128-GCM of the crate \<^verbatim>\<open>aes_gcm\<close> are parameters: from key, nonce, associated data and message to the
  ciphertext with its tag, and back. A drawn nonce is an argument, \<open>None\<close> when the system has no entropy.
\<close>

datatype crypto_error =
    InvalidKey string
  | InvalidKeySize nat nat
  | InvalidSignatureSize nat nat
  | SignatureVerificationFailed
  | MessageTooLarge nat
  | PlaintextTooLarge nat
  | CiphertextTooSmall nat nat
  | InvalidNonceSize nat nat
  | EncryptionFailed string
  | DecryptionFailed string
  | InvalidAlgorithm string
  | InsufficientEntropy
  | CryptoInternal string

fun show_crypto_error :: "crypto_error \<Rightarrow> string" where
  "show_crypto_error (InvalidKey s) = ''Invalid key format: '' @ s"
| "show_crypto_error (InvalidKeySize e a) = ''Invalid key size: expected '' @ show_nat e @ '', got '' @ show_nat a"
| "show_crypto_error (InvalidSignatureSize e a) = ''Invalid signature size: expected '' @ show_nat e @ '', got '' @ show_nat a"
| "show_crypto_error SignatureVerificationFailed = ''Signature verification failed''"
| "show_crypto_error (MessageTooLarge n) = ''Message too large: '' @ show_nat n @ '' bytes (max allowed varies by algorithm)''"
| "show_crypto_error (PlaintextTooLarge n) = ''Plaintext too large: '' @ show_nat n @ '' bytes''"
| "show_crypto_error (CiphertextTooSmall e a) = ''Ciphertext too small: expected at least '' @ show_nat e @ '', got '' @ show_nat a"
| "show_crypto_error (InvalidNonceSize e a) = ''Invalid nonce size: expected '' @ show_nat e @ '', got '' @ show_nat a"
| "show_crypto_error (EncryptionFailed s) = ''Encryption failed: '' @ s"
| "show_crypto_error (DecryptionFailed s) = ''Decryption failed: '' @ s"
| "show_crypto_error (InvalidAlgorithm s) = ''Invalid algorithm: '' @ s"
| "show_crypto_error InsufficientEntropy = ''Insufficient entropy''"
| "show_crypto_error (CryptoInternal s) = ''Internal error: '' @ s"

record aead =
  ae_seal :: "bytes \<Rightarrow> bytes \<Rightarrow> bytes \<Rightarrow> bytes \<Rightarrow> (string, bytes) res"
  ae_open :: "bytes \<Rightarrow> bytes \<Rightarrow> bytes \<Rightarrow> bytes \<Rightarrow> (string, bytes) res"

record ciphers =
  aes256 :: aead
  aes128 :: aead

definition MAX_PLAINTEXT_SIZE :: nat where
  "MAX_PLAINTEXT_SIZE = 64 * 1024 * 1024"

definition MIN_CIPHERTEXT_SIZE :: nat where
  "MIN_CIPHERTEXT_SIZE = 12 + 16"

definition or_empty :: "bytes option \<Rightarrow> bytes" where
  "or_empty a = (case a of Some x \<Rightarrow> x | None \<Rightarrow> [])"

text \<open>The part of an operation on one message behind the checks of its arguments.\<close>

definition seal_message :: "aead \<Rightarrow> bytes \<Rightarrow> bytes option \<Rightarrow> bytes option \<Rightarrow> bytes \<Rightarrow> (crypto_error, bytes) res" where
  "seal_message C key aad nonce plaintext =
     bind_res (ok_or InsufficientEntropy nonce) (\<lambda>nonce_bytes.
     bind_res (map_err EncryptionFailed (ae_seal C key nonce_bytes (or_empty aad) plaintext)) (\<lambda>ciphertext.
     Inr (nonce_bytes @ ciphertext)))"

definition open_message :: "aead \<Rightarrow> bytes \<Rightarrow> bytes option \<Rightarrow> bytes \<Rightarrow> (crypto_error, bytes) res" where
  "open_message C key aad ciphertext_with_nonce =
     map_err DecryptionFailed (ae_open C key (take 12 ciphertext_with_nonce) (or_empty aad) (drop 12 ciphertext_with_nonce))"

definition check_key :: "nat \<Rightarrow> bytes \<Rightarrow> (crypto_error, unit) res" where
  "check_key n key = (if length key \<noteq> n then Inl (InvalidKeySize n (length key)) else Inr ())"

definition check_plaintext :: "bytes \<Rightarrow> (crypto_error, unit) res" where
  "check_plaintext m = (if length m > MAX_PLAINTEXT_SIZE then Inl (PlaintextTooLarge (length m)) else Inr ())"

definition check_ciphertext :: "bytes \<Rightarrow> (crypto_error, unit) res" where
  "check_ciphertext c = (if length c < MIN_CIPHERTEXT_SIZE then Inl (CiphertextTooSmall MIN_CIPHERTEXT_SIZE (length c)) else Inr ())"

definition encrypt_aes256 :: "ciphers \<Rightarrow> bytes option \<Rightarrow> bytes \<Rightarrow> bytes \<Rightarrow> bytes option \<Rightarrow> (crypto_error, bytes) res" where
  "encrypt_aes256 C nonce key plaintext aad =
     bind_res (check_key 32 key) (\<lambda>_. bind_res (check_plaintext plaintext) (\<lambda>_. seal_message (aes256 C) key aad nonce plaintext))"

definition decrypt_aes256 :: "ciphers \<Rightarrow> bytes \<Rightarrow> bytes \<Rightarrow> bytes option \<Rightarrow> (crypto_error, bytes) res" where
  "decrypt_aes256 C key ciphertext aad =
     bind_res (check_key 32 key) (\<lambda>_. bind_res (check_ciphertext ciphertext) (\<lambda>_. open_message (aes256 C) key aad ciphertext))"

definition encrypt_aes128 :: "ciphers \<Rightarrow> bytes option \<Rightarrow> bytes \<Rightarrow> bytes \<Rightarrow> bytes option \<Rightarrow> (crypto_error, bytes) res" where
  "encrypt_aes128 C nonce key plaintext aad =
     bind_res (check_key 16 key) (\<lambda>_. bind_res (check_plaintext plaintext) (\<lambda>_. seal_message (aes128 C) key aad nonce plaintext))"

definition decrypt_aes128 :: "ciphers \<Rightarrow> bytes \<Rightarrow> bytes \<Rightarrow> bytes option \<Rightarrow> (crypto_error, bytes) res" where
  "decrypt_aes128 C key ciphertext aad =
     bind_res (check_key 16 key) (\<lambda>_. bind_res (check_ciphertext ciphertext) (\<lambda>_. open_message (aes128 C) key aad ciphertext))"

text \<open>The batch operations check all messages first; \<open>nonces i\<close> is the nonce drawn for message \<open>i\<close>.\<close>

definition seal_all :: "aead \<Rightarrow> bytes \<Rightarrow> bytes option \<Rightarrow> (nat \<Rightarrow> bytes option) \<Rightarrow> bytes list \<Rightarrow> (crypto_error, bytes list) res" where
  "seal_all C key aad nonces ms = map_res (\<lambda>(i, m). seal_message C key aad (nonces i) m) (zip [0..<length ms] ms)"

definition batch_encrypt_aes256 :: "ciphers \<Rightarrow> (nat \<Rightarrow> bytes option) \<Rightarrow> bytes \<Rightarrow> bytes list \<Rightarrow> bytes option \<Rightarrow> (crypto_error, bytes list) res" where
  "batch_encrypt_aes256 C nonces key plaintexts aad =
     bind_res (check_key 32 key) (\<lambda>_. bind_res (map_res check_plaintext plaintexts) (\<lambda>_. seal_all (aes256 C) key aad nonces plaintexts))"

definition batch_decrypt_aes256 :: "ciphers \<Rightarrow> bytes \<Rightarrow> bytes list \<Rightarrow> bytes option \<Rightarrow> (crypto_error, bytes list) res" where
  "batch_decrypt_aes256 C key ciphertexts aad =
     bind_res (check_key 32 key) (\<lambda>_. bind_res (map_res check_ciphertext ciphertexts) (\<lambda>_. map_res (open_message (aes256 C) key aad) ciphertexts))"

definition batch_encrypt_aes128 :: "ciphers \<Rightarrow> (nat \<Rightarrow> bytes option) \<Rightarrow> bytes \<Rightarrow> bytes list \<Rightarrow> bytes option \<Rightarrow> (crypto_error, bytes list) res" where
  "batch_encrypt_aes128 C nonces key plaintexts aad =
     bind_res (check_key 16 key) (\<lambda>_. bind_res (map_res check_plaintext plaintexts) (\<lambda>_. seal_all (aes128 C) key aad nonces plaintexts))"

definition batch_decrypt_aes128 :: "ciphers \<Rightarrow> bytes \<Rightarrow> bytes list \<Rightarrow> bytes option \<Rightarrow> (crypto_error, bytes list) res" where
  "batch_decrypt_aes128 C key ciphertexts aad =
     bind_res (check_key 16 key) (\<lambda>_. bind_res (map_res check_ciphertext ciphertexts) (\<lambda>_. map_res (open_message (aes128 C) key aad) ciphertexts))"

section \<open>What is sealed can be opened\<close>

text \<open>The documented behaviour of the ciphers: a message is opened under the key, nonce and associated data that it was sealed with, and the
  tag takes 16 bytes.\<close>

definition aead_law :: "aead \<Rightarrow> bool" where
  "aead_law C \<longleftrightarrow> (\<forall>key nonce aad m c. ae_seal C key nonce aad m = Inr c \<longrightarrow> ae_open C key nonce aad c = Inr m \<and> length c = length m + 16)"

lemma open_seal_message:
  assumes "aead_law C" "seal_message C key aad (Some nonce) m = Inr c" "length nonce = 12"
  shows "open_message C key aad c = Inr m \<and> check_ciphertext c = Inr ()"
  using assms
  by (cases "ae_seal C key nonce (or_empty aad) m")
    (auto simp: seal_message_def open_message_def aead_law_def check_ciphertext_def MIN_CIPHERTEXT_SIZE_def)

lemma decrypt_encrypt:
  assumes "aead_law (aes256 C)" "encrypt_aes256 C nonce key m aad = Inr c" "\<And>n. nonce = Some n \<Longrightarrow> length n = 12"
  shows "decrypt_aes256 C key c aad = Inr m"
proof -
  from assms(2) obtain n where n: "nonce = Some n" "check_key 32 key = Inr ()" "seal_message (aes256 C) key aad (Some n) m = Inr c"
    by (cases nonce) (auto simp: encrypt_aes256_def check_key_def check_plaintext_def seal_message_def split: if_splits)
  with open_seal_message [OF assms(1) n(3)] assms(3) show ?thesis by (simp add: decrypt_aes256_def)
qed

end
