(* ===== verification/Secret_Stores.thy ===== *)
theory Secret_Stores
  imports Secret_Leases Aes_Engine
begin

text \<open>
  The secret stores and the manager over them: \<^verbatim>\<open>crates/secrets/src/store.rs\<close>. The trait \<^verbatim>\<open>SecretStore\<close> is a record of
  operations on a state; the in-memory store and the encrypted store are its two implementations, the manager works with any. Drawn
  identifiers, nonces and clock readings are arguments. JSON text is a parameter of the encrypted store.
\<close>

section \<open>The trait\<close>

record ('j, 's) secret_store_ops =
  so_create :: "string \<Rightarrow> int \<Rightarrow> bytes option \<Rightarrow> 's \<Rightarrow> string \<Rightarrow> 'j secret_data \<Rightarrow> 'j secret_metadata \<Rightarrow> 's \<times> (secret_error, 'j secret) res"
  so_get :: "'s \<Rightarrow> string \<Rightarrow> (secret_error, 'j secret \<times> 'j secret_data) res"
  so_get_version :: "'s \<Rightarrow> string \<Rightarrow> u32 \<Rightarrow> (secret_error, 'j secret \<times> 'j secret_data) res"
  so_update :: "int \<Rightarrow> bytes option \<Rightarrow> 's \<Rightarrow> string \<Rightarrow> 'j secret_data \<Rightarrow> 's \<times> (secret_error, 'j secret) res"
  so_delete :: "'s \<Rightarrow> string \<Rightarrow> 's \<times> (secret_error, unit) res"
  so_destroy_version :: "'s \<Rightarrow> string \<Rightarrow> u32 \<Rightarrow> 's \<times> (secret_error, unit) res"
  so_list :: "'s \<Rightarrow> string \<Rightarrow> (secret_error, string list) res"
  so_get_metadata :: "'s \<Rightarrow> string \<Rightarrow> (secret_error, 'j secret_metadata) res"
  so_update_metadata :: "int \<Rightarrow> 's \<Rightarrow> string \<Rightarrow> 'j secret_metadata \<Rightarrow> 's \<times> (secret_error, unit) res"
  so_exists :: "'s \<Rightarrow> string \<Rightarrow> (secret_error, bool) res"
  so_version_count :: "'s \<Rightarrow> string \<Rightarrow> (secret_error, u32) res"

section \<open>The two tables of a store\<close>

record ('j, 'v) tables =
  tb_secrets :: "(string \<times> 'j secret) list"
  tb_data :: "((string \<times> u32) \<times> 'v) list"

definition empty_tables :: "('j, 'v) tables" where
  "empty_tables = \<lparr>tb_secrets = [], tb_data = []\<rparr>"

definition find_secret :: "('j, 'v) tables \<Rightarrow> string \<Rightarrow> (secret_error, 'j secret) res" where
  "find_secret T path = ok_or (SecretNotFound path) (map_of (tb_secrets T) path)"

definition find_data :: "('j, 'v) tables \<Rightarrow> 'j secret \<Rightarrow> u32 \<Rightarrow> (secret_error, 'v) res" where
  "find_data T s v = ok_or (VersionNotFound v) (map_of (tb_data T) (sec_id s, v))"

definition set_data :: "('j, 'v) tables \<Rightarrow> 'j secret \<Rightarrow> u32 \<Rightarrow> 'v \<Rightarrow> ('j, 'v) tables" where
  "set_data T s v d = T\<lparr>tb_data := AList.update (sec_id s, v) d (tb_data T)\<rparr>"

definition set_secret :: "('j, 'v) tables \<Rightarrow> string \<Rightarrow> 'j secret \<Rightarrow> ('j, 'v) tables" where
  "set_secret T path s = T\<lparr>tb_secrets := AList.update path s (tb_secrets T)\<rparr>"

definition new_secret :: "string \<Rightarrow> int \<Rightarrow> string \<Rightarrow> 'j secret_metadata \<Rightarrow> 'j secret" where
  "new_secret uuid now path md =
     \<lparr>sec_id = uuid, sec_path = path, sec_current_version = 1, sec_metadata = md, sec_created_at = now, sec_updated_at = now\<rparr>"

definition check_version :: "'j secret \<Rightarrow> u32 \<Rightarrow> (secret_error, unit) res" where
  "check_version s v = (if v > sec_current_version s \<or> v = 0 then Inl (VersionNotFound v) else Inr ())"

definition next_version :: "int \<Rightarrow> 'j secret \<Rightarrow> 'j secret" where
  "next_version now s = s\<lparr>sec_current_version := sec_current_version s + 1, sec_updated_at := now\<rparr>"

text \<open>The deletion of a secret takes two steps under different locks.\<close>

definition delete_secret_entry :: "('j, 'v) tables \<Rightarrow> string \<Rightarrow> ('j, 'v) tables" where
  "delete_secret_entry T path = T\<lparr>tb_secrets := AList.delete path (tb_secrets T)\<rparr>"

definition delete_versions :: "('j, 'v) tables \<Rightarrow> 'j secret \<Rightarrow> ('j, 'v) tables" where
  "delete_versions T s = T\<lparr>tb_data := fold (\<lambda>v. AList.delete (sec_id s, word_of_nat v)) [1..<Suc (unat (sec_current_version s))] (tb_data T)\<rparr>"

definition table_delete :: "('j, 'v) tables \<Rightarrow> string \<Rightarrow> ('j, 'v) tables \<times> (secret_error, unit) res" where
  "table_delete T path =
     (case find_secret T path of
        Inl e \<Rightarrow> (T, Inl e)
      | Inr s \<Rightarrow> (delete_versions (delete_secret_entry T path) s, Inr ()))"

definition table_destroy_version :: "('j, 'v) tables \<Rightarrow> string \<Rightarrow> u32 \<Rightarrow> ('j, 'v) tables \<times> (secret_error, unit) res" where
  "table_destroy_version T path v =
     (case bind_res (find_secret T path) (\<lambda>s. bind_res (check_version s v) (\<lambda>_.
        if v = sec_current_version s then Inl (InvalidPath ''Cannot destroy the current version'')
        else bind_res (find_data T s v) (\<lambda>_. Inr s))) of
        Inl e \<Rightarrow> (T, Inl e)
      | Inr s \<Rightarrow> (T\<lparr>tb_data := AList.delete (sec_id s, v) (tb_data T)\<rparr>, Inr ()))"

definition table_list :: "('j, 'v) tables \<Rightarrow> string \<Rightarrow> (secret_error, string list) res" where
  "table_list T pre = Inr (filter (\<lambda>p. path_starts_with p pre) (map fst (tb_secrets T)))"

definition table_get_metadata :: "('j, 'v) tables \<Rightarrow> string \<Rightarrow> (secret_error, 'j secret_metadata) res" where
  "table_get_metadata T path = bind_res (find_secret T path) (\<lambda>s. Inr (sec_metadata s))"

definition table_update_metadata :: "int \<Rightarrow> ('j, 'v) tables \<Rightarrow> string \<Rightarrow> 'j secret_metadata \<Rightarrow> ('j, 'v) tables \<times> (secret_error, unit) res" where
  "table_update_metadata now T path md =
     (case find_secret T path of
        Inl e \<Rightarrow> (T, Inl e)
      | Inr s \<Rightarrow> (set_secret T path (s\<lparr>sec_metadata := md, sec_updated_at := now\<rparr>), Inr ()))"

definition table_exists :: "('j, 'v) tables \<Rightarrow> string \<Rightarrow> (secret_error, bool) res" where
  "table_exists T path = Inr (map_of (tb_secrets T) path \<noteq> None)"

definition table_version_count :: "('j, 'v) tables \<Rightarrow> string \<Rightarrow> (secret_error, u32) res" where
  "table_version_count T path = bind_res (find_secret T path) (\<lambda>s. Inr (sec_current_version s))"

section \<open>The in-memory store\<close>

type_synonym 'j memory_store = "('j, 'j secret_data) tables"

definition memory_create :: "string \<Rightarrow> int \<Rightarrow> 'j memory_store \<Rightarrow> string \<Rightarrow> 'j secret_data \<Rightarrow> 'j secret_metadata \<Rightarrow>
  'j memory_store \<times> (secret_error, 'j secret) res" where
  "memory_create uuid now T path d md =
     (if map_of (tb_secrets T) path \<noteq> None then (T, Inl (SecretAlreadyExists path))
      else let s = new_secret uuid now path md in (set_data (set_secret T path s) s 1 d, Inr s))"

definition memory_get :: "'j memory_store \<Rightarrow> string \<Rightarrow> (secret_error, 'j secret \<times> 'j secret_data) res" where
  "memory_get T path = bind_res (find_secret T path) (\<lambda>s. bind_res (find_data T s (sec_current_version s)) (\<lambda>d. Inr (s, d)))"

definition memory_get_version :: "'j memory_store \<Rightarrow> string \<Rightarrow> u32 \<Rightarrow> (secret_error, 'j secret \<times> 'j secret_data) res" where
  "memory_get_version T path v =
     bind_res (find_secret T path) (\<lambda>s. bind_res (check_version s v) (\<lambda>_. bind_res (find_data T s v) (\<lambda>d. Inr (s, d))))"

text \<open>An update counts the version up under one lock and stores the data under another: two steps.\<close>

definition update_begin :: "int \<Rightarrow> ('j, 'v) tables \<Rightarrow> string \<Rightarrow> ('j, 'v) tables \<times> (secret_error, 'j secret) res" where
  "update_begin now T path =
     (case find_secret T path of
        Inl e \<Rightarrow> (T, Inl e)
      | Inr s \<Rightarrow> (set_secret T path (next_version now s), Inr (next_version now s)))"

definition update_finish :: "('j, 'v) tables \<Rightarrow> 'j secret \<Rightarrow> 'v \<Rightarrow> ('j, 'v) tables" where
  "update_finish T s d = set_data T s (sec_current_version s) d"

definition memory_update :: "int \<Rightarrow> 'j memory_store \<Rightarrow> string \<Rightarrow> 'j secret_data \<Rightarrow> 'j memory_store \<times> (secret_error, 'j secret) res" where
  "memory_update now T path d =
     (case update_begin now T path of (T1, Inl e) \<Rightarrow> (T1, Inl e) | (T1, Inr s) \<Rightarrow> (update_finish T1 s d, Inr s))"

definition memory_clear :: "'j memory_store \<Rightarrow> 'j memory_store" where
  "memory_clear T = empty_tables"

definition memory_ops :: "('j, 'j memory_store) secret_store_ops" where
  "memory_ops = \<lparr>so_create = (\<lambda>uuid now nonce. memory_create uuid now), so_get = memory_get, so_get_version = memory_get_version,
     so_update = (\<lambda>now nonce. memory_update now), so_delete = table_delete, so_destroy_version = table_destroy_version, so_list = table_list,
     so_get_metadata = table_get_metadata, so_update_metadata = table_update_metadata, so_exists = table_exists,
     so_version_count = table_version_count\<rparr>"

section \<open>The encrypted store\<close>

record 'j secret_env =
  se_ciphers :: ciphers
  se_to_vec :: "'j secret_data \<Rightarrow> (string, bytes) res"
  se_from_slice :: "bytes \<Rightarrow> (string, 'j secret_data) res"

record 'j encrypted_store =
  es_tables :: "('j, bytes) tables"
  es_encryption_key :: bytes

text \<open>A key of another length panics: \<open>None\<close>.\<close>

definition encrypted_with_key :: "bytes \<Rightarrow> 'j encrypted_store option" where
  "encrypted_with_key key = (if length key = 32 then Some \<lparr>es_tables = empty_tables, es_encryption_key = key\<rparr> else None)"

definition encrypt_data :: "'j secret_env \<Rightarrow> bytes option \<Rightarrow> bytes \<Rightarrow> 'j secret_data \<Rightarrow> (secret_error, bytes) res" where
  "encrypt_data E nonce key d =
     bind_res (map_err (\<lambda>e. SecretEncryption (''Serialization failed: '' @ e)) (se_to_vec E d)) (\<lambda>serialized.
     map_err (\<lambda>e. SecretEncryption (''Encryption failed: '' @ show_crypto_error e)) (encrypt_aes256 (se_ciphers E) nonce key serialized None))"

definition decrypt_data :: "'j secret_env \<Rightarrow> bytes \<Rightarrow> bytes \<Rightarrow> (secret_error, 'j secret_data) res" where
  "decrypt_data E key encrypted =
     bind_res (map_err (\<lambda>e. SecretDecryption (''Decryption failed: '' @ show_crypto_error e)) (decrypt_aes256 (se_ciphers E) key encrypted None)) (\<lambda>m.
     map_err (\<lambda>e. SecretDecryption (''Deserialization failed: '' @ e)) (se_from_slice E m))"

definition encrypted_create :: "'j secret_env \<Rightarrow> string \<Rightarrow> int \<Rightarrow> bytes option \<Rightarrow> 'j encrypted_store \<Rightarrow> string \<Rightarrow> 'j secret_data \<Rightarrow>
  'j secret_metadata \<Rightarrow> 'j encrypted_store \<times> (secret_error, 'j secret) res" where
  "encrypted_create E uuid now nonce S path d md =
     (let T = es_tables S in
      if map_of (tb_secrets T) path \<noteq> None then (S, Inl (SecretAlreadyExists path))
      else case encrypt_data E nonce (es_encryption_key S) d of
          Inl e \<Rightarrow> (S, Inl e)
        | Inr c \<Rightarrow> let s = new_secret uuid now path md in (S\<lparr>es_tables := set_data (set_secret T path s) s 1 c\<rparr>, Inr s))"

definition encrypted_get :: "'j secret_env \<Rightarrow> 'j encrypted_store \<Rightarrow> string \<Rightarrow> (secret_error, 'j secret \<times> 'j secret_data) res" where
  "encrypted_get E S path =
     bind_res (find_secret (es_tables S) path) (\<lambda>s.
     bind_res (find_data (es_tables S) s (sec_current_version s)) (\<lambda>c.
     bind_res (decrypt_data E (es_encryption_key S) c) (\<lambda>d. Inr (s, d))))"

definition encrypted_get_version :: "'j secret_env \<Rightarrow> 'j encrypted_store \<Rightarrow> string \<Rightarrow> u32 \<Rightarrow> (secret_error, 'j secret \<times> 'j secret_data) res" where
  "encrypted_get_version E S path v =
     bind_res (find_secret (es_tables S) path) (\<lambda>s.
     bind_res (check_version s v) (\<lambda>_.
     bind_res (find_data (es_tables S) s v) (\<lambda>c.
     bind_res (decrypt_data E (es_encryption_key S) c) (\<lambda>d. Inr (s, d)))))"

definition encrypted_update :: "'j secret_env \<Rightarrow> int \<Rightarrow> bytes option \<Rightarrow> 'j encrypted_store \<Rightarrow> string \<Rightarrow> 'j secret_data \<Rightarrow>
  'j encrypted_store \<times> (secret_error, 'j secret) res" where
  "encrypted_update E now nonce S path d =
     (case bind_res (find_secret (es_tables S) path) (\<lambda>_. encrypt_data E nonce (es_encryption_key S) d) of
        Inl e \<Rightarrow> (S, Inl e)
      | Inr c \<Rightarrow> (case update_begin now (es_tables S) path of
            (T1, Inl e) \<Rightarrow> (S\<lparr>es_tables := T1\<rparr>, Inl e)
          | (T1, Inr s) \<Rightarrow> (S\<lparr>es_tables := update_finish T1 s c\<rparr>, Inr s)))"

definition on_tables :: "(('j, bytes) tables \<Rightarrow> ('j, bytes) tables \<times> 'r) \<Rightarrow> 'j encrypted_store \<Rightarrow> 'j encrypted_store \<times> 'r" where
  "on_tables f S = (let (T, r) = f (es_tables S) in (S\<lparr>es_tables := T\<rparr>, r))"

definition encrypted_clear :: "'j encrypted_store \<Rightarrow> 'j encrypted_store" where
  "encrypted_clear S = S\<lparr>es_tables := empty_tables\<rparr>"

definition encrypted_ops :: "'j secret_env \<Rightarrow> ('j, 'j encrypted_store) secret_store_ops" where
  "encrypted_ops E = \<lparr>so_create = encrypted_create E, so_get = encrypted_get E, so_get_version = encrypted_get_version E,
     so_update = encrypted_update E, so_delete = (\<lambda>S path. on_tables (\<lambda>T. table_delete T path) S),
     so_destroy_version = (\<lambda>S path v. on_tables (\<lambda>T. table_destroy_version T path v) S), so_list = (\<lambda>S. table_list (es_tables S)),
     so_get_metadata = (\<lambda>S. table_get_metadata (es_tables S)),
     so_update_metadata = (\<lambda>now S path md. on_tables (\<lambda>T. table_update_metadata now T path md) S),
     so_exists = (\<lambda>S. table_exists (es_tables S)), so_version_count = (\<lambda>S. table_version_count (es_tables S))\<rparr>"

section \<open>The manager\<close>

record 's secrets_manager =
  sm_store :: 's
  sm_lease_manager :: lease_manager
  sm_encryption_key_id :: string

definition secrets_manager_new :: "'s \<Rightarrow> string \<Rightarrow> 's secrets_manager" where
  "secrets_manager_new st key_id = \<lparr>sm_store = st, sm_lease_manager = lease_manager_new lease_config_default, sm_encryption_key_id = key_id\<rparr>"

definition with_lease_config :: "'s \<Rightarrow> string \<Rightarrow> lease_config \<Rightarrow> 's secrets_manager" where
  "with_lease_config st key_id c = \<lparr>sm_store = st, sm_lease_manager = lease_manager_new c, sm_encryption_key_id = key_id\<rparr>"

text \<open>The lease that ends a successful operation on the store.\<close>

definition grant_lease :: "string \<Rightarrow> int \<Rightarrow> 's secrets_manager \<Rightarrow> string \<Rightarrow> u32 \<Rightarrow> string \<Rightarrow> int option \<Rightarrow> 's secrets_manager \<times> lease" where
  "grant_lease lid now m sid v client ttl =
     (let (lm, l) = create_lease lid now (sm_lease_manager m) sid v client ttl in (m\<lparr>sm_lease_manager := lm\<rparr>, l))"

definition create_secret :: "('j, 's) secret_store_ops \<Rightarrow> string \<Rightarrow> string \<Rightarrow> int \<Rightarrow> bytes option \<Rightarrow> 's secrets_manager \<Rightarrow> string \<Rightarrow> 'j secret_data \<Rightarrow>
  'j secret_metadata \<Rightarrow> string \<Rightarrow> int option \<Rightarrow> 's secrets_manager \<times> (secret_error, 'j secret \<times> lease) res" where
  "create_secret ops uuid lid now nonce m path d md client ttl =
     (case so_create ops uuid now nonce (sm_store m) path d md of
        (st, Inl e) \<Rightarrow> (m\<lparr>sm_store := st\<rparr>, Inl e)
      | (st, Inr s) \<Rightarrow> let (m', l) = grant_lease lid now (m\<lparr>sm_store := st\<rparr>) (sec_id s) (sec_current_version s) client ttl in (m', Inr (s, l)))"

definition read_secret :: "('j, 's) secret_store_ops \<Rightarrow> string \<Rightarrow> int \<Rightarrow> 's secrets_manager \<Rightarrow> string \<Rightarrow> u32 option \<Rightarrow> string \<Rightarrow> int option \<Rightarrow>
  's secrets_manager \<times> (secret_error, 'j secret_data \<times> lease) res" where
  "read_secret ops lid now m path version client ttl =
     (case (case version of Some v \<Rightarrow> so_get_version ops (sm_store m) path v | None \<Rightarrow> so_get ops (sm_store m) path) of
        Inl e \<Rightarrow> (m, Inl e)
      | Inr (s, d) \<Rightarrow>
          let (m', l) = grant_lease lid now m (sec_id s) (case version of Some v \<Rightarrow> v | None \<Rightarrow> sec_current_version s) client ttl in (m', Inr (d, l)))"

definition update_secret :: "('j, 's) secret_store_ops \<Rightarrow> string \<Rightarrow> int \<Rightarrow> bytes option \<Rightarrow> 's secrets_manager \<Rightarrow> string \<Rightarrow> 'j secret_data \<Rightarrow>
  string \<Rightarrow> int option \<Rightarrow> 's secrets_manager \<times> (secret_error, 'j secret \<times> lease) res" where
  "update_secret ops lid now nonce m path d client ttl =
     (case so_update ops now nonce (sm_store m) path d of
        (st, Inl e) \<Rightarrow> (m\<lparr>sm_store := st\<rparr>, Inl e)
      | (st, Inr s) \<Rightarrow> let (m', l) = grant_lease lid now (m\<lparr>sm_store := st\<rparr>) (sec_id s) (sec_current_version s) client ttl in (m', Inr (s, l)))"

definition delete_secret :: "('j, 's) secret_store_ops \<Rightarrow> 's secrets_manager \<Rightarrow> string \<Rightarrow> 's secrets_manager \<times> (secret_error, unit) res" where
  "delete_secret ops m path =
     (case so_get ops (sm_store m) path of
        Inl e \<Rightarrow> (m, Inl e)
      | Inr (s, _) \<Rightarrow>
          let m1 = m\<lparr>sm_lease_manager := fst (revoke_all (sm_lease_manager m) (sec_id s))\<rparr>;
              (st, r) = so_delete ops (sm_store m1) path
          in (m1\<lparr>sm_store := st\<rparr>, r))"

definition manager_renew_lease :: "int \<Rightarrow> 's secrets_manager \<Rightarrow> string \<Rightarrow> int option \<Rightarrow> 's secrets_manager \<times> (lease_error, lease) res" where
  "manager_renew_lease now m lid inc = (let (lm, r) = renew_lease now (sm_lease_manager m) lid inc in (m\<lparr>sm_lease_manager := lm\<rparr>, r))"

definition manager_revoke_lease :: "'s secrets_manager \<Rightarrow> string \<Rightarrow> 's secrets_manager \<times> (lease_error, unit) res" where
  "manager_revoke_lease m lid = (let (lm, r) = revoke_lease (sm_lease_manager m) lid in (m\<lparr>sm_lease_manager := lm\<rparr>, r))"

definition revoke_secret_leases :: "'s secrets_manager \<Rightarrow> string \<Rightarrow> 's secrets_manager \<times> nat" where
  "revoke_secret_leases m sid = (let (lm, n) = revoke_all (sm_lease_manager m) sid in (m\<lparr>sm_lease_manager := lm\<rparr>, n))"

definition manager_validate_lease :: "int \<Rightarrow> 's secrets_manager \<Rightarrow> string \<Rightarrow> (lease_error, lease) res" where
  "manager_validate_lease now m lid = validate_lease now (sm_lease_manager m) lid"

end
