(* ===== verification/Secret_Interface.thy ===== *)
theory Secret_Interface
  imports Secret_Stores Budgets
begin

text \<open>
  What a secret store promises: a map from paths to secrets with their versions, and a locale with the laws that an implementation of the
  trait \<^verbatim>\<open>SecretStore\<close> has to satisfy. Runs of store operations and of the manager are treated once, inside the locale.
\<close>

section \<open>The versioned map\<close>

type_synonym 'j vault_map = "string \<Rightarrow> ('j secret \<times> (u32 \<Rightarrow> 'j secret_data option)) option"

definition spec_get_version :: "'j vault_map \<Rightarrow> string \<Rightarrow> u32 \<Rightarrow> (secret_error, 'j secret \<times> 'j secret_data) res" where
  "spec_get_version A p v =
     (case A p of
        None \<Rightarrow> Inl (SecretNotFound p)
      | Some (s, vs) \<Rightarrow> bind_res (check_version s v) (\<lambda>_. case vs v of None \<Rightarrow> Inl (VersionNotFound v) | Some d \<Rightarrow> Inr (s, d)))"

definition spec_get :: "'j vault_map \<Rightarrow> string \<Rightarrow> (secret_error, 'j secret \<times> 'j secret_data) res" where
  "spec_get A p =
     (case A p of
        None \<Rightarrow> Inl (SecretNotFound p)
      | Some (s, vs) \<Rightarrow> (case vs (sec_current_version s) of None \<Rightarrow> Inl (VersionNotFound (sec_current_version s)) | Some d \<Rightarrow> Inr (s, d)))"

definition spec_create :: "string \<Rightarrow> int \<Rightarrow> 'j vault_map \<Rightarrow> string \<Rightarrow> 'j secret_data \<Rightarrow> 'j secret_metadata \<Rightarrow> 'j vault_map \<times> (secret_error, 'j secret) res" where
  "spec_create uuid now A p d md =
     (if A p \<noteq> None then (A, Inl (SecretAlreadyExists p))
      else (A(p \<mapsto> (new_secret uuid now p md, [1 \<mapsto> d])), Inr (new_secret uuid now p md)))"

definition spec_update :: "int \<Rightarrow> 'j vault_map \<Rightarrow> string \<Rightarrow> 'j secret_data \<Rightarrow> 'j vault_map \<times> (secret_error, 'j secret) res" where
  "spec_update now A p d =
     (case A p of
        None \<Rightarrow> (A, Inl (SecretNotFound p))
      | Some (s, vs) \<Rightarrow> (A(p \<mapsto> (next_version now s, vs(sec_current_version (next_version now s) \<mapsto> d))), Inr (next_version now s)))"

definition spec_delete :: "'j vault_map \<Rightarrow> string \<Rightarrow> 'j vault_map \<times> (secret_error, unit) res" where
  "spec_delete A p = (case A p of None \<Rightarrow> (A, Inl (SecretNotFound p)) | Some _ \<Rightarrow> (A(p := None), Inr ()))"

definition spec_destroy :: "'j vault_map \<Rightarrow> string \<Rightarrow> u32 \<Rightarrow> 'j vault_map \<times> (secret_error, unit) res" where
  "spec_destroy A p v =
     (case A p of
        None \<Rightarrow> (A, Inl (SecretNotFound p))
      | Some (s, vs) \<Rightarrow>
          if v > sec_current_version s \<or> v = 0 then (A, Inl (VersionNotFound v))
          else if v = sec_current_version s then (A, Inl (InvalidPath ''Cannot destroy the current version''))
          else if vs v = None then (A, Inl (VersionNotFound v))
          else (A(p \<mapsto> (s, vs(v := None))), Inr ()))"

definition spec_update_metadata :: "int \<Rightarrow> 'j vault_map \<Rightarrow> string \<Rightarrow> 'j secret_metadata \<Rightarrow> 'j vault_map \<times> (secret_error, unit) res" where
  "spec_update_metadata now A p md =
     (case A p of
        None \<Rightarrow> (A, Inl (SecretNotFound p))
      | Some (s, vs) \<Rightarrow> (A(p \<mapsto> (s\<lparr>sec_metadata := md, sec_updated_at := now\<rparr>, vs)), Inr ()))"

text \<open>Fresh identifiers, and room for another version.\<close>

definition fresh_id :: "string \<Rightarrow> 'j vault_map \<Rightarrow> bool" where
  "fresh_id i A \<longleftrightarrow> (\<forall>p s vs. A p = Some (s, vs) \<longrightarrow> sec_id s \<noteq> i)"

definition has_room :: "'j vault_map \<Rightarrow> string \<Rightarrow> bool" where
  "has_room A p \<longleftrightarrow> (\<forall>s vs. A p = Some (s, vs) \<longrightarrow> sec_current_version s < - 1)"

section \<open>Operations as data\<close>

datatype 'j store_op =
    SCreate string int "bytes option" string "'j secret_data" "'j secret_metadata"
  | SUpdate int "bytes option" string "'j secret_data"
  | SDelete string
  | SDestroy string u32
  | SSetMetadata int string "'j secret_metadata"

text \<open>The state after an operation, and the version count or the error that it answers.\<close>

definition answer :: "(secret_error, 'j secret) res \<Rightarrow> (secret_error, u32) res" where
  "answer r = (case r of Inl e \<Rightarrow> Inl e | Inr s \<Rightarrow> Inr (sec_current_version s))"

definition no_answer :: "(secret_error, unit) res \<Rightarrow> (secret_error, u32) res" where
  "no_answer r = (case r of Inl e \<Rightarrow> Inl e | Inr _ \<Rightarrow> Inr 0)"

fun store_do :: "('j, 's) secret_store_ops \<Rightarrow> 'j store_op \<Rightarrow> 's \<Rightarrow> 's \<times> (secret_error, u32) res" where
  "store_do ops (SCreate uuid now nonce p d md) s = map_prod id answer (so_create ops uuid now nonce s p d md)"
| "store_do ops (SUpdate now nonce p d) s = map_prod id answer (so_update ops now nonce s p d)"
| "store_do ops (SDelete p) s = map_prod id no_answer (so_delete ops s p)"
| "store_do ops (SDestroy p v) s = map_prod id no_answer (so_destroy_version ops s p v)"
| "store_do ops (SSetMetadata now p md) s = map_prod id no_answer (so_update_metadata ops now s p md)"

fun spec_do :: "'j store_op \<Rightarrow> 'j vault_map \<Rightarrow> 'j vault_map \<times> (secret_error, u32) res" where
  "spec_do (SCreate uuid now nonce p d md) A = map_prod id answer (spec_create uuid now A p d md)"
| "spec_do (SUpdate now nonce p d) A = map_prod id answer (spec_update now A p d)"
| "spec_do (SDelete p) A = map_prod id no_answer (spec_delete A p)"
| "spec_do (SDestroy p v) A = map_prod id no_answer (spec_destroy A p v)"
| "spec_do (SSetMetadata now p md) A = map_prod id no_answer (spec_update_metadata now A p md)"

fun answers :: "('op \<Rightarrow> 's \<Rightarrow> 's \<times> 'r) \<Rightarrow> 's \<Rightarrow> 'op list \<Rightarrow> 'r list" where
  "answers f s [] = []"
| "answers f s (op # ops) = snd (f op s) # answers f (fst (f op s)) ops"

text \<open>The identifiers that a run draws, and the data that it writes.\<close>

fun drawn :: "'j store_op \<Rightarrow> string list" where
  "drawn (SCreate uuid now nonce p d md) = [uuid]"
| "drawn _ = []"

fun written :: "'j store_op \<Rightarrow> (bytes option \<times> 'j secret_data) list" where
  "written (SCreate uuid now nonce p d md) = [(nonce, d)]"
| "written (SUpdate now nonce p d) = [(nonce, d)]"
| "written _ = []"

section \<open>The laws\<close>

locale secret_store =
  fixes ops :: "('j, 's) secret_store_ops"
    and abs :: "'s \<Rightarrow> 'j vault_map"
    and inv :: "'s \<Rightarrow> bool"
    and writable :: "bytes option \<times> 'j secret_data \<Rightarrow> bool"
  assumes get_law: "inv s \<Longrightarrow> so_get ops s p = spec_get (abs s) p"
    and get_version_law: "inv s \<Longrightarrow> so_get_version ops s p v = spec_get_version (abs s) p v"
    and create_law: "inv s \<Longrightarrow> writable (nonce, d) \<Longrightarrow> fresh_id uuid (abs s) \<Longrightarrow>
      inv (fst (so_create ops uuid now nonce s p d md)) \<and>
      map_prod abs id (so_create ops uuid now nonce s p d md) = spec_create uuid now (abs s) p d md"
    and update_law: "inv s \<Longrightarrow> writable (nonce, d) \<Longrightarrow> has_room (abs s) p \<Longrightarrow>
      inv (fst (so_update ops now nonce s p d)) \<and> map_prod abs id (so_update ops now nonce s p d) = spec_update now (abs s) p d"
    and delete_law: "inv s \<Longrightarrow> inv (fst (so_delete ops s p)) \<and> map_prod abs id (so_delete ops s p) = spec_delete (abs s) p"
    and destroy_law: "inv s \<Longrightarrow> inv (fst (so_destroy_version ops s p v)) \<and>
      map_prod abs id (so_destroy_version ops s p v) = spec_destroy (abs s) p v"
    and metadata_law: "inv s \<Longrightarrow> inv (fst (so_update_metadata ops now s p md)) \<and>
      map_prod abs id (so_update_metadata ops now s p md) = spec_update_metadata now (abs s) p md"
    and exists_law: "inv s \<Longrightarrow> so_exists ops s p = Inr (abs s p \<noteq> None)"
    and list_law: "inv s \<Longrightarrow> \<exists>ps. so_list ops s pre = Inr ps \<and> distinct ps \<and> set ps = {p. abs s p \<noteq> None \<and> path_starts_with p pre}"
begin

lemma map_prod_eqD: "map_prod f id x = y \<Longrightarrow> f (fst x) = fst y \<and> snd x = snd y"
  by (cases x) auto

lemma store_do_refines:
  assumes "inv s" "list_all writable (written op)" "\<And>i. i \<in> set (drawn op) \<Longrightarrow> fresh_id i (abs s)" "\<And>p. has_room (abs s) p"
  shows "inv (fst (store_do ops op s)) \<and> abs (fst (store_do ops op s)) = fst (spec_do op (abs s)) \<and>
    snd (store_do ops op s) = snd (spec_do op (abs s))"
proof (cases op)
  case (SCreate uuid now nonce p d md)
  with create_law [OF assms(1), of nonce d uuid now p md] assms(2,3) show ?thesis by (auto dest: map_prod_eqD)
next
  case (SUpdate now nonce p d)
  with update_law [OF assms(1), of nonce d p now] assms(2,4) show ?thesis by (auto dest: map_prod_eqD)
next
  case (SDelete p)
  with delete_law [OF assms(1), of p] show ?thesis by (auto dest: map_prod_eqD)
next
  case (SDestroy p v)
  with destroy_law [OF assms(1), of p v] show ?thesis by (auto dest: map_prod_eqD)
next
  case (SSetMetadata now p md)
  with metadata_law [OF assms(1), of now p md] show ?thesis by (auto dest: map_prod_eqD)
qed

end

end
