(* ===== verification/Secret_Runs.thy ===== *)
theory Secret_Runs
  imports Secret_Interface
begin

text \<open>
  Runs of operations on a secret store, and on the manager with its leases, for every implementation of the interface.
\<close>

section \<open>Runs of the versioned map\<close>

definition vault_ok :: "nat \<Rightarrow> string set \<Rightarrow> 'j vault_map \<Rightarrow> bool" where
  "vault_ok n I A \<longleftrightarrow> (\<forall>p s vs. A p = Some (s, vs) \<longrightarrow> sec_id s \<in> I \<and> unat (sec_current_version s) \<le> n)"

lemma vault_ok_room: "vault_ok n I A \<Longrightarrow> n < 2 ^ 32 - 1 \<Longrightarrow> has_room A p"
  by (force simp: vault_ok_def has_room_def word_less_nat_alt unsigned_minus_1_eq_mask mask_eq_exp_minus_1)

lemma vault_ok_fresh: "vault_ok n I A \<Longrightarrow> i \<notin> I \<Longrightarrow> fresh_id i A"
  by (auto simp: vault_ok_def fresh_id_def)

lemma next_version_simps [simp]: "sec_id (next_version now s) = sec_id s" "sec_current_version (next_version now s) = sec_current_version s + 1"
  by (simp_all add: next_version_def)

lemma new_secret_simps [simp]: "sec_id (new_secret uuid now p md) = uuid" "sec_current_version (new_secret uuid now p md) = 1"
  by (simp_all add: new_secret_def)

lemma unat_Suc_le: "unat (v + 1 :: u32) \<le> Suc (unat v)"
  by (simp add: unat_word_ariths)

lemma spec_do_ok:
  assumes "vault_ok n I A"
  shows "vault_ok (Suc n) (I \<union> set (drawn op)) (fst (spec_do op A))"
  unfolding vault_ok_def
proof (intro allI impI)
  fix p s vs assume *: "fst (spec_do op A) p = Some (s, vs)"
  have old: "sec_id s \<in> I \<and> unat (sec_current_version s) \<le> n" if "A p = Some (s, vs)" for p s vs
    using assms that by (auto simp: vault_ok_def)
  show "sec_id s \<in> I \<union> set (drawn op) \<and> unat (sec_current_version s) \<le> Suc n"
  proof (cases op)
    case (SCreate uuid now nonce q d md)
    with * old show ?thesis by (fastforce simp: spec_create_def split: if_splits)
  next
    case (SUpdate now nonce q d)
    with * old show ?thesis
      using unat_Suc_le [of "sec_current_version (fst (the (A q)))"]
      by (cases "A q") (fastforce simp: spec_update_def split: if_splits)+
  next
    case (SDelete q)
    with * old show ?thesis by (fastforce simp: spec_delete_def split: option.splits if_splits)
  next
    case (SDestroy q v)
    with * old show ?thesis by (cases "A q") (fastforce simp: spec_destroy_def split: if_splits)+
  next
    case (SSetMetadata now q md)
    with * old show ?thesis by (cases "A q") (fastforce simp: spec_update_metadata_def split: if_splits)+
  qed
qed

text \<open>A version that has been written is kept by every operation but its destruction and the deletion of its secret.\<close>

fun spares :: "string \<Rightarrow> u32 \<Rightarrow> 'j store_op \<Rightarrow> bool" where
  "spares p v (SDelete q) \<longleftrightarrow> q \<noteq> p"
| "spares p v (SDestroy q w) \<longleftrightarrow> q \<noteq> p \<or> w \<noteq> v"
| "spares p v op \<longleftrightarrow> True"

definition holds_version :: "'j vault_map \<Rightarrow> string \<Rightarrow> string \<Rightarrow> u32 \<Rightarrow> 'j secret_data \<Rightarrow> bool" where
  "holds_version A p i v d \<longleftrightarrow> (\<exists>s vs. A p = Some (s, vs) \<and> sec_id s = i \<and> v \<noteq> 0 \<and> v \<le> sec_current_version s \<and> vs v = Some d)"

lemma holds_version_get: "holds_version A p i v d \<longleftrightarrow> (\<exists>s. spec_get_version A p v = Inr (s, d) \<and> sec_id s = i)"
  by (auto simp: holds_version_def spec_get_version_def check_version_def bind_res_def not_less split: option.splits if_splits)

lemma spec_do_keeps_version:
  assumes h: "holds_version A p i v d" and "spares p v op" and room: "has_room A p"
  shows "holds_version (fst (spec_do op A)) p i v d"
proof -
  from h obtain s vs where A: "A p = Some (s, vs)" "sec_id s = i" "v \<noteq> 0" "v \<le> sec_current_version s" "vs v = Some d"
    by (auto simp: holds_version_def)
  have lt: "sec_current_version s < sec_current_version s + 1"
    using room A(1) by (auto simp: has_room_def word_less_nat_alt unat_word_ariths unsigned_minus_1_eq_mask mask_eq_exp_minus_1)
  show ?thesis
  proof (cases op)
    case (SUpdate now nonce q d')
    then show ?thesis
      using A lt by (cases "A q") (auto simp: holds_version_def spec_update_def)
  qed (use assms(2) A in \<open>auto simp: holds_version_def spec_create_def spec_delete_def spec_destroy_def spec_update_metadata_def
    split: option.splits if_splits\<close>)
qed

section \<open>Runs of an implementation\<close>

abbreviation store_run :: "('j, 's) secret_store_ops \<Rightarrow> 's \<Rightarrow> 'j store_op list \<Rightarrow> 's" where
  "store_run ops \<equiv> run_ops (\<lambda>op s. fst (store_do ops op s))"

abbreviation spec_run :: "'j vault_map \<Rightarrow> 'j store_op list \<Rightarrow> 'j vault_map" where
  "spec_run \<equiv> run_ops (\<lambda>op A. fst (spec_do op A))"

text \<open>A run that draws fresh identifiers, writes writable data and is short enough not to exhaust the version numbers.\<close>

definition run_ok :: "(bytes option \<times> 'j secret_data \<Rightarrow> bool) \<Rightarrow> nat \<Rightarrow> string set \<Rightarrow> 'j store_op list \<Rightarrow> bool" where
  "run_ok writable n I xs \<longleftrightarrow> list_all writable (concat (map written xs)) \<and> distinct (concat (map drawn xs)) \<and>
     set (concat (map drawn xs)) \<inter> I = {} \<and> n + length xs < 2 ^ 32 - 1"

lemma run_ok_Cons: "run_ok W n I (op # xs) \<Longrightarrow> list_all W (written op) \<and> set (drawn op) \<inter> I = {} \<and> n < 2 ^ 32 - 1 \<and> run_ok W (Suc n) (I \<union> set (drawn op)) xs"
  by (auto simp: run_ok_def)

lemma vault_ok_run: "vault_ok n I A \<Longrightarrow> vault_ok (n + length xs) (I \<union> set (concat (map drawn xs))) (spec_run A xs)"
proof (induction xs arbitrary: n I A)
  case (Cons op xs)
  from Cons.IH [OF spec_do_ok [OF Cons.prems, of op]] show ?case by (simp add: Un_assoc)
qed simp

lemma run_ok_append:
  "run_ok W n I (xs @ ys) \<Longrightarrow> run_ok W n I xs \<and> run_ok W (n + length xs) (I \<union> set (concat (map drawn xs))) ys"
  by (auto simp: run_ok_def)

context secret_store
begin

lemma step_refines:
  assumes "inv s" "vault_ok n I (abs s)" "run_ok writable n I (op # xs)"
  shows "inv (fst (store_do ops op s)) \<and> abs (fst (store_do ops op s)) = fst (spec_do op (abs s)) \<and>
    snd (store_do ops op s) = snd (spec_do op (abs s)) \<and>
    vault_ok (Suc n) (I \<union> set (drawn op)) (abs (fst (store_do ops op s)))"
proof -
  note r = run_ok_Cons [OF assms(3)]
  have "fresh_id i (abs s)" if "i \<in> set (drawn op)" for i using r that assms(2) by (intro vault_ok_fresh) auto
  moreover have "has_room (abs s) p" for p using r assms(2) by (intro vault_ok_room) auto
  ultimately show ?thesis using store_do_refines [OF assms(1), of op] r spec_do_ok [OF assms(2), of op] by simp
qed

lemma run_refines:
  assumes "inv s" "vault_ok n I (abs s)" "run_ok writable n I xs"
  shows "inv (store_run ops s xs) \<and> abs (store_run ops s xs) = spec_run (abs s) xs \<and>
    answers (store_do ops) s xs = answers spec_do (abs s) xs"
  using assms
proof (induction xs arbitrary: s n I)
  case (Cons op xs)
  note st = step_refines [OF Cons.prems]
  from Cons.IH [of "fst (store_do ops op s)" "Suc n" "I \<union> set (drawn op)"] st run_ok_Cons [OF Cons.prems(3)]
  show ?case by auto
qed simp

lemma run_keeps_version:
  assumes "inv s" "vault_ok n I (abs s)" "run_ok writable n I xs" "list_all (spares p v) xs"
    and "so_get_version ops s p v = Inr (sec, d)"
  shows "\<exists>sec'. so_get_version ops (store_run ops s xs) p v = Inr (sec', d) \<and> sec_id sec' = sec_id sec"
proof -
  have "holds_version (abs s) p (sec_id sec) v d" using assms(5) get_version_law [OF assms(1)] by (auto simp: holds_version_get)
  with assms(1-4) have "holds_version (abs (store_run ops s xs)) p (sec_id sec) v d"
  proof (induction xs arbitrary: s n I)
    case (Cons op xs)
    note st = step_refines [OF Cons.prems(1-3)] and r = run_ok_Cons [OF Cons.prems(3)]
    have "has_room (abs s) p" using r Cons.prems(2) by (intro vault_ok_room) auto
    with Cons.prems(4,5) have "holds_version (abs (fst (store_do ops op s))) p (sec_id sec) v d"
      using st spec_do_keeps_version [of "abs s" p "sec_id sec" v d op] by simp
    with Cons.IH [of "fst (store_do ops op s)" "Suc n" "I \<union> set (drawn op)"] st r Cons.prems(4) show ?case by auto
  qed simp
  moreover have "inv (store_run ops s xs)" using run_refines [OF assms(1-3)] by simp
  ultimately show ?thesis using get_version_law by (auto simp: holds_version_get)
qed

lemma later_run_keeps_version:
  assumes "inv s" "abs s = Map.empty" "run_ok writable 0 {} (xs @ ys)" "list_all (spares p v) ys"
    and "so_get_version ops (store_run ops s xs) p v = Inr (sec, d)"
  shows "\<exists>sec'. so_get_version ops (store_run ops s (xs @ ys)) p v = Inr (sec', d) \<and> sec_id sec' = sec_id sec"
proof -
  have ok: "vault_ok 0 {} (abs s)" using assms(2) by (simp add: vault_ok_def)
  note r = run_ok_append [OF assms(3)]
  from run_refines [OF assms(1) ok] r have s': "inv (store_run ops s xs)" "abs (store_run ops s xs) = spec_run (abs s) xs" by auto
  have ok': "vault_ok (0 + length xs) ({} \<union> set (concat (map drawn xs))) (abs (store_run ops s xs))"
    unfolding s'(2) by (rule vault_ok_run [OF ok])
  from run_keeps_version [OF s'(1) ok' _ assms(4,5)] r show ?thesis by auto
qed

end

section \<open>Identifiers are not shared\<close>

definition ids_apart :: "'j vault_map \<Rightarrow> bool" where
  "ids_apart A \<longleftrightarrow> (\<forall>p q s vs s' vs'. A p = Some (s, vs) \<longrightarrow> A q = Some (s', vs') \<longrightarrow> sec_id s = sec_id s' \<longrightarrow> p = q)"

text \<open>The identifiers in use; an operation adds at most the one that it draws.\<close>

definition id_at :: "'j vault_map \<Rightarrow> string \<Rightarrow> string option" where
  "id_at A p = map_option (\<lambda>x. sec_id (fst x)) (A p)"

lemma id_at_do:
  "id_at (fst (spec_do op A)) p =
     (case op of
        SCreate uuid now nonce q d md \<Rightarrow> if p = q \<and> id_at A q = None then Some uuid else id_at A p
      | SDelete q \<Rightarrow> if p = q then None else id_at A p
      | _ \<Rightarrow> id_at A p)"
  by (cases op)
    (auto simp: id_at_def spec_create_def spec_update_def spec_delete_def spec_destroy_def spec_update_metadata_def split: option.split)

lemma ids_apart_alt: "ids_apart A \<longleftrightarrow> (\<forall>p q i. id_at A p = Some i \<longrightarrow> id_at A q = Some i \<longrightarrow> p = q)"
  by (fastforce simp: ids_apart_def id_at_def)

lemma fresh_id_alt: "fresh_id i A \<longleftrightarrow> (\<forall>p. id_at A p \<noteq> Some i)"
  by (force simp: fresh_id_def id_at_def)

lemma ids_apart_do:
  assumes "ids_apart A" "\<And>i. i \<in> set (drawn op) \<Longrightarrow> fresh_id i A"
  shows "ids_apart (fst (spec_do op A))"
  using assms unfolding ids_apart_alt fresh_id_alt id_at_do
  by (cases op) (auto split: if_splits)

section \<open>Leases\<close>

text \<open>No lease on the secret is in force; and no lease reaches beyond the largest time to live.\<close>

definition dead_leases :: "string \<Rightarrow> lease_manager \<Rightarrow> bool" where
  "dead_leases sid m \<longleftrightarrow> (\<forall>lid l. (lid, l) \<in> set (lm_leases m) \<longrightarrow> ls_secret_id l = sid \<longrightarrow> ls_revoked l)"

definition leases_bounded :: "lease_manager \<Rightarrow> bool" where
  "leases_bounded m \<longleftrightarrow> (\<forall>lid l. (lid, l) \<in> set (lm_leases m) \<longrightarrow>
     ls_expires_at l \<le> ls_created_at l + lc_max_ttl (lm_config m) \<and> ls_max_ttl l = Some (lc_max_ttl (lm_config m)))"

lemma lm_simps [simp]:
  "lm_leases (put_lease m lid l) = AList.update lid l (lm_leases m)" "lm_config (put_lease m lid l) = lm_config m"
  "lm_leases (send_event m e) = lm_leases m" "lm_config (send_event m e) = lm_config m"
  by (simp_all add: put_lease_def send_event_def)

lemma lease_in_update: "(k, v) \<in> set (AList.update k' v' xs) \<Longrightarrow> (k, v) = (k', v') \<or> (k, v) \<in> set xs"
  by (induction xs) (auto split: if_splits)

lemma lease_in_deletes: "x \<in> set (fold AList.delete ks xs) \<Longrightarrow> x \<in> set xs"
  by (induction ks arbitrary: xs) (force simp: AList.delete_eq)+

definition lease_limit :: "lease_manager \<Rightarrow> lease \<Rightarrow> int" where
  "lease_limit m l = ls_created_at l + (case ls_max_ttl l of Some t \<Rightarrow> t | None \<Rightarrow> lc_max_ttl (lm_config m))"

datatype lease_op =
    LCreate string int string u32 string "int option"
  | LRenew int string "int option"
  | LRevoke string
  | LRevokeAll string
  | LExpire int string
  | LCleanup int

fun lease_do :: "lease_op \<Rightarrow> lease_manager \<Rightarrow> lease_manager" where
  "lease_do (LCreate uuid now sid v client ttl) m = fst (create_lease uuid now m sid v client ttl)"
| "lease_do (LRenew now lid inc) m = fst (renew_lease now m lid inc)"
| "lease_do (LRevoke lid) m = fst (revoke_lease m lid)"
| "lease_do (LRevokeAll sid) m = fst (revoke_all m sid)"
| "lease_do (LExpire now lid) m = expire_task now m lid"
| "lease_do (LCleanup now) m = fst (cleanup_leases now m)"

lemma lease_do_config [simp]: "lm_config (lease_do op m) = lm_config m"
  by (cases op)
    (simp_all add: create_lease_def renew_lease_def revoke_lease_def revoke_all_def expire_task_def cleanup_leases_def Let_def split: option.split)

text \<open>What an operation can make of a lease: a new one, a shortened or renewed one, a revoked one, or nothing.\<close>

lemma lease_do_lease:
  assumes "(lid, l) \<in> set (lm_leases (lease_do op m))"
  shows "(lid, l) \<in> set (lm_leases m) \<or>
    (\<exists>now sid v client ttl. op = LCreate lid now sid v client ttl \<and> l = snd (create_lease lid now m sid v client ttl)) \<or>
    (\<exists>l0. (lid, l0) \<in> set (lm_leases m) \<and> (l = l0\<lparr>ls_revoked := True\<rparr> \<or>
      \<not> ls_revoked l0 \<and> (\<exists>e \<le> lease_limit m l0. l = l0\<lparr>ls_expires_at := e\<rparr>)))"
proof (cases op)
  case (LCreate uuid now sid v client ttl)
  with assms show ?thesis by (auto simp: create_lease_def Let_def dest!: lease_in_update)
next
  case (LRenew now lid' inc)
  show ?thesis
  proof (cases "map_of (lm_leases m) lid'")
    case (Some l0)
    let ?e = "min (now + (case inc of Some t \<Rightarrow> t | None \<Rightarrow> lc_default_ttl (lm_config m))) (lease_limit m l0)"
    have "(lid', l0) \<in> set (lm_leases m)" "?e \<le> lease_limit m l0" using Some by (auto dest: map_of_SomeD)
    moreover have "(lid, l) \<in> set (lm_leases m) \<or>
        lid = lid' \<and> (l = l0\<lparr>ls_revoked := True\<rparr> \<or> \<not> ls_revoked l0 \<and> l = l0\<lparr>ls_expires_at := ?e\<rparr>)"
      using assms LRenew Some by (auto simp: renew_lease_def Let_def lease_limit_def [symmetric] dest!: lease_in_update split: if_splits)
    ultimately show ?thesis by blast
  qed (use assms LRenew in \<open>simp add: renew_lease_def\<close>)
next
  case (LRevoke lid')
  with assms show ?thesis by (auto simp: revoke_lease_def dest!: lease_in_update dest: map_of_SomeD split: option.splits if_splits)
next
  case (LRevokeAll sid)
  with assms show ?thesis by (auto simp: revoke_all_def Let_def split: if_splits)
next
  case (LExpire now lid')
  with assms show ?thesis by (auto simp: expire_task_def dest!: lease_in_update dest: map_of_SomeD split: option.splits if_splits)
next
  case (LCleanup now)
  with assms show ?thesis by (auto simp: cleanup_leases_def Let_def dest!: lease_in_deletes)
qed

lemma lease_do_bounded: "leases_bounded m \<Longrightarrow> leases_bounded (lease_do op m)"
  unfolding leases_bounded_def by (force dest!: lease_do_lease simp: create_lease_def Let_def lease_limit_def)

lemma lease_do_dead:
  assumes "dead_leases sid m" "\<And>uuid now v client ttl. op \<noteq> LCreate uuid now sid v client ttl"
  shows "dead_leases sid (lease_do op m)"
  using assms unfolding dead_leases_def by (force dest!: lease_do_lease simp: create_lease_def Let_def)

lemma revoke_all_dead: "dead_leases sid (fst (revoke_all m sid))"
  by (auto simp: dead_leases_def revoke_all_def Let_def split: if_splits)

end
