(* ===== verification/Secret_Manager.thy ===== *)
theory Secret_Manager
  imports Secret_Runs
begin

text \<open>
  The manager of secrets over any store: its operations as data, and what holds of the leases along a run. The operations of the lease
  manager that the manager hands out through its accessor are part of a run as well, the creation of leases apart.
\<close>

datatype 'j manager_op =
    MCreate string string int "bytes option" string "'j secret_data" "'j secret_metadata" string "int option"
  | MRead string int string "u32 option" string "int option"
  | MUpdate string int "bytes option" string "'j secret_data" string "int option"
  | MDelete string
  | MRenew int string "int option"
  | MRevoke string
  | MRevokeSecret string
  | MExpire int string
  | MCleanup int

fun manager_do :: "('j, 's) secret_store_ops \<Rightarrow> 'j manager_op \<Rightarrow> 's secrets_manager \<Rightarrow> 's secrets_manager" where
  "manager_do ops (MCreate uuid lid now nonce p d md client ttl) m = fst (create_secret ops uuid lid now nonce m p d md client ttl)"
| "manager_do ops (MRead lid now p v client ttl) m = fst (read_secret ops lid now m p v client ttl)"
| "manager_do ops (MUpdate lid now nonce p d client ttl) m = fst (update_secret ops lid now nonce m p d client ttl)"
| "manager_do ops (MDelete p) m = fst (delete_secret ops m p)"
| "manager_do ops (MRenew now lid inc) m = fst (manager_renew_lease now m lid inc)"
| "manager_do ops (MRevoke lid) m = fst (manager_revoke_lease m lid)"
| "manager_do ops (MRevokeSecret sid) m = fst (revoke_secret_leases m sid)"
| "manager_do ops (MExpire now lid) m = m\<lparr>sm_lease_manager := expire_task now (sm_lease_manager m) lid\<rparr>"
| "manager_do ops (MCleanup now) m = m\<lparr>sm_lease_manager := fst (cleanup_leases now (sm_lease_manager m))\<rparr>"

text \<open>The operation that a manager operation may perform on the store.\<close>

fun on_store :: "'j manager_op \<Rightarrow> 'j store_op list" where
  "on_store (MCreate uuid lid now nonce p d md client ttl) = [SCreate uuid now nonce p d md]"
| "on_store (MUpdate lid now nonce p d client ttl) = [SUpdate now nonce p d]"
| "on_store (MDelete p) = [SDelete p]"
| "on_store _ = []"

lemma grant_lease_simps [simp]:
  "sm_store (fst (grant_lease lid now m sid v client ttl)) = sm_store m"
  "sm_lease_manager (fst (grant_lease lid now m sid v client ttl)) = lease_do (LCreate lid now sid v client ttl) (sm_lease_manager m)"
  by (simp_all add: grant_lease_def split_def Let_def)

text \<open>A secret that has gone: no entry of the store has its identifier, the identifier is spent, and its leases are dead.\<close>

definition gone :: "string \<Rightarrow> string set \<Rightarrow> 'j vault_map \<Rightarrow> lease_manager \<Rightarrow> bool" where
  "gone sid I A lm \<longleftrightarrow> sid \<in> I \<and> fresh_id sid A \<and> dead_leases sid lm"

lemma fresh_id_do: "fresh_id sid A \<Longrightarrow> sid \<notin> set (drawn op) \<Longrightarrow> fresh_id sid (fst (spec_do op A))"
  unfolding fresh_id_alt id_at_do by (cases op) (auto split: if_splits)

lemma fresh_idD: "fresh_id sid A \<Longrightarrow> A p = Some (s, vs) \<Longrightarrow> sec_id s \<noteq> sid"
  by (auto simp: fresh_id_def)

lemma gone_do: "gone sid I A lm \<Longrightarrow> set (drawn op) \<inter> I = {} \<Longrightarrow> gone sid (I \<union> set (drawn op)) (fst (spec_do op A)) lm"
  by (auto simp: gone_def intro!: fresh_id_do)

lemma gone_lease: "gone sid I A lm \<Longrightarrow> (\<And>uuid now v client ttl. op \<noteq> LCreate uuid now sid v client ttl) \<Longrightarrow> gone sid I A (lease_do op lm)"
  by (auto simp: gone_def lease_do_dead)

lemma spec_get_entry: "spec_get A p = Inr (s, d) \<Longrightarrow> \<exists>vs. A p = Some (s, vs)"
  by (auto simp: spec_get_def split: option.splits)

lemma spec_get_version_entry: "spec_get_version A p v = Inr (s, d) \<Longrightarrow> \<exists>vs. A p = Some (s, vs)"
  by (auto simp: spec_get_version_def bind_res_def split: option.splits sum.splits)

lemma spec_create_entry: "snd (spec_create uuid now A p d md) = Inr s \<Longrightarrow> \<exists>vs. fst (spec_create uuid now A p d md) p = Some (s, vs)"
  by (auto simp: spec_create_def split: if_splits)

lemma spec_update_entry: "snd (spec_update now A p d) = Inr s \<Longrightarrow> \<exists>vs. fst (spec_update now A p d) p = Some (s, vs)"
  by (auto simp: spec_update_def split: option.splits)

lemma vault_ok_mono: "vault_ok n I A \<Longrightarrow> n \<le> n' \<Longrightarrow> I \<subseteq> I' \<Longrightarrow> vault_ok n' I' A"
  by (force simp: vault_ok_def)

lemma manager_store:
  "sm_store (manager_do ops op m) = sm_store m \<or> (\<exists>sop. on_store op = [sop] \<and> sm_store (manager_do ops op m) = fst (store_do ops sop (sm_store m)))"
  by (cases op)
    (auto simp: create_secret_def read_secret_def update_secret_def delete_secret_def manager_renew_lease_def manager_revoke_lease_def
      revoke_secret_leases_def split_def Let_def split: sum.splits prod.splits)

context secret_store
begin

definition good :: "string \<Rightarrow> nat \<Rightarrow> string set \<Rightarrow> 's secrets_manager \<Rightarrow> bool" where
  "good sid n I m \<longleftrightarrow> inv (sm_store m) \<and> vault_ok n I (abs (sm_store m)) \<and> gone sid I (abs (sm_store m)) (sm_lease_manager m)"

lemma good_lease:
  assumes "good sid n I m" "\<And>uuid now v client ttl. op \<noteq> LCreate uuid now sid v client ttl"
    and "sm_store m' = sm_store m" "sm_lease_manager m' = lease_do op (sm_lease_manager m)"
  shows "good sid n I m'"
  using assms by (simp add: good_def gone_lease)

lemma good_store:
  assumes "good sid n I m" "run_ok writable n I [op]" "sm_store m' = fst (store_do ops op (sm_store m))" "sm_lease_manager m' = sm_lease_manager m"
  shows "good sid (Suc n) (I \<union> set (drawn op)) m' \<and> abs (sm_store m') = fst (spec_do op (abs (sm_store m))) \<and>
    snd (store_do ops op (sm_store m)) = snd (spec_do op (abs (sm_store m)))"
proof -
  have g: "inv (sm_store m)" "vault_ok n I (abs (sm_store m))" "gone sid I (abs (sm_store m)) (sm_lease_manager m)"
    using assms(1) by (auto simp: good_def)
  have "gone sid (I \<union> set (drawn op)) (fst (spec_do op (abs (sm_store m)))) (sm_lease_manager m)"
    using g(3) run_ok_Cons [OF assms(2)] by (intro gone_do) auto
  with step_refines [OF g(1,2) assms(2)] assms(3,4) show ?thesis by (auto simp: good_def)
qed

lemma good_entry: "good sid n I m \<Longrightarrow> abs (sm_store m) p = Some (s, vs) \<Longrightarrow> sec_id s \<noteq> sid"
  by (auto simp: good_def gone_def dest: fresh_idD)

lemma good_grant:
  assumes "good sid n I m" "abs (sm_store m) p = Some (s, vs)"
  shows "good sid n I (fst (grant_lease lid now m (sec_id s) v client ttl))"
  using good_entry [OF assms] by (intro good_lease [OF assms(1), of "LCreate lid now (sec_id s) v client ttl"]) auto

lemma good_create:
  assumes "good sid n I m" "run_ok writable n I [SCreate uuid now nonce p d md]"
  shows "good sid (Suc n) (I \<union> {uuid}) (fst (create_secret ops uuid lid now nonce m p d md client ttl))"
proof (cases "so_create ops uuid now nonce (sm_store m) p d md")
  case (Pair st r)
  let ?m1 = "m\<lparr>sm_store := st\<rparr>"
  have g: "good sid (Suc n) (I \<union> {uuid}) ?m1" using good_store [OF assms, of ?m1] Pair by auto
  have r: "spec_create uuid now (abs (sm_store m)) p d md = (abs st, r)"
    using create_law [of "sm_store m" nonce d uuid now p md] assms
      vault_ok_fresh [of n I "abs (sm_store m)" uuid] Pair by (auto simp: good_def run_ok_def)
  show ?thesis
  proof (cases r)
    case (Inr s)
    with r obtain vs where "abs (sm_store ?m1) p = Some (s, vs)"
      using spec_create_entry [of uuid now "abs (sm_store m)" p d md s] by auto
    from good_grant [OF g this] Inr Pair show ?thesis by (simp add: create_secret_def split_def Let_def)
  qed (use g Pair in \<open>simp add: create_secret_def\<close>)
qed

lemma good_update:
  assumes "good sid n I m" "run_ok writable n I [SUpdate now nonce p d]"
  shows "good sid (Suc n) I (fst (update_secret ops lid now nonce m p d client ttl))"
proof (cases "so_update ops now nonce (sm_store m) p d")
  case (Pair st r)
  let ?m1 = "m\<lparr>sm_store := st\<rparr>"
  have g: "good sid (Suc n) I ?m1" using good_store [OF assms, of ?m1] Pair by auto
  have r: "spec_update now (abs (sm_store m)) p d = (abs st, r)"
    using update_law [of "sm_store m" nonce d p now] assms
      vault_ok_room [of n I "abs (sm_store m)" p] Pair by (auto simp: good_def run_ok_def)
  show ?thesis
  proof (cases r)
    case (Inr s)
    with r obtain vs where "abs (sm_store ?m1) p = Some (s, vs)"
      using spec_update_entry [of now "abs (sm_store m)" p d s] by auto
    from good_grant [OF g this] Inr Pair show ?thesis by (simp add: update_secret_def split_def Let_def)
  qed (use g Pair in \<open>simp add: update_secret_def\<close>)
qed

lemma good_read:
  assumes "good sid n I m"
  shows "good sid n I (fst (read_secret ops lid now m p v client ttl))"
proof (cases "case v of Some w \<Rightarrow> so_get_version ops (sm_store m) p w | None \<Rightarrow> so_get ops (sm_store m) p")
  case (Inr x)
  then obtain s d where x: "x = (s, d)" by force
  have "\<exists>vs. abs (sm_store m) p = Some (s, vs)"
    using Inr x assms get_law get_version_law spec_get_entry spec_get_version_entry by (fastforce simp: good_def split: option.splits)
  then obtain vs where "abs (sm_store m) p = Some (s, vs)" by blast
  from good_grant [OF assms this] Inr x show ?thesis by (simp add: read_secret_def split_def Let_def)
qed (use assms in \<open>simp add: read_secret_def\<close>)

lemma good_mono: "good sid n I m \<Longrightarrow> good sid (Suc n) I m"
  by (auto simp: good_def intro: vault_ok_mono)

lemma good_delete:
  assumes "good sid n I m" "run_ok writable n I [SDelete p]"
  shows "good sid (Suc n) I (fst (delete_secret ops m p))"
proof (cases "so_get ops (sm_store m) p")
  case (Inr x)
  let ?m1 = "m\<lparr>sm_lease_manager := lease_do (LRevokeAll (sec_id (fst x))) (sm_lease_manager m)\<rparr>"
  have "good sid n I ?m1" by (rule good_lease [OF assms(1), of "LRevokeAll (sec_id (fst x))"]) auto
  from good_store [OF this assms(2), of "?m1\<lparr>sm_store := fst (so_delete ops (sm_store m) p)\<rparr>"] Inr show ?thesis
    by (auto simp: delete_secret_def split_def Let_def)
qed (use assms(1) good_mono in \<open>simp add: delete_secret_def\<close>)

lemma good_do:
  assumes "good sid n I m" "run_ok writable n I (on_store op)"
  shows "good sid (n + length (on_store op)) (I \<union> set (concat (map drawn (on_store op)))) (manager_do ops op m)"
proof (cases op)
  case (MRenew now lid inc)
  have "good sid n I (manager_do ops op m)"
    by (rule good_lease [OF assms(1), of "LRenew now lid inc"]) (auto simp: MRenew manager_renew_lease_def split_def Let_def)
  then show ?thesis by (simp add: MRenew)
next
  case (MRevoke lid)
  have "good sid n I (manager_do ops op m)"
    by (rule good_lease [OF assms(1), of "LRevoke lid"]) (auto simp: MRevoke manager_revoke_lease_def split_def Let_def)
  then show ?thesis by (simp add: MRevoke)
next
  case (MRevokeSecret sid')
  have "good sid n I (manager_do ops op m)"
    by (rule good_lease [OF assms(1), of "LRevokeAll sid'"]) (auto simp: MRevokeSecret revoke_secret_leases_def split_def Let_def)
  then show ?thesis by (simp add: MRevokeSecret)
next
  case (MExpire now lid)
  have "good sid n I (manager_do ops op m)"
    by (rule good_lease [OF assms(1), of "LExpire now lid"]) (auto simp: MExpire)
  then show ?thesis by (simp add: MExpire)
next
  case (MCleanup now)
  have "good sid n I (manager_do ops op m)"
    by (rule good_lease [OF assms(1), of "LCleanup now"]) (auto simp: MCleanup)
  then show ?thesis by (simp add: MCleanup)
qed (use assms good_create good_update good_read good_delete in auto)

lemma good_run:
  assumes "good sid n I m" "run_ok writable n I (concat (map on_store xs))"
  shows "\<exists>n I. good sid n I (run_ops (manager_do ops) m xs)"
  using assms
proof (induction xs arbitrary: n I m)
  case (Cons op xs)
  then have r: "run_ok writable n I (on_store op)"
    "run_ok writable (n + length (on_store op)) (I \<union> set (concat (map drawn (on_store op)))) (concat (map on_store xs))"
    using run_ok_append [of writable n I "on_store op"] by auto
  from Cons.IH [OF good_do [OF Cons.prems(1) r(1)] r(2)] show ?case by simp
qed auto

definition sound :: "nat \<Rightarrow> string set \<Rightarrow> 's \<Rightarrow> bool" where
  "sound n I st \<longleftrightarrow> inv st \<and> vault_ok n I (abs st) \<and> ids_apart (abs st)"

lemma sound_store:
  assumes "sound n I st" "run_ok writable n I [op]"
  shows "sound (Suc n) (I \<union> set (drawn op)) (fst (store_do ops op st))"
proof -
  have s: "inv st" "vault_ok n I (abs st)" "ids_apart (abs st)" using assms(1) by (auto simp: sound_def)
  have "ids_apart (fst (spec_do op (abs st)))"
    using s(3) run_ok_Cons [OF assms(2)] vault_ok_fresh [OF s(2)] by (intro ids_apart_do) auto
  with step_refines [OF s(1,2) assms(2)] show ?thesis by (auto simp: sound_def)
qed

lemma sound_mono: "sound n I st \<Longrightarrow> n \<le> n' \<Longrightarrow> I \<subseteq> I' \<Longrightarrow> sound n' I' st"
  by (auto simp: sound_def intro: vault_ok_mono)

lemma sound_do:
  assumes "sound n I (sm_store m)" "run_ok writable n I (on_store op)"
  shows "sound (n + length (on_store op)) (I \<union> set (concat (map drawn (on_store op)))) (sm_store (manager_do ops op m))"
  using manager_store [of ops op m] sound_mono [OF assms(1)] sound_store [OF assms(1)] assms(2) by auto

lemma sound_run:
  assumes "sound n I (sm_store m)" "run_ok writable n I (concat (map on_store xs))"
  shows "sound (n + length (concat (map on_store xs))) (I \<union> set (concat (map drawn (concat (map on_store xs))))) (sm_store (run_ops (manager_do ops) m xs))"
  using assms
proof (induction xs arbitrary: n I m)
  case (Cons op xs)
  then have r: "run_ok writable n I (on_store op)"
    "run_ok writable (n + length (on_store op)) (I \<union> set (concat (map drawn (on_store op)))) (concat (map on_store xs))"
    using run_ok_append [of writable n I "on_store op"] by auto
  from Cons.IH [OF sound_do [OF Cons.prems(1) r(1)] r(2)] show ?case by (simp add: Un_assoc add.assoc)
qed simp

lemma deleted_good:
  assumes "sound n I (sm_store m)" "run_ok writable n I [SDelete p]" "so_get ops (sm_store m) p = Inr (s, d)"
  shows "good (sec_id s) (Suc n) I (fst (delete_secret ops m p))"
proof -
  have s: "inv (sm_store m)" "vault_ok n I (abs (sm_store m))" "ids_apart (abs (sm_store m))" using assms(1) by (auto simp: sound_def)
  obtain vs where e: "abs (sm_store m) p = Some (s, vs)"
    using assms(3) get_law [OF s(1)] spec_get_entry by force
  have fresh: "fresh_id (sec_id s) (fst (spec_do (SDelete p) (abs (sm_store m))))"
    using s(3) e unfolding fresh_id_alt ids_apart_alt id_at_do by (auto simp: id_at_def)
  have sid: "sec_id s \<in> I" using s(2) e by (auto simp: vault_ok_def)
  from step_refines [OF s(1,2) assms(2)] fresh sid revoke_all_dead [of "sec_id s" "sm_lease_manager m"] assms(3) show ?thesis
    by (auto simp: good_def gone_def delete_secret_def split_def Let_def)
qed

lemma deleted_secret_unleased:
  assumes "sound n I (sm_store m)" "run_ok writable n I (concat (map on_store (xs @ MDelete p # ys)))"
    and "so_get ops (sm_store (run_ops (manager_do ops) m xs)) p = Inr (s, d)"
    and "manager_validate_lease now (run_ops (manager_do ops) m (xs @ MDelete p # ys)) lid = Inr l"
  shows "ls_secret_id l \<noteq> sec_id s"
proof -
  let ?m = "run_ops (manager_do ops) m xs" and ?X = "concat (map on_store xs)"
  have r: "run_ok writable n I ?X" "run_ok writable (n + length ?X) (I \<union> set (concat (map drawn ?X))) [SDelete p]"
    "run_ok writable (Suc (n + length ?X)) (I \<union> set (concat (map drawn ?X))) (concat (map on_store ys))"
    using assms(2) run_ok_append [of writable n I ?X]
      run_ok_append [of writable "n + length ?X" "I \<union> set (concat (map drawn ?X))" "[SDelete p]"] by auto
  from good_run [OF deleted_good [OF sound_run [OF assms(1) r(1)] r(2) assms(3)] r(3)] obtain n' I'
    where "good (sec_id s) n' I' (run_ops (manager_do ops) (fst (delete_secret ops ?m p)) ys)" by blast
  then have "dead_leases (sec_id s) (sm_lease_manager (run_ops (manager_do ops) m (xs @ MDelete p # ys)))"
    by (simp add: good_def gone_def)
  with assms(4) show ?thesis
    by (auto simp: manager_validate_lease_def validate_lease_def dead_leases_def dest!: map_of_SomeD split: option.splits if_splits)
qed

end

end
