(* ===== verification/Secret_Refinement.thy ===== *)
theory Secret_Refinement
  imports Secret_Manager
begin

text \<open>
  Both implementations of the secret store satisfy the interface: the in-memory store without condition, the encrypted store as far as what
  is written can be encrypted. Both keep a table of secrets and a table of versions; what differs is how an entry of the latter is read.
\<close>

section \<open>Two tables as a versioned map\<close>

definition table_abs :: "('v \<Rightarrow> 'j secret_data option) \<Rightarrow> (string \<Rightarrow> 'j secret option) \<Rightarrow> (string \<times> u32 \<Rightarrow> 'v option) \<Rightarrow> 'j vault_map" where
  "table_abs dec S D = (\<lambda>p. case S p of None \<Rightarrow> None | Some s \<Rightarrow> Some (s, \<lambda>v. case D (sec_id s, v) of None \<Rightarrow> None | Some x \<Rightarrow> dec x))"

definition table_inv :: "('v \<Rightarrow> 'j secret_data option) \<Rightarrow> (string \<Rightarrow> 'j secret option) \<Rightarrow> (string \<times> u32 \<Rightarrow> 'v option) \<Rightarrow> bool" where
  "table_inv dec S D \<longleftrightarrow>
     (\<forall>i v x. D (i, v) = Some x \<longrightarrow> dec x \<noteq> None \<and> (\<exists>p s. S p = Some s \<and> sec_id s = i \<and> v \<noteq> 0 \<and> v \<le> sec_current_version s)) \<and>
     (\<forall>p q s t. S p = Some s \<longrightarrow> S q = Some t \<longrightarrow> sec_id s = sec_id t \<longrightarrow> p = q)"

lemma table_inv_data: "table_inv dec S D \<Longrightarrow> D (i, v) = Some x \<Longrightarrow>
    dec x \<noteq> None \<and> (\<exists>p s. S p = Some s \<and> sec_id s = i \<and> v \<noteq> 0 \<and> v \<le> sec_current_version s)"
  by (simp add: table_inv_def)

lemma table_inv_apart: "table_inv dec S D \<Longrightarrow> S p = Some s \<Longrightarrow> S q = Some t \<Longrightarrow> sec_id s = sec_id t \<Longrightarrow> p = q"
  by (simp add: table_inv_def)

lemma table_invI:
  assumes "\<And>i v x. D (i, v) = Some x \<Longrightarrow> dec x \<noteq> None \<and> (\<exists>p s. S p = Some s \<and> sec_id s = i \<and> v \<noteq> 0 \<and> v \<le> sec_current_version s)"
    and "\<And>p q s t. S p = Some s \<Longrightarrow> S q = Some t \<Longrightarrow> sec_id s = sec_id t \<Longrightarrow> p = q"
  shows "table_inv dec S D"
  using assms unfolding table_inv_def by blast

lemma table_fresh: "fresh_id i (table_abs dec S D) \<longleftrightarrow> (\<forall>p s. S p = Some s \<longrightarrow> sec_id s \<noteq> i)"
  by (force simp: fresh_id_def table_abs_def split: option.splits)

abbreviation entry_versions :: "('v \<Rightarrow> 'j secret_data option) \<Rightarrow> (string \<times> u32 \<Rightarrow> 'v option) \<Rightarrow> 'j secret \<Rightarrow> u32 \<Rightarrow> 'j secret_data option" where
  "entry_versions dec D s \<equiv> \<lambda>v. case D (sec_id s, v) of None \<Rightarrow> None | Some x \<Rightarrow> dec x"

text \<open>Creation and update both write the entry of a secret and its newest version.\<close>

lemma table_put_inv:
  assumes inv: "table_inv dec S D" and others: "\<And>q t. S q = Some t \<Longrightarrow> q \<noteq> p \<Longrightarrow> sec_id t \<noteq> sec_id s'"
    and same: "\<And>t. S p = Some t \<Longrightarrow> sec_id t = sec_id s'" and old: "\<And>w x. D (sec_id s', w) = Some x \<Longrightarrow> w \<le> v"
    and v: "v = sec_current_version s'" "v \<noteq> 0" and c: "dec c \<noteq> None"
  shows "table_inv dec (S(p \<mapsto> s')) (D((sec_id s', v) \<mapsto> c))"
proof (rule table_invI)
  fix i w x assume D: "(D((sec_id s', v) \<mapsto> c)) (i, w) = Some x"
  show "dec x \<noteq> None \<and> (\<exists>q t. (S(p \<mapsto> s')) q = Some t \<and> sec_id t = i \<and> w \<noteq> 0 \<and> w \<le> sec_current_version t)"
  proof (cases "(i, w) = (sec_id s', v)")
    case True
    then show ?thesis using D c v by (intro conjI exI [of _ p] exI [of _ s']) auto
  next
    case False
    with D have D': "D (i, w) = Some x" by auto
    from table_inv_data [OF inv D'] obtain q t where t: "dec x \<noteq> None" "S q = Some t" "sec_id t = i" "w \<noteq> 0" "w \<le> sec_current_version t" by blast
    show ?thesis
    proof (cases "q = p")
      case True
      then show ?thesis using t same [of t] old [of w x] D' v(1) by (intro conjI exI [of _ p] exI [of _ s']) auto
    next
      case False
      then show ?thesis using t by (intro conjI exI [of _ q] exI [of _ t]) auto
    qed
  qed
next
  fix q r t u assume "(S(p \<mapsto> s')) q = Some t" "(S(p \<mapsto> s')) r = Some u" "sec_id t = sec_id u"
  then show "q = r" using others [of q t] others [of r u] table_inv_apart [OF inv, of q t r u] by (auto split: if_splits)
qed

lemma table_put_abs:
  assumes others: "\<And>q t. S q = Some t \<Longrightarrow> q \<noteq> p \<Longrightarrow> sec_id t \<noteq> sec_id s'"
  shows "table_abs dec (S(p \<mapsto> s')) (D((sec_id s', v) \<mapsto> c)) = (table_abs dec S D)(p \<mapsto> (s', (entry_versions dec D s')(v := dec c)))"
proof
  fix q show "table_abs dec (S(p \<mapsto> s')) (D((sec_id s', v) \<mapsto> c)) q = ((table_abs dec S D)(p \<mapsto> (s', (entry_versions dec D s')(v := dec c)))) q"
    using others by (cases "S q") (auto simp: table_abs_def fun_eq_iff)
qed

lemma table_create:
  assumes "table_inv dec S D" "S p = None" "fresh_id (sec_id s) (table_abs dec S D)" "sec_current_version s = 1" "dec c = Some d"
  shows "table_inv dec (S(p \<mapsto> s)) (D((sec_id s, 1) \<mapsto> c)) \<and> table_abs dec (S(p \<mapsto> s)) (D((sec_id s, 1) \<mapsto> c)) = (table_abs dec S D)(p \<mapsto> (s, [1 \<mapsto> d]))"
proof -
  have none: "D (sec_id s, v) = None" for v
    using table_inv_data [OF assms(1), of "sec_id s" v] assms(3) by (cases "D (sec_id s, v)") (auto simp: table_fresh)
  have "table_inv dec (S(p \<mapsto> s)) (D((sec_id s, 1) \<mapsto> c))"
    by (rule table_put_inv [OF assms(1)]) (use assms none in \<open>auto simp: table_fresh\<close>)
  moreover have "table_abs dec (S(p \<mapsto> s)) (D((sec_id s, 1) \<mapsto> c)) = (table_abs dec S D)(p \<mapsto> (s, (entry_versions dec D s)(1 := dec c)))"
    by (rule table_put_abs) (use assms(3) in \<open>auto simp: table_fresh\<close>)
  ultimately show ?thesis using none assms(5) by simp
qed

lemma table_update:
  assumes inv: "table_inv dec S D" and S: "S p = Some s" "sec_id s' = sec_id s" "sec_current_version s < sec_current_version s'" and c: "dec c = Some d"
  shows "table_inv dec (S(p \<mapsto> s')) (D((sec_id s', sec_current_version s') \<mapsto> c)) \<and>
    table_abs dec (S(p \<mapsto> s')) (D((sec_id s', sec_current_version s') \<mapsto> c)) =
      (table_abs dec S D)(p \<mapsto> (s', (entry_versions dec D s)(sec_current_version s' \<mapsto> d)))"
proof
  have others: "sec_id t \<noteq> sec_id s'" if "S q = Some t" "q \<noteq> p" for q t
    using table_inv_apart [OF inv that(1) S(1)] that(2) S(2) by auto
  have old: "w \<le> sec_current_version s'" if D: "D (sec_id s', w) = Some x" for w x
  proof -
    from table_inv_data [OF inv D] obtain q t where t: "S q = Some t" "sec_id t = sec_id s'" "w \<le> sec_current_version t" by blast
    with others [of q t] S(1) have "t = s" by (cases "q = p") auto
    with t S(3) show ?thesis by simp
  qed
  show "table_inv dec (S(p \<mapsto> s')) (D((sec_id s', sec_current_version s') \<mapsto> c))"
    by (rule table_put_inv [OF inv]) (use others old S c in auto)
  show "table_abs dec (S(p \<mapsto> s')) (D((sec_id s', sec_current_version s') \<mapsto> c)) =
      (table_abs dec S D)(p \<mapsto> (s', (entry_versions dec D s)(sec_current_version s' \<mapsto> d)))"
    using table_put_abs [of S p s' dec D "sec_current_version s'" c, OF others] S(2) c by simp
qed

lemma table_delete_entry:
  assumes inv: "table_inv dec S D" and S: "S p = Some s"
    and D': "\<And>i v. D' (i, v) = (if i = sec_id s \<and> v \<noteq> 0 \<and> v \<le> sec_current_version s then None else D (i, v))"
  shows "table_inv dec (S(p := None)) D' \<and> table_abs dec (S(p := None)) D' = (table_abs dec S D)(p := None)"
proof
  have others: "sec_id t \<noteq> sec_id s" if "S q = Some t" "q \<noteq> p" for q t using table_inv_apart [OF inv that(1) S] that(2) by auto
  show "table_inv dec (S(p := None)) D'"
  proof (rule table_invI)
    fix i v x assume *: "D' (i, v) = Some x"
    then have D: "D (i, v) = Some x" and n: "\<not> (i = sec_id s \<and> v \<noteq> 0 \<and> v \<le> sec_current_version s)" by (auto simp: D' split: if_splits)
    from table_inv_data [OF inv D] obtain q t where t: "dec x \<noteq> None" "S q = Some t" "sec_id t = i" "v \<noteq> 0" "v \<le> sec_current_version t" by blast
    with n S have "q \<noteq> p" by auto
    with t show "dec x \<noteq> None \<and> (\<exists>q t. (S(p := None)) q = Some t \<and> sec_id t = i \<and> v \<noteq> 0 \<and> v \<le> sec_current_version t)"
      by (intro conjI exI [of _ q] exI [of _ t]) auto
  qed (use table_inv_apart [OF inv] in \<open>auto split: if_splits\<close>)
  show "table_abs dec (S(p := None)) D' = (table_abs dec S D)(p := None)"
  proof
    fix q show "table_abs dec (S(p := None)) D' q = ((table_abs dec S D)(p := None)) q"
      using others [of q] by (cases "S q") (auto simp: table_abs_def D' fun_eq_iff)
  qed
qed

lemma table_destroy:
  assumes inv: "table_inv dec S D" and S: "S p = Some s"
  shows "table_inv dec S (D((sec_id s, v) := None)) \<and>
    table_abs dec S (D((sec_id s, v) := None)) = (table_abs dec S D)(p \<mapsto> (s, (entry_versions dec D s)(v := None)))"
proof
  show "table_inv dec S (D((sec_id s, v) := None))"
    using table_inv_data [OF inv] table_inv_apart [OF inv] by (intro table_invI) (auto split: if_splits)
  show "table_abs dec S (D((sec_id s, v) := None)) = (table_abs dec S D)(p \<mapsto> (s, (entry_versions dec D s)(v := None)))"
  proof
    fix q show "table_abs dec S (D((sec_id s, v) := None)) q = ((table_abs dec S D)(p \<mapsto> (s, (entry_versions dec D s)(v := None)))) q"
      using table_inv_apart [OF inv _ S, of q] S by (cases "S q") (auto simp: table_abs_def fun_eq_iff)
  qed
qed

lemma table_metadata:
  assumes inv: "table_inv dec S D" and S: "S p = Some s" and s': "sec_id s' = sec_id s" "sec_current_version s' = sec_current_version s"
  shows "table_inv dec (S(p \<mapsto> s')) D \<and> table_abs dec (S(p \<mapsto> s')) D = (table_abs dec S D)(p \<mapsto> (s', entry_versions dec D s))"
proof
  show "table_inv dec (S(p \<mapsto> s')) D"
  proof (rule table_invI)
    fix i v x assume "D (i, v) = Some x"
    from table_inv_data [OF inv this] obtain q t where t: "dec x \<noteq> None" "S q = Some t" "sec_id t = i" "v \<noteq> 0" "v \<le> sec_current_version t" by blast
    show "dec x \<noteq> None \<and> (\<exists>q t. (S(p \<mapsto> s')) q = Some t \<and> sec_id t = i \<and> v \<noteq> 0 \<and> v \<le> sec_current_version t)"
    proof (cases "q = p")
      case True
      then show ?thesis using t S s' by (intro conjI exI [of _ p] exI [of _ s']) auto
    next
      case False
      then show ?thesis using t by (intro conjI exI [of _ q] exI [of _ t]) auto
    qed
  next
    fix q r t u assume "(S(p \<mapsto> s')) q = Some t" "(S(p \<mapsto> s')) r = Some u" "sec_id t = sec_id u"
    then show "q = r" using table_inv_apart [OF inv, of q "if q = p then s else t" r "if r = p then s else u"] S s'(1) by (auto split: if_splits)
  qed
  show "table_abs dec (S(p \<mapsto> s')) D = (table_abs dec S D)(p \<mapsto> (s', entry_versions dec D s))"
    using s'(1) by (auto simp: table_abs_def fun_eq_iff)
qed

lemma table_empty: "table_inv dec Map.empty Map.empty \<and> table_abs dec Map.empty Map.empty = Map.empty"
  by (auto simp: table_inv_def table_abs_def)

section \<open>The operations that both stores share\<close>

definition tables_abs :: "('v \<Rightarrow> 'j secret_data option) \<Rightarrow> ('j, 'v) tables \<Rightarrow> 'j vault_map" where
  "tables_abs dec T = table_abs dec (map_of (tb_secrets T)) (map_of (tb_data T))"

definition tables_inv :: "('v \<Rightarrow> 'j secret_data option) \<Rightarrow> ('j, 'v) tables \<Rightarrow> bool" where
  "tables_inv dec T \<longleftrightarrow> table_inv dec (map_of (tb_secrets T)) (map_of (tb_data T)) \<and> distinct (map fst (tb_secrets T))"

lemma map_of_fold_delete: "map_of (fold (\<lambda>x. AList.delete (f x)) xs al) k = (if k \<in> f ` set xs then None else map_of al k)"
  by (induction xs arbitrary: al) (auto simp: delete_conv')

lemma versions_image: "(i, v) \<in> (\<lambda>n. (j, word_of_nat n)) ` {Suc 0..<Suc (unat c)} \<longleftrightarrow> i = j \<and> v \<noteq> 0 \<and> v \<le> (c :: u32)"
proof
  assume "(i, v) \<in> (\<lambda>n. (j, word_of_nat n)) ` {Suc 0..<Suc (unat c)}"
  then obtain n where n: "i = j" "v = word_of_nat n" "1 \<le> n" "n \<le> unat c" by auto
  have "n < 2 ^ 32" using n(4) unsigned_less [of c, where ?'a = nat] by simp
  then have "unat v = n" using n(2) by (simp add: unsigned_of_nat take_bit_nat_eq_self)
  with n show "i = j \<and> v \<noteq> 0 \<and> v \<le> c" by (auto simp: word_le_nat_alt)
next
  assume a: "i = j \<and> v \<noteq> 0 \<and> v \<le> c"
  then have "1 \<le> unat v" "unat v \<le> unat c" by (auto simp: word_le_nat_alt unat_gt_0 Suc_le_eq)
  with a show "(i, v) \<in> (\<lambda>n. (j, word_of_nat n)) ` {Suc 0..<Suc (unat c)}" by (intro image_eqI [of _ _ "unat v"]) auto
qed

lemma find_secret_cases: "find_secret T p = (case map_of (tb_secrets T) p of None \<Rightarrow> Inl (SecretNotFound p) | Some s \<Rightarrow> Inr s)"
  by (simp add: find_secret_def ok_or_def split: option.split)

lemma tables_abs_at: "tables_abs dec T p = (case map_of (tb_secrets T) p of None \<Rightarrow> None | Some s \<Rightarrow> Some (s, entry_versions dec (map_of (tb_data T)) s))"
  by (simp add: tables_abs_def table_abs_def)

lemma table_delete_refines:
  assumes "tables_inv dec T"
  shows "tables_inv dec (fst (table_delete T p)) \<and> map_prod (tables_abs dec) id (table_delete T p) = spec_delete (tables_abs dec T) p"
proof (cases "map_of (tb_secrets T) p")
  case (Some s)
  let ?T = "delete_versions (delete_secret_entry T p) s"
  have S: "map_of (tb_secrets ?T) = (map_of (tb_secrets T))(p := None)" "distinct (map fst (tb_secrets ?T))"
    using assms by (simp_all add: delete_versions_def delete_secret_entry_def delete_conv' distinct_delete tables_inv_def)
  have D: "map_of (tb_data ?T) (i, v) = (if i = sec_id s \<and> v \<noteq> 0 \<and> v \<le> sec_current_version s then None else map_of (tb_data T) (i, v))" for i v
    by (simp add: delete_versions_def delete_secret_entry_def map_of_fold_delete versions_image del: upt_Suc)
  have "tables_inv dec ?T \<and> tables_abs dec ?T = (tables_abs dec T)(p := None)"
    using table_delete_entry [of dec "map_of (tb_secrets T)" "map_of (tb_data T)" p s "map_of (tb_data ?T)", OF _ Some D] assms S by (simp add: tables_inv_def tables_abs_def)
  with Some show ?thesis by (simp add: table_delete_def find_secret_cases spec_delete_def tables_abs_at)
qed (use assms in \<open>simp add: table_delete_def find_secret_cases spec_delete_def tables_abs_at\<close>)

lemma table_destroy_refines:
  assumes "tables_inv dec T"
  shows "tables_inv dec (fst (table_destroy_version T p v)) \<and>
    map_prod (tables_abs dec) id (table_destroy_version T p v) = spec_destroy (tables_abs dec T) p v"
proof (cases "map_of (tb_secrets T) p")
  case (Some s)
  let ?T = "T\<lparr>tb_data := AList.delete (sec_id s, v) (tb_data T)\<rparr>"
  have ok: "tables_inv dec ?T \<and> tables_abs dec ?T = (tables_abs dec T)(p \<mapsto> (s, (entry_versions dec (map_of (tb_data T)) s)(v := None)))"
    using table_destroy [of dec "map_of (tb_secrets T)" "map_of (tb_data T)" p s v] Some assms by (simp add: tables_inv_def tables_abs_def delete_conv')
  have d: "map_of (tb_data T) (sec_id s, v) = Some x \<Longrightarrow> dec x \<noteq> None" for x
    using assms table_inv_data [of dec "map_of (tb_secrets T)" "map_of (tb_data T)" "sec_id s" v x] by (simp add: tables_inv_def)
  show ?thesis
    using ok Some assms d
    by (cases "map_of (tb_data T) (sec_id s, v)")
      (auto simp: table_destroy_version_def find_secret_cases spec_destroy_def tables_abs_at check_version_def find_data_def ok_or_def)
qed (use assms in \<open>simp add: table_destroy_version_def find_secret_cases spec_destroy_def tables_abs_at\<close>)

lemma table_metadata_refines:
  assumes "tables_inv dec T"
  shows "tables_inv dec (fst (table_update_metadata now T p md)) \<and>
    map_prod (tables_abs dec) id (table_update_metadata now T p md) = spec_update_metadata now (tables_abs dec T) p md"
proof (cases "map_of (tb_secrets T) p")
  case (Some s)
  let ?s = "s\<lparr>sec_metadata := md, sec_updated_at := now\<rparr>"
  have "tables_inv dec (set_secret T p ?s) \<and>
    tables_abs dec (set_secret T p ?s) = (tables_abs dec T)(p \<mapsto> (?s, entry_versions dec (map_of (tb_data T)) s))"
    using table_metadata [of dec "map_of (tb_secrets T)" "map_of (tb_data T)" p s ?s] Some assms
    by (simp add: tables_inv_def tables_abs_def set_secret_def update_conv' distinct_update)
  with Some show ?thesis by (simp add: table_update_metadata_def find_secret_cases spec_update_metadata_def tables_abs_at)
qed (use assms in \<open>simp add: table_update_metadata_def find_secret_cases spec_update_metadata_def tables_abs_at\<close>)

lemma table_exists_refines: "table_exists T p = Inr (tables_abs dec T p \<noteq> None)"
  by (simp add: table_exists_def tables_abs_at split: option.split)

lemma table_list_refines:
  assumes "tables_inv dec T"
  shows "\<exists>ps. table_list T pre = Inr ps \<and> distinct ps \<and> set ps = {p. tables_abs dec T p \<noteq> None \<and> path_starts_with p pre}"
proof -
  have "p \<in> fst ` set (tb_secrets T) \<longleftrightarrow> tables_abs dec T p \<noteq> None" for p
    using map_of_eq_None_iff [of "tb_secrets T" p] by (auto simp: tables_abs_at split: option.split)
  with assms show ?thesis by (auto simp: table_list_def tables_inv_def)
qed

text \<open>Creation and update, once what to store is known.\<close>

lemma set_tables:
  "map_of (tb_secrets (set_data (set_secret T p s) s' v c)) = (map_of (tb_secrets T))(p \<mapsto> s)"
  "map_of (tb_data (set_data (set_secret T p s) s' v c)) = (map_of (tb_data T))((sec_id s', v) \<mapsto> c)"
  "distinct (map fst (tb_secrets T)) \<Longrightarrow> distinct (map fst (tb_secrets (set_data (set_secret T p s) s' v c)))"
  by (simp_all add: set_data_def set_secret_def update_conv' distinct_update)

lemma create_tables:
  assumes "tables_inv dec T" "map_of (tb_secrets T) p = None" "fresh_id uuid (tables_abs dec T)" "dec c = Some d"
  shows "tables_inv dec (set_data (set_secret T p (new_secret uuid now p md)) (new_secret uuid now p md) 1 c) \<and>
    tables_abs dec (set_data (set_secret T p (new_secret uuid now p md)) (new_secret uuid now p md) 1 c) =
      (tables_abs dec T)(p \<mapsto> (new_secret uuid now p md, [1 \<mapsto> d]))"
  using table_create [of dec "map_of (tb_secrets T)" "map_of (tb_data T)" p "new_secret uuid now p md" c d] assms
  by (simp add: tables_inv_def tables_abs_def set_tables)

lemma room_next: "has_room A p \<Longrightarrow> A p = Some (s, vs) \<Longrightarrow> sec_current_version s < sec_current_version s + 1"
  by (auto simp: has_room_def word_less_nat_alt unat_word_ariths unsigned_minus_1_eq_mask mask_eq_exp_minus_1)

lemma update_tables:
  assumes "tables_inv dec T" "map_of (tb_secrets T) p = Some s" "has_room (tables_abs dec T) p" "dec c = Some d"
  shows "update_begin now T p = (set_secret T p (next_version now s), Inr (next_version now s)) \<and>
    tables_inv dec (update_finish (set_secret T p (next_version now s)) (next_version now s) c) \<and>
    tables_abs dec (update_finish (set_secret T p (next_version now s)) (next_version now s) c) =
      (tables_abs dec T)(p \<mapsto> (next_version now s, (entry_versions dec (map_of (tb_data T)) s)(sec_current_version s + 1 \<mapsto> d)))"
  using table_update [of dec "map_of (tb_secrets T)" "map_of (tb_data T)" p s "next_version now s" c d]
    room_next [OF assms(3), of s] assms(1,2,4)
  by (simp add: tables_inv_def tables_abs_def update_finish_def set_tables update_begin_def find_secret_cases table_abs_def)

section \<open>The in-memory store\<close>

interpretation memory: secret_store memory_ops "tables_abs Some" "tables_inv Some" "\<lambda>_. True"
proof
  fix T :: "'a memory_store" and p v uuid now nonce d md pre
  assume inv: "tables_inv Some T"
  show "so_get memory_ops T p = spec_get (tables_abs Some T) p"
    by (auto simp: memory_ops_def memory_get_def spec_get_def tables_abs_at find_secret_cases find_data_def ok_or_def split: option.split)
  show "so_get_version memory_ops T p v = spec_get_version (tables_abs Some T) p v"
    by (auto simp: memory_ops_def memory_get_version_def spec_get_version_def tables_abs_at find_secret_cases find_data_def ok_or_def bind_res_def
      split: option.split sum.split)
  show "tables_inv Some (fst (so_create memory_ops uuid now nonce T p d md)) \<and>
      map_prod (tables_abs Some) id (so_create memory_ops uuid now nonce T p d md) = spec_create uuid now (tables_abs Some T) p d md"
    if "fresh_id uuid (tables_abs Some T)"
    using create_tables [OF inv _ that, of p d d now md] inv
    by (auto simp: memory_ops_def memory_create_def spec_create_def tables_abs_at Let_def split: option.splits)
  show "tables_inv Some (fst (so_update memory_ops now nonce T p d)) \<and>
      map_prod (tables_abs Some) id (so_update memory_ops now nonce T p d) = spec_update now (tables_abs Some T) p d"
    if "has_room (tables_abs Some T) p"
    using update_tables [OF inv _ that, of _ d d now] inv
    by (cases "map_of (tb_secrets T) p")
      (auto simp: memory_ops_def memory_update_def spec_update_def tables_abs_at update_begin_def find_secret_cases)
  show "\<exists>ps. so_list memory_ops T pre = Inr ps \<and> distinct ps \<and> set ps = {p. tables_abs Some T p \<noteq> None \<and> path_starts_with p pre}"
    using table_list_refines [OF inv, of pre] by (simp add: memory_ops_def)
qed (simp_all add: memory_ops_def table_delete_refines table_destroy_refines table_metadata_refines
  table_exists_refines [of _ _ Some])

section \<open>The encrypted store\<close>

definition decoded :: "'j secret_env \<Rightarrow> bytes \<Rightarrow> bytes \<Rightarrow> 'j secret_data option" where
  "decoded E key c = (case decrypt_data E key c of Inl e \<Rightarrow> None | Inr d \<Rightarrow> Some d)"

definition vault_of :: "'j secret_env \<Rightarrow> 'j encrypted_store \<Rightarrow> 'j vault_map" where
  "vault_of E S = tables_abs (decoded E (es_encryption_key S)) (es_tables S)"

definition encrypted_inv :: "'j secret_env \<Rightarrow> bytes \<Rightarrow> 'j encrypted_store \<Rightarrow> bool" where
  "encrypted_inv E key S \<longleftrightarrow> es_encryption_key S = key \<and> tables_inv (decoded E key) (es_tables S)"

text \<open>What can be written: it is encrypted, and read back, under the key of the store.\<close>

definition sealable :: "'j secret_env \<Rightarrow> bytes \<Rightarrow> bytes option \<times> 'j secret_data \<Rightarrow> bool" where
  "sealable E key = (\<lambda>(nonce, d). case encrypt_data E nonce key d of Inl e \<Rightarrow> False | Inr c \<Rightarrow> decrypt_data E key c = Inr d)"

lemma sealable_iff: "sealable E key (nonce, d) \<longleftrightarrow> (\<exists>c. encrypt_data E nonce key d = Inr c \<and> decoded E key c = Some d)"
  by (auto simp: sealable_def decoded_def split: sum.splits)

interpretation encrypted: secret_store "encrypted_ops E" "vault_of E" "encrypted_inv E key" "sealable E key" for E key
proof
  fix S p v uuid now nonce d md pre
  assume "encrypted_inv E key S"
  then have k: "es_encryption_key S = key" and inv: "tables_inv (decoded E key) (es_tables S)" by (simp_all add: encrypted_inv_def)
  have dec: "\<exists>d. decrypt_data E key x = Inr d \<and> decoded E key x = Some d" if "map_of (tb_data (es_tables S)) (sec_id s, w) = Some x" for s w x
    using inv that table_inv_data [of "decoded E key" "map_of (tb_secrets (es_tables S))" "map_of (tb_data (es_tables S))" "sec_id s" w x]
    by (auto simp: tables_inv_def decoded_def split: sum.splits)
  show "so_get (encrypted_ops E) S p = spec_get (vault_of E S) p"
    using k by (auto simp: encrypted_ops_def encrypted_get_def spec_get_def vault_of_def tables_abs_at find_secret_cases find_data_def ok_or_def
      split: option.splits dest!: dec)
  show "so_get_version (encrypted_ops E) S p v = spec_get_version (vault_of E S) p v"
    using k by (auto simp: encrypted_ops_def encrypted_get_version_def spec_get_version_def vault_of_def tables_abs_at find_secret_cases find_data_def
      ok_or_def check_version_def split: option.splits dest!: dec)
  show "encrypted_inv E key (fst (so_create (encrypted_ops E) uuid now nonce S p d md)) \<and>
      map_prod (vault_of E) id (so_create (encrypted_ops E) uuid now nonce S p d md) = spec_create uuid now (vault_of E S) p d md"
    if "sealable E key (nonce, d)" "fresh_id uuid (vault_of E S)"
  proof -
    from that(1) obtain c where c: "encrypt_data E nonce key d = Inr c" "decoded E key c = Some d" by (auto simp: sealable_iff)
    from create_tables [OF inv _ _ c(2), of p uuid now md] that(2) k c(1) inv show ?thesis
      by (auto simp: encrypted_ops_def encrypted_create_def spec_create_def vault_of_def encrypted_inv_def tables_abs_at Let_def split: option.splits)
  qed
  show "encrypted_inv E key (fst (so_update (encrypted_ops E) now nonce S p d)) \<and>
      map_prod (vault_of E) id (so_update (encrypted_ops E) now nonce S p d) = spec_update now (vault_of E S) p d"
    if "sealable E key (nonce, d)" "has_room (vault_of E S) p"
  proof -
    from that(1) obtain c where c: "encrypt_data E nonce key d = Inr c" "decoded E key c = Some d" by (auto simp: sealable_iff)
    from update_tables [OF inv _ _ c(2), of p _ now] that(2) k c(1) inv show ?thesis
      by (cases "map_of (tb_secrets (es_tables S)) p")
        (auto simp: encrypted_ops_def encrypted_update_def spec_update_def vault_of_def encrypted_inv_def tables_abs_at find_secret_cases)
  qed
  show "encrypted_inv E key (fst (so_delete (encrypted_ops E) S p)) \<and> map_prod (vault_of E) id (so_delete (encrypted_ops E) S p) = spec_delete (vault_of E S) p"
    using table_delete_refines [OF inv, of p] k
    by (auto simp: encrypted_ops_def on_tables_def vault_of_def encrypted_inv_def split_def Let_def map_prod_def)
  show "encrypted_inv E key (fst (so_destroy_version (encrypted_ops E) S p v)) \<and>
      map_prod (vault_of E) id (so_destroy_version (encrypted_ops E) S p v) = spec_destroy (vault_of E S) p v"
    using table_destroy_refines [OF inv, of p v] k
    by (auto simp: encrypted_ops_def on_tables_def vault_of_def encrypted_inv_def split_def Let_def map_prod_def)
  show "encrypted_inv E key (fst (so_update_metadata (encrypted_ops E) now S p md)) \<and>
      map_prod (vault_of E) id (so_update_metadata (encrypted_ops E) now S p md) = spec_update_metadata now (vault_of E S) p md"
    using table_metadata_refines [OF inv, of now p md] k
    by (auto simp: encrypted_ops_def on_tables_def vault_of_def encrypted_inv_def split_def Let_def map_prod_def)
  show "so_exists (encrypted_ops E) S p = Inr (vault_of E S p \<noteq> None)"
    by (simp add: encrypted_ops_def vault_of_def table_exists_refines [of _ _ "decoded E (es_encryption_key S)"])
  show "\<exists>ps. so_list (encrypted_ops E) S pre = Inr ps \<and> distinct ps \<and> set ps = {p. vault_of E S p \<noteq> None \<and> path_starts_with p pre}"
    using table_list_refines [OF inv, of pre] k by (simp add: encrypted_ops_def vault_of_def)
qed

end
