(* ===== verification/Secret_Properties.thy ===== *)
theory Secret_Properties
  imports Secret_Refinement
begin

text \<open>
  What the secret stores and the manager of secrets guarantee, with a sample cipher and a sample encoding for the evaluations.
\<close>

section \<open>What the encrypted store relies on\<close>

text \<open>The documented behaviour of the cipher: it seals every message up to the limit, and opens what it sealed.\<close>

definition cipher_law :: "'j secret_env \<Rightarrow> bool" where
  "cipher_law E \<longleftrightarrow> aead_law (aes256 (se_ciphers E)) \<and>
     (\<forall>key nonce m. length key = 32 \<longrightarrow> length nonce = 12 \<longrightarrow> length m \<le> MAX_PLAINTEXT_SIZE \<longrightarrow>
        (\<exists>c. ae_seal (aes256 (se_ciphers E)) key nonce [] m = Inr c))"

text \<open>A piece of data as it is written: with a nonce of 12 bytes, and with a JSON text within the limit that is read back as the data.\<close>

definition plain :: "'j secret_env \<Rightarrow> bytes option \<times> 'j secret_data \<Rightarrow> bool" where
  "plain E = (\<lambda>(nonce, d). (case nonce of None \<Rightarrow> False | Some n \<Rightarrow> length n = 12) \<and>
     (case se_to_vec E d of Inl e \<Rightarrow> False | Inr m \<Rightarrow> length m \<le> MAX_PLAINTEXT_SIZE \<and> se_from_slice E m = Inr d))"

lemma plain_sealable:
  assumes "cipher_law E" "length key = 32" "plain E x"
  shows "sealable E key x"
proof (cases x)
  case (Pair nonce d)
  with assms(3) obtain n m where n: "nonce = Some n" "length n = 12" "se_to_vec E d = Inr m" "length m \<le> MAX_PLAINTEXT_SIZE" "se_from_slice E m = Inr d"
    by (auto simp: plain_def split: option.splits sum.splits)
  with assms(1,2) obtain c where c: "ae_seal (aes256 (se_ciphers E)) key n [] m = Inr c" unfolding cipher_law_def by blast
  have e: "encrypt_aes256 (se_ciphers E) nonce key m None = Inr (n @ c)"
    using c n assms(2) by (simp add: encrypt_aes256_def check_key_def check_plaintext_def seal_message_def or_empty_def)
  then have "decrypt_aes256 (se_ciphers E) key (n @ c) None = Inr m"
    using assms(1) n by (intro decrypt_encrypt [where nonce = nonce]) (auto simp: cipher_law_def)
  with e n Pair show ?thesis by (simp add: sealable_def encrypt_data_def decrypt_data_def)
qed

text \<open>A run that the stores can follow: identifiers drawn once, and fewer operations than version numbers.\<close>

definition fresh_run :: "'j store_op list \<Rightarrow> bool" where
  "fresh_run xs \<longleftrightarrow> distinct (concat (map drawn xs)) \<and> length xs < 2 ^ 32 - 1"

lemma fresh_run_ok: "fresh_run xs \<Longrightarrow> list_all W (concat (map written xs)) \<Longrightarrow> run_ok W 0 {} xs"
  by (simp add: fresh_run_def run_ok_def)

lemma plain_run_ok:
  assumes "cipher_law E" "length key = 32" "fresh_run xs" "list_all (plain E) (concat (map written xs))"
  shows "run_ok (sealable E key) 0 {} xs"
proof (rule fresh_run_ok [OF assms(3)])
  show "list_all (sealable E key) (concat (map written xs))"
    using assms(4) plain_sealable [OF assms(1,2)] by (auto simp: list_all_iff)
qed

lemma empty_encrypted:
  assumes "encrypted_with_key key = Some S"
  shows "length key = 32" "encrypted_inv E key S" "vault_of E S = Map.empty"
  using assms
  by (auto simp: table_empty encrypted_with_key_def encrypted_inv_def vault_of_def tables_inv_def tables_abs_def empty_tables_def split: if_splits)

lemma empty_vault_ok [simp]: "vault_ok n I Map.empty" "ids_apart Map.empty"
  by (simp_all add: vault_ok_def ids_apart_def)

lemma empty_memory: "tables_inv Some empty_tables" "tables_abs Some empty_tables = Map.empty"
  by (auto simp: table_empty tables_inv_def tables_abs_def empty_tables_def)

lemma encrypted_run:
  assumes "cipher_law E" "encrypted_with_key key = Some S" "fresh_run xs" "list_all (plain E) (concat (map written xs))"
  shows "encrypted_inv E key (store_run (encrypted_ops E) S xs)" "vault_of E (store_run (encrypted_ops E) S xs) = spec_run Map.empty xs"
    "answers (store_do (encrypted_ops E)) S xs = answers spec_do Map.empty xs"
proof -
  note e = empty_encrypted [OF assms(2)]
  show "encrypted_inv E key (store_run (encrypted_ops E) S xs)" "vault_of E (store_run (encrypted_ops E) S xs) = spec_run Map.empty xs"
    "answers (store_do (encrypted_ops E)) S xs = answers spec_do Map.empty xs"
    using encrypted.run_refines [OF e(2) [of E], where n = 0 and I = "{}" and xs = xs] plain_run_ok [OF assms(1) e(1) assms(3,4)] e(3) [of E]
    by simp_all
qed

lemma ops_simps:
  "so_get (encrypted_ops E) = encrypted_get E" "so_get_version (encrypted_ops E) = encrypted_get_version E"
  "so_exists (encrypted_ops E) S = table_exists (es_tables S)" "so_list (encrypted_ops E) S = table_list (es_tables S)"
  "so_get memory_ops = memory_get" "so_get_version memory_ops = memory_get_version"
  by (simp_all add: encrypted_ops_def memory_ops_def)

section \<open>A sample environment\<close>

text \<open>A toy cipher that appends half of the key as the tag, and an encoding of data with a single binary entry.\<close>

definition toy_aead :: aead where
  "toy_aead = \<lparr>ae_seal = (\<lambda>key nonce aad m. Inr (m @ take 16 (key @ replicate 16 0))),
     ae_open = (\<lambda>key nonce aad c. let n = length c - 16 in
       if length c \<ge> 16 \<and> drop n c = take 16 (key @ replicate 16 0) then Inr (take n c) else Inl ''aead::Error'')\<rparr>"

definition toy_env :: "unit secret_env" where
  "toy_env = \<lparr>se_ciphers = \<lparr>aes256 = toy_aead, aes128 = toy_aead\<rparr>,
     se_to_vec = (\<lambda>d. case d of [(k, SBinary b)] \<Rightarrow> if k = ''v'' then Inr b else Inl ''unsupported'' | _ \<Rightarrow> Inl ''unsupported''),
     se_from_slice = (\<lambda>b. Inr [(''v'', SBinary b)])\<rparr>"

lemma toy_cipher_law: "cipher_law toy_env"
  by (auto simp: cipher_law_def toy_env_def toy_aead_def aead_law_def Let_def)

abbreviation toy_data :: "bytes \<Rightarrow> unit secret_data" where
  "toy_data b \<equiv> [(''v'', SBinary b)]"

definition toy_key :: bytes where
  "toy_key = replicate 32 7"

definition toy_nonce :: "bytes option" where
  "toy_nonce = Some (replicate 12 1)"

definition toy_store :: "unit encrypted_store" where
  "toy_store = \<lparr>es_tables = empty_tables, es_encryption_key = toy_key\<rparr>"

lemma toy_store_new: "encrypted_with_key toy_key = Some toy_store"
  by (simp add: encrypted_with_key_def toy_store_def toy_key_def)

lemma toy_plain: "length b \<le> 100 \<Longrightarrow> plain toy_env (toy_nonce, toy_data b)"
  by (simp add: plain_def toy_env_def toy_nonce_def MAX_PLAINTEXT_SIZE_def)

definition toy_ops :: "unit store_op list" where
  "toy_ops = [SCreate ''id1'' 0 toy_nonce ''/db'' (toy_data [1, 2]) metadata_default, SUpdate 5 toy_nonce ''/db'' (toy_data [3])]"

definition toy_more :: "unit store_op list" where
  "toy_more = [SCreate ''id2'' 7 toy_nonce ''/api'' (toy_data []) metadata_default, SUpdate 8 toy_nonce ''/db'' (toy_data [4]), SDestroy ''/db'' 2,
     SDelete ''/api'', SUpdate 9 toy_nonce ''/api'' (toy_data [5])]"

lemma toy_fresh: "fresh_run toy_ops" "fresh_run (toy_ops @ toy_more)"
  by (simp_all add: fresh_run_def toy_ops_def toy_more_def)

lemma toy_written: "list_all (plain toy_env) (concat (map written toy_ops))" "list_all (plain toy_env) (concat (map written (toy_ops @ toy_more)))"
  by (simp_all add: toy_ops_def toy_more_def toy_plain)

definition toy_config :: lease_config where
  "toy_config = \<lparr>lc_default_ttl = 10, lc_max_ttl = 25, lc_renewable = True\<rparr>"

definition toy_before :: "unit manager_op list" where
  "toy_before = [MCreate ''id1'' ''l1'' 0 toy_nonce ''/db'' (toy_data [1]) metadata_default ''app'' None,
     MCreate ''id2'' ''l2'' 0 toy_nonce ''/api'' (toy_data [2]) metadata_default ''app'' None]"

definition toy_after :: "unit manager_op list" where
  "toy_after = [MRead ''l3'' 2 ''/api'' None ''app'' (Some 20), MRenew 3 ''l1'' None]"

lemma toy_manager:
  "fresh_run (concat (map on_store (toy_before @ MDelete ''/db'' # toy_after)))"
  "list_all (plain toy_env) (concat (map written (concat (map on_store (toy_before @ MDelete ''/db'' # toy_after)))))"
  by (simp_all add: fresh_run_def toy_before_def toy_after_def toy_plain)

definition map_res_data :: "(secret_error, 'j secret \<times> 'j secret_data) res \<Rightarrow> (string \<times> 'j secret_data) option" where
  "map_res_data r = (case r of Inl e \<Rightarrow> None | Inr (s, d) \<Rightarrow> Some (sec_id s, d))"

lemma map_res_dataD: "map_res_data r = Some (i, d) \<Longrightarrow> \<exists>s. r = Inr (s, d) \<and> sec_id s = i"
  by (auto simp: map_res_data_def split: sum.splits)

section \<open>Properties\<close>






lemma toy_version: "map_res_data (encrypted_get_version toy_env (store_run (encrypted_ops toy_env) toy_store toy_ops) ''/db'' 1) = Some (''id1'', toy_data [1, 2])"
proof -
  note r = encrypted_run [OF toy_cipher_law toy_store_new toy_fresh(1) toy_written(1)]
  have "encrypted_get_version toy_env (store_run (encrypted_ops toy_env) toy_store toy_ops) ''/db'' 1 = spec_get_version (spec_run Map.empty toy_ops) ''/db'' 1"
    using encrypted.get_version_law [OF r(1)] r(2) by (simp add: ops_simps)
  then show ?thesis
    by (simp add: toy_ops_def spec_create_def spec_update_def spec_get_version_def check_version_def map_res_data_def)
qed



lemma toy_encrypt: "length b \<le> 100 \<Longrightarrow> encrypt_data toy_env toy_nonce toy_key (toy_data b) = Inr (replicate 12 1 @ b @ replicate 16 7)"
  by (simp add: encrypt_data_def toy_env_def toy_nonce_def toy_key_def encrypt_aes256_def check_key_def check_plaintext_def MAX_PLAINTEXT_SIZE_def
    seal_message_def toy_aead_def)

lemma toy_decrypt: "decrypt_data toy_env toy_key (replicate 12 1 @ x # replicate 16 7) = Inr (toy_data [x])"
  by (simp add: decrypt_data_def toy_env_def toy_key_def decrypt_aes256_def check_key_def check_ciphertext_def MIN_CIPHERTEXT_SIZE_def
    open_message_def toy_aead_def)

lemmas toy_eval = with_lease_config_def toy_store_def toy_config_def lease_manager_new_def empty_tables_def create_secret_def read_secret_def
  delete_secret_def manager_renew_lease_def encrypted_ops_def encrypted_create_def encrypted_get_def toy_encrypt toy_decrypt
  set_data_def set_secret_def new_secret_def grant_lease_def create_lease_def renew_lease_def put_lease_def send_event_def revoke_all_def
  find_secret_def find_data_def on_tables_def table_delete_def delete_versions_def delete_secret_entry_def ok_or_def Let_def

lemma toy_deleted:
  "map_res_data (encrypted_get toy_env (sm_store (run_ops (manager_do (encrypted_ops toy_env)) (with_lease_config toy_store [] toy_config) toy_before)) ''/db'') =
     Some (''id1'', toy_data [1])"
  by (simp add: toy_before_def toy_eval map_res_data_def)

lemma toy_valid:
  "case manager_validate_lease 4 (run_ops (manager_do (encrypted_ops toy_env)) (with_lease_config toy_store [] toy_config)
     (toy_before @ MDelete ''/db'' # toy_after)) ''l3'' of Inl e \<Rightarrow> False | Inr l \<Rightarrow> True"
  by (simp add: toy_before_def toy_after_def toy_eval manager_validate_lease_def validate_lease_def)


section \<open>Leases end\<close>

lemma lease_origin:
  assumes "(lid, l) \<in> set (lm_leases (run_ops lease_do (lease_manager_new c) xs))"
  shows "\<exists>t sid v client ttl. LCreate lid t sid v client ttl \<in> set xs \<and> ls_secret_id l = sid \<and> ls_version l = v \<and> ls_client_id l = client \<and>
    ls_created_at l = t"
  using assms
proof (induction xs arbitrary: l rule: rev_induct)
  case (snoc op xs)
  from lease_do_lease [of lid l op "run_ops lease_do (lease_manager_new c) xs"] snoc.prems snoc.IH show ?case
    by (fastforce simp: create_lease_def Let_def)
qed (simp add: lease_manager_new_def)

lemma run_bounded: "leases_bounded m \<Longrightarrow> leases_bounded (run_ops lease_do m xs) \<and> lm_config (run_ops lease_do m xs) = lm_config m"
  by (induction xs arbitrary: m) (simp_all add: lease_do_bounded)

text \<open>C39: A lease that is found valid was created, for its secret, version and client, less than the largest time to live ago: renewals
  do not carry a lease beyond that.\<close>

theorem lease_ends_with_max_ttl:
  assumes "validate_lease now (run_ops lease_do (lease_manager_new c) xs) lid = Inr l"
  shows "\<exists>t ttl. LCreate lid t (ls_secret_id l) (ls_version l) (ls_client_id l) ttl \<in> set xs \<and> now < t + lc_max_ttl c"
proof -
  let ?m = "run_ops lease_do (lease_manager_new c) xs"
  have l: "(lid, l) \<in> set (lm_leases ?m)" "now < ls_expires_at l"
    using assms by (auto simp: validate_lease_def dest: map_of_SomeD split: option.splits if_splits)
  have "leases_bounded (lease_manager_new c)" by (simp add: leases_bounded_def lease_manager_new_def)
  from run_bounded [OF this, of xs] l(1) have "ls_expires_at l \<le> ls_created_at l + lc_max_ttl c"
    by (auto simp: leases_bounded_def lease_manager_new_def)
  with l lease_origin [OF l(1)] show ?thesis by force
qed

theorem lease_ends_with_max_ttl_witness:
  "\<exists>t ttl. LCreate ''l1'' t ''id1'' 1 ''app'' ttl \<in> set [LCreate ''l1'' 0 ''id1'' 1 ''app'' None, LRenew 9 ''l1'' (Some 100)] \<and> 24 < t + 25"
  using lease_ends_with_max_ttl [of 24 toy_config "[LCreate ''l1'' 0 ''id1'' 1 ''app'' None, LRenew 9 ''l1'' (Some 100)]" "''l1''"]
  by (simp add: toy_config_def validate_lease_def lease_manager_new_def create_lease_def renew_lease_def put_lease_def send_event_def Let_def)

end
