(* ===== verification/Secret_Races.thy ===== *)
theory Secret_Races
  imports Secret_Refinement
begin

text \<open>
  Operations of the secret store that give up a lock half way, and what another task can do in between: an update counts the version up under
  one lock and stores the data under the next, a read through the manager takes the data first and the lease later.
\<close>

section \<open>Data without a secret\<close>

definition unowned :: "string \<Rightarrow> ('j, 'v) tables \<Rightarrow> bool" where
  "unowned i T \<longleftrightarrow> (\<forall>p s. map_of (tb_secrets T) p = Some s \<longrightarrow> sec_id s \<noteq> i)"

lemma unowned_set_secret: "unowned i T \<Longrightarrow> sec_id s \<noteq> i \<Longrightarrow> unowned i (set_secret T p s)"
  by (simp add: unowned_def set_secret_def update_conv')

lemma unowned_find: "unowned i T \<Longrightarrow> find_secret T p = Inr s \<Longrightarrow> sec_id s \<noteq> i"
  by (auto simp: unowned_def find_secret_cases split: option.splits)

lemma unowned_data [simp]: "unowned i (set_data T s v d) = unowned i T" "unowned i (T\<lparr>tb_data := D\<rparr>) = unowned i T"
  by (simp_all add: unowned_def set_data_def)

lemma tables_data [simp]: "tb_data (set_secret T p s) = tb_data T" "tb_data (set_data T s v d) = AList.update (sec_id s, v) d (tb_data T)"
  "tb_data (delete_secret_entry T p) = tb_data T"
  by (simp_all add: set_secret_def set_data_def delete_secret_entry_def)

lemma unowned_delete: "unowned i T \<Longrightarrow> unowned i (delete_secret_entry T p)"
  by (simp add: unowned_def delete_secret_entry_def delete_conv')

lemma orphan_do:
  assumes "unowned i T" "i \<notin> set (drawn op)"
  shows "unowned i (fst (store_do memory_ops op T)) \<and> map_of (tb_data (fst (store_do memory_ops op T))) (i, v) = map_of (tb_data T) (i, v)"
proof (cases op)
  case (SCreate uuid now nonce p d md)
  with assms show ?thesis
    by (simp add: memory_ops_def memory_create_def Let_def unowned_set_secret update_conv')
next
  case (SUpdate now nonce p d)
  with assms unowned_find [OF assms(1), of p] show ?thesis
    by (cases "find_secret T p")
      (auto simp: memory_ops_def memory_update_def update_begin_def update_finish_def unowned_set_secret update_conv')
next
  case (SDelete p)
  with assms unowned_find [OF assms(1), of p] show ?thesis
    by (cases "find_secret T p")
      (auto simp: memory_ops_def table_delete_def delete_versions_def unowned_delete map_of_fold_delete)
next
  case (SDestroy p w)
  with assms unowned_find [OF assms(1), of p] show ?thesis
    by (auto simp: memory_ops_def table_destroy_version_def bind_res_def delete_conv' split: sum.splits if_splits)
next
  case (SSetMetadata now p md)
  with assms unowned_find [OF assms(1), of p] show ?thesis
    by (cases "find_secret T p") (auto simp: memory_ops_def table_update_metadata_def unowned_set_secret)
qed

lemma orphan_run:
  "unowned i T \<Longrightarrow> i \<notin> set (concat (map drawn xs)) \<Longrightarrow>
   unowned i (store_run memory_ops T xs) \<and> map_of (tb_data (store_run memory_ops T xs)) (i, v) = map_of (tb_data T) (i, v)"
proof (induction xs arbitrary: T)
  case (Cons op xs)
  with orphan_do [of i T op v] show ?case by auto
qed simp

text \<open>An update of a secret during which another task deletes the secret.\<close>

definition overtaken_update :: "int \<Rightarrow> 'j memory_store \<Rightarrow> string \<Rightarrow> 'j secret_data \<Rightarrow> 'j memory_store \<times> (secret_error, 'j secret) res" where
  "overtaken_update now T p d =
     (case update_begin now T p of (T1, Inl e) \<Rightarrow> (T1, Inl e) | (T1, Inr s) \<Rightarrow> (update_finish (fst (table_delete T1 p)) s d, Inr s))"

lemma overtaken_update_found:
  assumes "tables_inv Some T" "find_secret T p = Inr s"
  shows "overtaken_update now T p d = (update_finish (fst (table_delete (set_secret T p (next_version now s)) p)) (next_version now s) d, Inr (next_version now s)) \<and>
    unowned (sec_id s) (fst (overtaken_update now T p d)) \<and>
    map_of (tb_data (fst (overtaken_update now T p d))) (sec_id s, sec_current_version s + 1) = Some d"
proof -
  have p: "map_of (tb_secrets T) p = Some s" using assms(2) by (auto simp: find_secret_cases split: option.splits)
  have others: "sec_id t \<noteq> sec_id s" if "map_of (tb_secrets T) q = Some t" "q \<noteq> p" for q t
    using table_inv_apart [of Some "map_of (tb_secrets T)" "map_of (tb_data T)" q t p s] that p assms(1) by (auto simp: tables_inv_def)
  have eq: "overtaken_update now T p d = (update_finish (fst (table_delete (set_secret T p (next_version now s)) p)) (next_version now s) d, Inr (next_version now s))"
    using assms(2) by (simp add: overtaken_update_def update_begin_def)
  moreover have "unowned (sec_id s) (fst (overtaken_update now T p d))"
    using others unfolding eq
    by (auto simp: update_finish_def table_delete_def find_secret_cases set_secret_def update_conv' delete_versions_def delete_secret_entry_def
      unowned_def set_data_def delete_conv' split: if_splits)
  moreover have "map_of (tb_data (fst (overtaken_update now T p d))) (sec_id s, sec_current_version s + 1) = Some d"
    unfolding eq by (simp add: update_finish_def set_data_def update_conv')
  ultimately show ?thesis by blast
qed

text \<open>C40: An update that is overtaken by the deletion of its secret answers with success and leaves the new data in the table although
  the secret is gone, and no later operation removes the data: the secret cannot be found, and the identifier of the data is not drawn
  again.\<close>

theorem overtaken_update_leaves_data:
  assumes "tables_inv Some T" "find_secret T p = Inr s" "sec_id s \<notin> set (concat (map drawn xs))"
  shows "snd (overtaken_update now T p d) = Inr (next_version now s) \<and>
    map_of (tb_data (store_run memory_ops (fst (overtaken_update now T p d)) xs)) (sec_id s, sec_current_version s + 1) = Some d \<and>
    unowned (sec_id s) (store_run memory_ops (fst (overtaken_update now T p d)) xs)"
  using overtaken_update_found [OF assms(1,2), of now d] orphan_run [of "sec_id s" "fst (overtaken_update now T p d)" xs, OF _ assms(3)] by auto

definition raced_store :: "unit memory_store" where
  "raced_store = fst (memory_create ''id1'' 0 empty_tables ''/db'' [] metadata_default)"

theorem overtaken_update_leaves_data_witness:
  "map_of (tb_data (store_run memory_ops (fst (overtaken_update 5 raced_store ''/db'' [(''k'', SString ''v'')])) [SDelete ''/db'']))
     (''id1'', 2) = Some [(''k'', SString ''v'')]"
proof -
  have e: "tables_inv Some (empty_tables :: unit memory_store)" "tables_abs Some (empty_tables :: unit memory_store) = Map.empty"
    by (auto simp: table_empty tables_inv_def tables_abs_def empty_tables_def)
  have "tables_inv Some raced_store"
    using memory.create_law [OF e(1), where uuid = "''id1''" and now = 0 and p = "''/db''" and d = "[]" and md = metadata_default] e(2)
    by (simp add: raced_store_def memory_ops_def fresh_id_def)
  moreover have "find_secret raced_store ''/db'' = Inr (new_secret ''id1'' 0 ''/db'' metadata_default)"
    by (simp add: raced_store_def memory_create_def empty_tables_def Let_def set_data_def set_secret_def find_secret_def ok_or_def)
  ultimately show ?thesis
    using overtaken_update_leaves_data [of raced_store "''/db''" "new_secret ''id1'' 0 ''/db'' metadata_default" "[SDelete ''/db'']" 5
      "[(''k'', SString ''v'')]"] by simp
qed

section \<open>A lease after the deletion\<close>

text \<open>A read takes the secret from the store, another task deletes the secret, and then the read takes its lease: the lease is valid
  although the secret is gone.\<close>

lemma late_lease_is_valid:
  assumes "so_get ops (sm_store m) p = Inr (s, d)" "0 < ttl" "0 < lc_max_ttl (lm_config (sm_lease_manager m))"
  shows "\<exists>l. manager_validate_lease now (fst (grant_lease lid now (fst (delete_secret ops m p)) (sec_id s) v client (Some ttl))) lid = Inr l \<and>
    ls_secret_id l = sec_id s"
  using assms
  by (simp add: manager_validate_lease_def validate_lease_def grant_lease_def create_lease_def delete_secret_def put_lease_def update_conv'
    revoke_all_def Let_def split_def)

end
