(* ===== verification/Spec2Isabelle.thy ===== *)
theory Spec2Isabelle
  imports Slashing_Properties Eots_Safety Eth_Safety Interchange_Properties Audit_Chain Merkle Ttlv Raft_Safety
    Auth_Properties Session_Properties Recovery_Codes Recovery_Locks
    Policy_Spending Policy_Votes Policy_Scopes Storage_Properties
    Secret_Properties Secret_Races
begin

text \<open>
  A verification development of a software hardware security module written in Rust (\<^verbatim>\<open>src/crates\<close>).

  \<^bold>\<open>The program.\<close> Validators sign attestations and blocks (Ethereum) and finality votes (Babylon) only
  after a slashing protection database has recorded them; that data is exchanged between installations
  in the EIP-3076 format. Every operation is recorded in an audit log, a hash chain with a Merkle tree over it. Clients talk
  KMIP messages in the TTLV encoding, are authorized through roles, namespaces and access lists, and hold
  sessions. Several nodes form a cluster with a replicated log and a state machine that refuses to sign twice. Keys are kept in
  encrypted files behind a write-ahead journal. Secrets are kept in versions, encrypted, and handed out with leases.

  \<^bold>\<open>Theories and sources.\<close>
  \<^item> \<open>Hsm_Prelude\<close>: words, byte strings, \<^verbatim>\<open>Result\<close> with its \<^verbatim>\<open>?\<close>, integer encodings, decimal text.
  \<^item> \<open>Sled_Store\<close>: the embedded database sled is a parameter record of its operations. \<open>sled_laws\<close> says what
    its documentation promises of reads, writes and flushes with errors allowed anywhere, \<open>fault_free\<close> that there are none,
    \<open>recovered\<close> which contents a crash may leave. Three concrete stores satisfy the laws.
  \<^item> \<open>Slashing_Db\<close>: \<^verbatim>\<open>validator/src/slashing_db.rs\<close>, \<^verbatim>\<open>types.rs\<close>, \<^verbatim>\<open>error.rs\<close>; one definition per method, the
    numbered checks of \<^verbatim>\<open>check_and_record_attestation\<close> and \<^verbatim>\<open>check_and_record_block\<close> as definitions of their own. JSON and hex are the
    parameter \<open>codec\<close>.
  \<^item> \<open>Signing_Guard\<close>: the interface of everything that records before it grants, as a locale; \<open>Slashing_Safety\<close> and
    \<open>Slashing_Guards\<close> interpret it on the attestation and block operations, \<open>Eots_Safety\<close> on finality votes.
  \<^item> \<open>Eots_Db\<close>: \<^verbatim>\<open>validator/src/babylon.rs\<close>. \<open>Eth_Validator\<close>: \<^verbatim>\<open>validator/src/ethereum.rs\<close>. \<open>Interchange\<close>:
    \<^verbatim>\<open>validator/src/interchange.rs\<close>. Signatures and hashes are parameters.
  \<^item> \<open>Audit_Chain\<close>: \<^verbatim>\<open>audit/src/event.rs\<close>, \<^verbatim>\<open>hash_chain.rs\<close>. \<open>Merkle\<close>: \<^verbatim>\<open>audit/src/merkle_tree.rs\<close>.
  \<^item> \<open>Ttlv\<close>: \<^verbatim>\<open>kmip-server/src/ttlv\<close>.
  \<^item> \<open>Raft_Log\<close>: \<^verbatim>\<open>cluster/src/consensus/log.rs\<close>. \<open>Raft_Node\<close>: \<^verbatim>\<open>cluster/src/node.rs\<close>,
    \<^verbatim>\<open>consensus/state.rs\<close>, \<^verbatim>\<open>config.rs\<close>, \<^verbatim>\<open>membership/mod.rs\<close>.
  \<^item> \<open>Auth_Access\<close>: \<^verbatim>\<open>auth/src/rbac\<close>, \<^verbatim>\<open>acl.rs\<close>, \<^verbatim>\<open>namespace.rs\<close>, \<^verbatim>\<open>mtls/identity.rs\<close>, the combined check of \<^verbatim>\<open>lib.rs\<close>.
    \<open>Sessions\<close>: \<^verbatim>\<open>auth/src/session\<close>. \<open>Account_Recovery\<close>: \<^verbatim>\<open>auth/src/recovery/mod.rs\<close>.
  \<^item> \<open>Policy_Types\<close>: \<^verbatim>\<open>auth/src/policy/types.rs\<close>, \<^verbatim>\<open>spending.rs\<close>, \<^verbatim>\<open>address.rs\<close>. \<open>Policy_Engine\<close>: \<^verbatim>\<open>tracker.rs\<close>,
    \<^verbatim>\<open>evaluation.rs\<close>. \<open>Policy_Approval\<close>: \<^verbatim>\<open>approval.rs\<close>. \<open>Policy_Store\<close>: \<^verbatim>\<open>storage.rs\<close>.
  \<^item> \<open>Budgets\<close>: the interface of everything that limits attempts, as a locale with a potential that each counted event uses up.
  \<^item> \<open>Crash_Disk\<close>: the file-system calls under \<^verbatim>\<open>storage/src\<close>, each of which may be cut short by an error or by a stop of the machine,
    and triples with a crash condition for programs over them. \<open>Wal_Journal\<close>: \<^verbatim>\<open>journal.rs\<close>, \<^verbatim>\<open>checksum.rs\<close>. \<open>Encrypted_Storage\<close>:
    \<^verbatim>\<open>encrypted_fs.rs\<close>, \<^verbatim>\<open>master_key.rs\<close>. \<open>Storage_Crashes\<close>, \<open>Storage_Recovery\<close>: what each operation and the recovery do under
    crashes; \<open>Storage_Runs\<close>: runs with crashes and the specification they refine; \<open>Storage_Examples\<close>: concrete runs.
  \<^item> \<open>Aes_Engine\<close>: \<^verbatim>\<open>crypto-engine/src/symmetric/aes_gcm.rs\<close> over the ciphers as parameters. \<open>Secret_Types\<close>:
    \<^verbatim>\<open>secrets/src/secret.rs\<close>, \<^verbatim>\<open>version.rs\<close>. \<open>Secret_Leases\<close>: \<^verbatim>\<open>lease.rs\<close>. \<open>Secret_Stores\<close>: \<^verbatim>\<open>store.rs\<close>, the trait as a record of
    operations, its two implementations and the manager. \<open>Secret_Interface\<close>: what a store promises, as a locale over a versioned map;
    \<open>Secret_Runs\<close> and \<open>Secret_Manager\<close> treat runs of the store and of the manager inside it, \<open>Secret_Refinement\<close> interprets it on both
    stores.
  \<^item> \<open>Sample_Hex\<close>, \<open>Sample_Codec\<close>, \<open>Plain_Codec\<close>: concrete codecs with the laws that the properties ask of the parameters.

  \<^bold>\<open>Conventions.\<close> A struct is a record, an enum a datatype, a \<^verbatim>\<open>Result\<close> a sum with \<open>Inl\<close> for \<^verbatim>\<open>Err\<close>. Integers are
  words and wrap as in the release profile. Clock readings (nanoseconds) and random bytes are arguments. Hash maps are
  association lists, hash sets lists; their order stands for one iteration order. An operation under a lock is one
  step; what other threads do is the order of the steps. Log messages and metrics are left out.

  \<^bold>\<open>What is shown.\<close>
  \<^item> \<open>Slashing_Properties\<close>: whatever the store fails at, no two granted attestations or blocks are slashable; without
    failures also across crashes; and exactly which requests are granted. A failed flush, a repeat and a crash together
    break it: the repeat is answered as already durable.
  \<^item> \<open>Eots_Safety\<close>, \<open>Eth_Safety\<close>: the same for signatures as they leave the validators, with collision-free hash inputs
    as a hypothesis.
  \<^item> \<open>Interchange_Properties\<close>: exported attestations are restored by an import; an older file lowers the minimum epochs.
  \<^item> \<open>Audit_Chain\<close>, \<open>Merkle\<close>: appended chains verify, the last hash determines the contents, proofs are complete and sound;
    and which changes go unnoticed.
  \<^item> \<open>Ttlv\<close>: round trip, totality without a panic, the nesting limit, the length of a message in a stream.
  \<^item> \<open>Raft_Properties\<close>, \<open>Raft_Safety\<close>: a restarted log is the log before the crash, replication and compaction, one
    leader per term, a message is signed once, the quorum test is a majority; and where conflicts, full compaction and
    stale leaders go wrong.
  \<^item> \<open>Auth_Properties\<close>, \<open>Session_Properties\<close>: the exact decision of the combined check; delegation never widens, revocation
    removes exactly the descendants, the rate limiter's bound, rotated tokens are dead. The three token-checking
    validations share the locale \<open>token_gate\<close>.
  \<^item> \<open>Recovery_Properties\<close>, \<open>Recovery_Codes\<close>, \<open>Recovery_Locks\<close>: guesses at a recovery code are bounded in every run, a backup
    code works exactly once, a quorum takes different guardians, a time lock holds until it ends; and how a request is completed without
    its code.
  \<^item> \<open>Policy_Spending\<close>, \<open>Policy_Votes\<close>, \<open>Policy_Scopes\<close>: a spending limit holds for every sliding window, what can be executed has
    been approved by different approvers, the policy index agrees with the policies; and amounts, histories and tokens that escape.
  \<^item> \<open>Storage_Properties\<close>: if no call fails, acknowledged stores and deletions survive every crash, interrupted ones are
    atomic, and opening always completes; a cut journal replays its complete entries. A journal write that failed and a store
    with an invalid name break this, with examples.
  \<^item> \<open>Secret_Properties\<close>: both stores refine the versioned map and so cannot be told apart, a stored version never changes, a deleted
    secret has no valid lease, and no renewal carries a lease beyond the largest time to live. \<open>Secret_Races\<close>: what goes wrong when
    another task runs between the two locks of an update, or between a read and its lease.

  \<^bold>\<open>Bounds and fuel.\<close> The decoder of \<open>Ttlv\<close> recurses over the 64 levels that the source allows and its lists over the
  length of the input. The loops of log compaction and of cascading revocation may run for ever on some inputs; they
  are partial functions into \<open>option\<close>, and the properties prove that they return. Journal records are shorter than
  the 4 GiB that their length field can express. Runs of a secret store are shorter than the 32-bit version numbers.

  \<^bold>\<open>Not modelled.\<close> Third-party code (sled, serde, SHA-256, BLS, secp256k1, chrono, uuid) is a parameter. Network servers,
  certificates and tokens of other parties, hardware and WebAssembly back ends, and the rest of the crypto engine are left out:
  they are I/O or wrap libraries whose sources are not part of the repository. The key manager, the storage wrappers and the audit
  storage are not translated yet. Wiping secrets from memory has no counterpart in the model.
\<close>

end
